(* ===== verification/RNG_Prelude.thy ===== *)
theory RNG_Prelude
  imports Main "HOL-Library.Word" "HOL-Library.Monad_Syntax"
begin

unbundle bit_operations_syntax

text \<open>
  Shared vocabulary of the development: the machine types of the C sources, C arrays in which
  an access out of range or a read of a cell that was never written is undefined behaviour
  (\<open>None\<close>), the conversion of a C \<open>char\<close> to \<open>int\<close> under either signedness, and the
  generic lemmas the components use.
\<close>

type_synonym u8 = "8 word"
type_synonym u16 = "16 word"
type_synonym u32 = "32 word"
type_synonym u64 = "64 word"

named_theorems carr \<open>rules for reads and writes of C arrays\<close>

subsection \<open>C arrays\<close>

text \<open>
  A cell is \<open>None\<close> while it is allocated but not yet initialised. Both accesses are undefined
  outside the array, and a read is undefined on a cell that holds nothing.
\<close>

type_synonym 'a carray = "'a option list"

definition rd :: "'a carray \<Rightarrow> nat \<Rightarrow> 'a option" where
  "rd a i = (if i < length a then a ! i else None)"

definition wr :: "'a carray \<Rightarrow> nat \<Rightarrow> 'a \<Rightarrow> 'a carray option" where
  "wr a i v = (if i < length a then Some (a[i := Some v]) else None)"

definition initialised :: "'a list \<Rightarrow> 'a carray" where
  "initialised xs = map Some xs"

lemma rd_initialised [carr]: "i < length xs \<Longrightarrow> rd (initialised xs) i = Some (xs ! i)"
  by (simp add: rd_def initialised_def)

lemma rd_prefix [carr]: "i < length xs \<Longrightarrow> rd (initialised xs @ rest) i = Some (xs ! i)"
  by (simp add: rd_def initialised_def nth_append)

lemma rd_Cons_prefix [carr]: "rd (initialised xs @ Some v # rest) (length xs) = Some v"
  by (simp add: rd_def initialised_def nth_append)

lemma wr_prefix [carr]:
  "rest \<noteq> [] \<Longrightarrow> wr (initialised xs @ rest) (length xs) v = Some (initialised (xs @ [v]) @ tl rest)"
  by (cases rest) (simp_all add: wr_def initialised_def list_update_append)

lemma length_initialised [simp]: "length (initialised xs) = length xs"
  by (simp add: initialised_def)

lemma initialised_append [simp]: "initialised (xs @ ys) = initialised xs @ initialised ys"
  by (simp add: initialised_def)

lemma initialised_Nil [simp]: "initialised [] = []"
  by (simp add: initialised_def)

subsection \<open>The C type char\<close>

text \<open>
  Whether \<open>char\<close> is signed is the compiler's choice (signed on x86 Linux, unsigned on ARM Linux
  and under \<open>-funsigned-char\<close>); the model takes it as the argument \<open>sc\<close>.
\<close>

definition char_int :: "bool \<Rightarrow> u8 \<Rightarrow> int" where
  "char_int sc c = (if sc then sint c else uint c)"

lemma char_int_simps [simp]:
  "char_int sc 0 = 0" "char_int sc 1 = 1" "char_int True 0xFF = -1" "char_int False 0xFF = 255"
  by (simp_all add: char_int_def)

lemma char_int_eq_iff [simp]: "char_int sc x = char_int sc y \<longleftrightarrow> x = y"
proof (cases sc)
  case True
  then show ?thesis by (auto simp: char_int_def intro: signed_word_eqI)
next
  case False
  then show ?thesis by (simp add: char_int_def word_uint_eq_iff)
qed

lemma char_int_eq_0 [simp]: "char_int sc x = 0 \<longleftrightarrow> x = 0"
  using char_int_eq_iff [of sc x 0] by simp

lemma char_int_eq_1 [simp]: "char_int sc x = 1 \<longleftrightarrow> x = 1"
  using char_int_eq_iff [of sc x 1] by simp

lemma char_int_eq_m1 [simp]: "char_int True x = -1 \<longleftrightarrow> x = 0xFF"
  using char_int_eq_iff [of True x "0xFF"] by simp

lemma char_int_unsigned_m1 [simp]: "char_int False x \<noteq> -1"
proof -
  have "0 \<le> uint x" by simp
  then have "uint x \<noteq> -1" by linarith
  then show ?thesis by (simp add: char_int_def)
qed

subsection \<open>Bits\<close>

definition bitw :: "bool \<Rightarrow> u8" where
  "bitw b = (if b then 1 else 0)"

lemma bitw_simps [simp]:
  "bitw False = 0" "bitw True = 1" "bitw b \<noteq> 0xFF" "bitw a = bitw b \<longleftrightarrow> a = b"
  by (simp_all add: bitw_def)

lemma bitw_cases: "bitw b = 0 \<or> bitw b = 1"
  by (simp add: bitw_def)

text \<open>The character that stands for a bit on the serial line.\<close>

definition ascii :: "bool \<Rightarrow> u8" where
  "ascii b = (if b then 49 else 48)"

definition ones :: "bool list \<Rightarrow> nat" where
  "ones xs = count_list xs True"

lemma ones_simps [simp]:
  "ones [] = 0" "ones (True # xs) = Suc (ones xs)" "ones (False # xs) = ones xs"
  "ones (xs @ ys) = ones xs + ones ys"
  by (simp_all add: ones_def)

lemma ones_le_length: "ones xs \<le> length xs"
  by (simp add: ones_def count_le_length)

end
