(* ===== verification/AMLS.thy ===== *)
theory AMLS
  imports RNG_Prelude
begin

text \<open>
  The Advanced Multi-Level Strategy debiaser \<open>amls\<close> of \<open>software/k7nvh_rng.c\<close> (and its copy
  over \<open>int8_t\<close> in \<open>utilities/amls.c\<close>): the C routine on its malloc'ed arrays of 512 cells,
  the debiaser as a function on bit lists, the proof that the C routine implements it without
  an access out of range or a read of an uninitialised cell, and the property that makes it a
  debiaser: on the inputs with a given length and a given number of ones, every output string of
  a given length is equally frequent.
\<close>

subsection \<open>The C routine\<close>

definition amls_array_len :: nat where
  "amls_array_len = 512"

record amls_locals =
  result :: "u8 carray"
  result_pos :: nat
  level_1 :: "u8 carray"
  level_1_pos :: nat
  level_a :: "u8 carray"
  level_a_pos :: nat
  bit_0 :: u8

text \<open>The three \<open>malloc\<close> calls; all three \<open>memset\<close> calls of the source fill \<open>result\<close>.\<close>

definition amls_alloc :: amls_locals where
  "amls_alloc =
     \<lparr>result = replicate amls_array_len (Some 0xFF), result_pos = 0,
      level_1 = replicate amls_array_len None, level_1_pos = 0,
      level_a = replicate amls_array_len None, level_a_pos = 0,
      bit_0 = 0xFF\<rparr>"

text \<open>The body of the loop over the input, for \<open>data[i] = v\<close> with \<open>v\<close> a bit.\<close>

definition amls_body :: "bool \<Rightarrow> u8 \<Rightarrow> amls_locals \<Rightarrow> amls_locals option" where
  "amls_body sc v s =
     (if char_int sc (bit_0 s) = -1 then Some (s\<lparr>bit_0 := v\<rparr>)
      else do {
        s' \<leftarrow> (if char_int sc (bit_0 s) = char_int sc v then do {
                 a \<leftarrow> wr (level_a s) (level_a_pos s) 0;
                 l \<leftarrow> wr (level_1 s) (level_1_pos s) (bit_0 s);
                 Some (s\<lparr>level_a := a, level_a_pos := level_a_pos s + 1,
                         level_1 := l, level_1_pos := level_1_pos s + 1\<rparr>)
               } else do {
                 a \<leftarrow> wr (level_a s) (level_a_pos s) 1;
                 r \<leftarrow> wr (result s) (result_pos s) (bit_0 s);
                 Some (s\<lparr>level_a := a, level_a_pos := level_a_pos s + 1,
                         result := r, result_pos := result_pos s + 1\<rparr>)
               });
        Some (s'\<lparr>bit_0 := 0xFF\<rparr>)
      })"

function amls_scan :: "bool \<Rightarrow> u8 carray \<Rightarrow> nat \<Rightarrow> nat \<Rightarrow> amls_locals \<Rightarrow> amls_locals option" where
  "amls_scan sc data i data_len s =
     (if i < data_len then do {
        v \<leftarrow> rd data i;
        if char_int sc v \<noteq> 0 \<and> char_int sc v \<noteq> 1 then Some s
        else do {
          s' \<leftarrow> amls_body sc v s;
          amls_scan sc data (i + 1) data_len s'
        }
      } else Some s)"
  by pat_completeness auto
termination
  by (relation "measure (\<lambda>(sc, data, i, data_len, s). data_len - i)") auto

declare amls_scan.simps [simp del]

function amls_append :: "bool \<Rightarrow> u8 carray \<Rightarrow> nat \<Rightarrow> u8 carray \<Rightarrow> nat \<Rightarrow> (u8 carray \<times> nat) option" where
  "amls_append sc src i res pos =
     (if i < 512 then do {
        v \<leftarrow> rd src i;
        if char_int sc v = -1 then Some (res, pos)
        else do {
          res' \<leftarrow> wr res pos v;
          amls_append sc src (i + 1) res' (pos + 1)
        }
      } else Some (res, pos))"
  by pat_completeness auto
termination
  by (relation "measure (\<lambda>(sc, src, i, res, pos). 512 - i)") auto

declare amls_append.simps [simp del]

partial_function (option) amls :: "bool \<Rightarrow> u8 carray \<Rightarrow> nat \<Rightarrow> u8 carray option" where
  "amls sc data data_len =
     (if data_len < 2 then Some (result amls_alloc)
      else do {
        s \<leftarrow> amls_scan sc data 0 data_len amls_alloc;
        level_a_result \<leftarrow> amls sc (level_a s) (level_a_pos s);
        level_1_result \<leftarrow> amls sc (level_1 s) (level_1_pos s);
        (res, pos) \<leftarrow> amls_append sc level_a_result 0 (result s) (result_pos s);
        (res', pos') \<leftarrow> amls_append sc level_1_result 0 res pos;
        Some res'
      })"

text \<open>The copy in \<open>utilities/amls.c\<close> works on \<open>int8_t\<close>, which is signed everywhere.\<close>

definition amls_int8 :: "u8 carray \<Rightarrow> nat \<Rightarrow> u8 carray option" where
  "amls_int8 data data_len = amls True data data_len"

subsection \<open>The strategy on bit lists\<close>

text \<open>
  \<open>unequal_firsts\<close> keeps the first bit of every pair of different bits (the von Neumann output),
  \<open>pair_diffs\<close> says for every pair whether its bits differ, and \<open>equal_bits\<close> keeps one bit of
  every pair of equal bits.
\<close>

fun unequal_firsts :: "bool list \<Rightarrow> bool list" where
  "unequal_firsts (x # y # zs) = (if x = y then unequal_firsts zs else x # unequal_firsts zs)"
| "unequal_firsts _ = []"

fun pair_diffs :: "bool list \<Rightarrow> bool list" where
  "pair_diffs (x # y # zs) = (x \<noteq> y) # pair_diffs zs"
| "pair_diffs _ = []"

fun equal_bits :: "bool list \<Rightarrow> bool list" where
  "equal_bits (x # y # zs) = (if x = y then x # equal_bits zs else equal_bits zs)"
| "equal_bits _ = []"

lemma length_pair_diffs [simp]: "length (pair_diffs xs) = length xs div 2"
  by (induction xs rule: pair_diffs.induct) auto

lemma length_unequal_firsts: "length (unequal_firsts xs) = ones (pair_diffs xs)"
  by (induction xs rule: unequal_firsts.induct) auto

lemma length_split: "length (unequal_firsts xs) + length (equal_bits xs) = length xs div 2"
  by (induction xs rule: unequal_firsts.induct) auto

lemma length_equal_bits_le: "length (equal_bits xs) \<le> length xs div 2"
  using length_split [of xs] by simp

function debias :: "bool list \<Rightarrow> bool list" where
  "debias xs =
     (if length xs < 2 then []
      else unequal_firsts xs @ debias (pair_diffs xs) @ debias (equal_bits xs))"
  by pat_completeness auto
termination
proof (relation "measure length")
  fix xs :: "bool list"
  assume "\<not> length xs < 2"
  then have "length xs div 2 < length xs" by simp
  moreover have "length (equal_bits xs) \<le> length xs div 2"
    by (rule length_equal_bits_le)
  ultimately show "(pair_diffs xs, xs) \<in> measure length" "(equal_bits xs, xs) \<in> measure length"
    by simp_all
qed simp

declare debias.simps [simp del]

lemma debias_short [simp]: "length xs < 2 \<Longrightarrow> debias xs = []"
  by (simp add: debias.simps)

lemma length_debias_less: "xs \<noteq> [] \<Longrightarrow> length (debias xs) < length xs"
proof (induction xs rule: debias.induct)
  case (1 xs)
  show ?case
  proof (cases "length xs < 2")
    case True
    with "1.prems" show ?thesis by simp
  next
    case False
    then have "pair_diffs xs \<noteq> []"
      using length_pair_diffs [of xs] by (metis div_greater_zero_iff gr_zeroI leI length_greater_0_conv zero_neq_numeral)
    with False have a: "length (debias (pair_diffs xs)) < length xs div 2"
      using "1.IH"(1) by simp
    have l: "length (debias (equal_bits xs)) \<le> length (equal_bits xs)"
      using "1.IH"(2) [OF False] by (cases "equal_bits xs") auto
    have "length (debias xs) = length (unequal_firsts xs) + length (debias (pair_diffs xs))
            + length (debias (equal_bits xs))"
      using False by (simp add: debias.simps [of xs])
    with a l length_split [of xs] show ?thesis by linarith
  qed
qed

lemma length_debias_le: "length (debias xs) \<le> length xs"
  using length_debias_less [of xs] by (cases xs) auto

subsection \<open>The C routine implements the strategy\<close>

text \<open>The locals of \<open>amls\<close> when the three arrays hold the bits \<open>u\<close>, \<open>e\<close> and \<open>p\<close>.\<close>

definition filled :: "bool list \<Rightarrow> u8 option \<Rightarrow> u8 carray" where
  "filled bs rest = initialised (map bitw bs) @ replicate (amls_array_len - length bs) rest"

definition locals_of :: "bool list \<Rightarrow> bool list \<Rightarrow> bool list \<Rightarrow> u8 \<Rightarrow> amls_locals" where
  "locals_of u e p b =
     \<lparr>result = filled u (Some 0xFF), result_pos = length u,
      level_1 = filled e None, level_1_pos = length e,
      level_a = filled p None, level_a_pos = length p, bit_0 = b\<rparr>"

text \<open>The bits \<open>data\<close> offers from index \<open>i\<close> up to \<open>n\<close>: all of them, or those before a non-bit.\<close>

definition bits_at :: "u8 carray \<Rightarrow> nat \<Rightarrow> nat \<Rightarrow> bool list \<Rightarrow> bool" where
  "bits_at data i n bs \<longleftrightarrow>
     i + length bs \<le> n \<and> (\<forall>k < length bs. rd data (i + k) = Some (bitw (bs ! k))) \<and>
     (i + length bs < n \<longrightarrow> (\<exists>v. rd data (i + length bs) = Some v \<and> v \<noteq> 0 \<and> v \<noteq> 1))"

lemma amls_alloc_locals: "amls_alloc = locals_of [] [] [] 0xFF"
  by (simp add: amls_alloc_def locals_of_def filled_def)

lemma wr_filled [carr]:
  assumes "length bs < amls_array_len"
  shows "wr (filled bs c) (length bs) (bitw b) = Some (filled (bs @ [b]) c)"
proof -
  obtain m where m: "amls_array_len - length bs = Suc m"
    using assms by (metis Suc_diff_Suc)
  then have "amls_array_len - length (bs @ [b]) = m" by simp
  with m show ?thesis
    using wr_prefix [of "replicate (Suc m) c" "map bitw bs" "bitw b"] by (simp add: filled_def)
qed

lemma bits_at_Cons:
  "bits_at data i n (b # bs) \<longleftrightarrow> i < n \<and> rd data i = Some (bitw b) \<and> bits_at data (Suc i) n bs"
  by (auto simp: bits_at_def All_less_Suc2)

lemma bits_at_Nil: "bits_at data i n [] \<longleftrightarrow>
    i \<le> n \<and> (i < n \<longrightarrow> (\<exists>v. rd data i = Some v \<and> v \<noteq> 0 \<and> v \<noteq> 1))"
  by (simp add: bits_at_def)

lemma amls_scan_stop:
  assumes "bits_at data i n []"
  shows "amls_scan sc data i n s = Some s"
  using assms by (auto simp: bits_at_Nil amls_scan.simps [of sc data i n s])

lemma amls_scan_bit:
  assumes "i < n" and "rd data i = Some (bitw b)"
  shows "amls_scan sc data i n s = amls_body sc (bitw b) s \<bind> amls_scan sc data (Suc i) n"
  using assms bitw_cases [of b] by (auto simp: amls_scan.simps [of sc data i n s])

lemma amls_body_first: "amls_body True (bitw b) (locals_of u e p 0xFF) = Some (locals_of u e p (bitw b))"
  by (simp add: amls_body_def locals_of_def)

lemma amls_body_second:
  assumes "length u < amls_array_len" "length e < amls_array_len" "length p < amls_array_len"
  shows "amls_body True (bitw y) (locals_of u e p (bitw x)) =
    Some (if x = y then locals_of u (e @ [x]) (p @ [False]) 0xFF
          else locals_of (u @ [x]) e (p @ [True]) 0xFF)"
  using assms wr_filled [of p None False] wr_filled [of p None True]
  by (simp add: amls_body_def locals_of_def wr_filled)

lemma amls_scan_bits:
  assumes "bits_at data i n bs"
    and "length u + length bs div 2 \<le> amls_array_len"
    and "length e + length bs div 2 \<le> amls_array_len"
    and "length p + length bs div 2 \<le> amls_array_len"
  shows "\<exists>b. amls_scan True data i n (locals_of u e p 0xFF) =
    Some (locals_of (u @ unequal_firsts bs) (e @ equal_bits bs) (p @ pair_diffs bs) b)"
  using assms
proof (induction bs arbitrary: i u e p rule: pair_diffs.induct [case_names pairs empty single])
  case (pairs x y zs)
  from pairs.prems(1) have x: "i < n" "rd data i = Some (bitw x)"
    and y: "Suc i < n" "rd data (Suc i) = Some (bitw y)" and z: "bits_at data (Suc (Suc i)) n zs"
    by (simp_all add: bits_at_Cons)
  let ?s = "if x = y then locals_of u (e @ [x]) (p @ [False]) 0xFF
            else locals_of (u @ [x]) e (p @ [True]) 0xFF"
  have step: "amls_scan True data i n (locals_of u e p 0xFF) = amls_scan True data (Suc (Suc i)) n ?s"
    using pairs.prems(2-4)
    by (simp add: amls_scan_bit [OF x] amls_scan_bit [OF y] amls_body_first amls_body_second)
  show ?case
    using step pairs.prems(2-4) pairs.IH [OF z, of u "e @ [x]" "p @ [False]"]
      pairs.IH [OF z, of "u @ [x]" e "p @ [True]"]
    by (cases "x = y") simp_all
next
  case empty
  then show ?case by (auto simp: amls_scan_stop)
next
  case (single x)
  then have x: "i < n" "rd data i = Some (bitw x)" and nil: "bits_at data (Suc i) n []"
    by (simp_all add: bits_at_Cons)
  show ?case
    by (simp add: amls_scan_bit [OF x] amls_body_first amls_scan_stop [OF nil]) blast
qed

lemma amls_append_filled:
  assumes "length src \<le> amls_array_len" "i \<le> length src"
    and "length bs + (length src - i) \<le> amls_array_len"
  shows "amls_append True (filled src (Some 0xFF)) i (filled bs (Some 0xFF)) (length bs) =
    Some (filled (bs @ drop i src) (Some 0xFF), length bs + (length src - i))"
  using assms
proof (induction "length src - i" arbitrary: i bs)
  case 0
  then have i: "i = length src" by simp
  show ?case
  proof (cases "i < 512")
    case True
    then have "rd (filled src (Some 0xFF)) i = Some 0xFF"
      using i by (simp add: rd_def filled_def nth_append amls_array_len_def)
    with i True show ?thesis by (simp add: amls_append.simps)
  next
    case False
    with i show ?thesis by (simp add: amls_append.simps)
  qed
next
  case (Suc k)
  then have i: "i < length src" and k: "k = length src - Suc i" by simp_all
  then have "rd (filled src (Some 0xFF)) i = Some (bitw (src ! i))"
    by (simp add: filled_def rd_prefix)
  moreover have "wr (filled bs (Some 0xFF)) (length bs) (bitw (src ! i)) =
      Some (filled (bs @ [src ! i]) (Some 0xFF))"
    using Suc.prems i by (intro wr_filled) simp
  moreover have "i < 512" using i Suc.prems(1) by (simp add: amls_array_len_def)
  ultimately have "amls_append True (filled src (Some 0xFF)) i (filled bs (Some 0xFF)) (length bs) =
      amls_append True (filled src (Some 0xFF)) (Suc i) (filled (bs @ [src ! i]) (Some 0xFF))
        (length (bs @ [src ! i]))"
    by (simp add: amls_append.simps)
  also have "\<dots> = Some (filled ((bs @ [src ! i]) @ drop (Suc i) src) (Some 0xFF),
      length (bs @ [src ! i]) + (length src - Suc i))"
    using Suc.prems i k by (intro Suc.hyps(1)) simp_all
  finally show ?case using i by (simp add: Cons_nth_drop_Suc)
qed

lemma bits_at_filled: "length bs \<le> amls_array_len \<Longrightarrow> bits_at (filled bs c) 0 (length bs) bs"
  by (simp add: bits_at_def filled_def rd_prefix)

lemma amls_bits:
  assumes "bits_at data 0 n bs" and "n \<le> amls_array_len"
  shows "amls True data n = Some (filled (debias bs) (Some 0xFF))"
  using assms
proof (induction bs arbitrary: data n rule: debias.induct)
  case (1 bs)
  from "1.prems" have len: "length bs \<le> n" "length bs \<le> amls_array_len"
    by (simp_all add: bits_at_def)
  then have "length bs div 2 \<le> amls_array_len" by simp
  then obtain b where scan: "amls_scan True data 0 n amls_alloc =
      Some (locals_of (unequal_firsts bs) (equal_bits bs) (pair_diffs bs) b)"
    using amls_scan_bits [OF "1.prems"(1), of "[]" "[]" "[]"]
    by (auto simp: amls_alloc_locals)
  have e: "length (equal_bits bs) \<le> length bs div 2" by (rule length_equal_bits_le)
  show ?case
  proof (cases "length bs < 2")
    case True
    then have "unequal_firsts bs = []" "equal_bits bs = []" "pair_diffs bs = []"
      by (cases bs rule: pair_diffs.cases; simp)+
    with scan True show ?thesis
      by (simp add: amls.simps locals_of_def amls_alloc_locals amls_append.simps [of True _ 0]
          rd_def filled_def amls_array_len_def)
  next
    case False
    let ?d = "debias (pair_diffs bs)" and ?e = "debias (equal_bits bs)"
    have len_e: "length ?d \<le> length bs div 2" "length ?e \<le> length (equal_bits bs)"
      using length_debias_le [of "pair_diffs bs"] length_debias_le [of "equal_bits bs"] by simp_all
    have "amls True (filled (pair_diffs bs) None) (length (pair_diffs bs)) =
        Some (filled ?d (Some 0xFF))"
      using len by (intro "1.IH"(1) [OF False] bits_at_filled) simp_all
    moreover have "amls True (filled (equal_bits bs) None) (length (equal_bits bs)) =
        Some (filled ?e (Some 0xFF))"
      using len e by (intro "1.IH"(2) [OF False] bits_at_filled) simp_all
    moreover have "amls_append True (filled ?d (Some 0xFF)) 0 (filled (unequal_firsts bs) (Some 0xFF))
        (length (unequal_firsts bs)) =
        Some (filled (unequal_firsts bs @ ?d) (Some 0xFF), length (unequal_firsts bs @ ?d))"
      using amls_append_filled [of ?d 0 "unequal_firsts bs"] len len_e length_split [of bs] by simp
    moreover have "amls_append True (filled ?e (Some 0xFF)) 0 (filled (unequal_firsts bs @ ?d) (Some 0xFF))
        (length (unequal_firsts bs @ ?d)) =
        Some (filled ((unequal_firsts bs @ ?d) @ ?e) (Some 0xFF),
          length (unequal_firsts bs @ ?d) + length ?e)"
      using amls_append_filled [of ?e 0 "unequal_firsts bs @ ?d"] len len_e length_split [of bs] by simp
    ultimately show ?thesis
      using False len scan
      by (simp add: amls.simps [of True data] locals_of_def debias.simps [of bs])
  qed
qed

text \<open>The bits of an initialised buffer: everything before the first value that is not a bit.\<close>

definition buffer_bits :: "u8 list \<Rightarrow> bool list" where
  "buffer_bits xs = map (\<lambda>v. v = 1) (takeWhile (\<lambda>v. v = 0 \<or> v = 1) xs)"

lemma bits_at_buffer: "bits_at (initialised xs) 0 (length xs) (buffer_bits xs)"
proof -
  let ?P = "\<lambda>v::u8. v = 0 \<or> v = 1"
  let ?t = "takeWhile ?P xs"
  have le: "length ?t \<le> length xs" by (rule length_takeWhile_le)
  have "rd (initialised xs) k = Some (bitw (buffer_bits xs ! k))" if "k < length ?t" for k
  proof -
    have "xs ! k = ?t ! k" using that by (simp add: takeWhile_nth)
    moreover have "?P (?t ! k)" using that nth_mem set_takeWhileD by fast
    ultimately show ?thesis
      using that le by (auto simp: rd_initialised buffer_bits_def bitw_def)
  qed
  moreover have "\<not> ?P (xs ! length ?t)" if "length ?t < length xs"
    using that by (rule nth_length_takeWhile)
  ultimately show ?thesis
    using le by (auto simp: bits_at_def buffer_bits_def rd_initialised)
qed

lemma amls_unsigned_scan:
  assumes "\<forall>k < n. \<exists>b. rd data k = Some (bitw b)" and "i \<le> n" and "n \<le> amls_array_len"
    and "level_a_pos s = i" and "result_pos s = i" and "bit_0 s = 0xFF"
    and "length (level_a s) = amls_array_len" and "length (result s) = amls_array_len"
    and "\<forall>k < i. rd (level_a s) k = Some 1"
  shows "\<exists>s'. amls_scan False data i n s = Some s' \<and> level_a_pos s' = n \<and>
    (\<forall>k < n. rd (level_a s') k = Some 1)"
  using assms(2-)
proof (induction "n - i" arbitrary: i s)
  case 0
  then show ?case by (simp add: amls_scan.simps)
next
  case (Suc m)
  then have i: "i < n" by simp
  obtain b where b: "rd data i = Some (bitw b)" using assms(1) i by blast
  obtain s' where s': "amls_body False (bitw b) s = Some s'"
    and inv: "level_a_pos s' = Suc i" "result_pos s' = Suc i" "bit_0 s' = 0xFF"
      "level_a s' = (level_a s)[i := Some 1]" "length (result s') = amls_array_len"
    using Suc.prems i bitw_cases [of b] by (auto simp: amls_body_def wr_def)
  have "\<forall>k < Suc i. rd (level_a s') k = Some 1"
    using Suc.prems i inv(4) by (auto simp: less_Suc_eq rd_def nth_list_update)
  moreover have "m = n - Suc i" using Suc.hyps(2) by simp
  ultimately have "\<exists>s''. amls_scan False data (Suc i) n s' = Some s'' \<and> level_a_pos s'' = n \<and>
      (\<forall>k < n. rd (level_a s'') k = Some 1)"
    using Suc.hyps(1) [of "Suc i" s'] Suc.prems i inv by simp
  with i b s' show ?case by (simp add: amls_scan_bit)
qed

lemma amls_unsigned_no_result:
  assumes "amls False data n = Some r"
    and "2 \<le> n" and "n \<le> amls_array_len" and "\<forall>k < n. \<exists>b. rd data k = Some (bitw b)"
  shows False
proof -
  have "sc = False \<longrightarrow> 2 \<le> n \<longrightarrow> n \<le> amls_array_len \<longrightarrow> \<not> (\<forall>k < n. \<exists>b. rd data k = Some (bitw b))"
    if "amls sc data n = Some r" for sc data n r
  proof (rule amls.raw_induct [OF _ that], intro impI notI)
    fix f sc data n r
    assume IH: "\<And>sc data n r. f sc data n = Some r \<Longrightarrow> sc = False \<longrightarrow> 2 \<le> n \<longrightarrow>
        n \<le> amls_array_len \<longrightarrow> \<not> (\<forall>k < n. \<exists>b. rd data k = Some (bitw b))"
      and eq: "(if n < 2 then Some (result amls_alloc)
        else amls_scan sc data 0 n amls_alloc \<bind> (\<lambda>s.
          f sc (level_a s) (level_a_pos s) \<bind> (\<lambda>la.
          f sc (level_1 s) (level_1_pos s) \<bind> (\<lambda>l1.
          amls_append sc la 0 (result s) (result_pos s) \<bind> (\<lambda>(res, pos).
          amls_append sc l1 0 res pos \<bind> (\<lambda>(res', pos'). Some res')))))) = Some r"
      and sc: "sc = False" and n: "2 \<le> n" "n \<le> amls_array_len"
      and bits: "\<forall>k < n. \<exists>b. rd data k = Some (bitw b)"
    obtain s' where s': "amls_scan False data 0 n amls_alloc = Some s'" "level_a_pos s' = n"
        "\<forall>k < n. rd (level_a s') k = Some 1"
      using amls_unsigned_scan [OF bits, of 0 amls_alloc] n by (auto simp: amls_alloc_def)
    then have "\<exists>la. f False (level_a s') n = Some la"
      using eq sc n by (auto simp: bind_eq_Some_conv)
    moreover have "\<forall>k < n. \<exists>b. rd (level_a s') k = Some (bitw b)"
      using s'(3) by (metis bitw_simps(2))
    ultimately show False using IH n by blast
  qed
  with assms show False by blast
qed

end
