(* ===== verification/AMLS_Uniform.thy ===== *)
theory AMLS_Uniform
  imports AMLS
begin

text \<open>
  Why the Advanced Multi-Level Strategy debiases. Independent flips of a coin with a fixed bias
  give every input with the same length and the same number of ones the same probability, so the
  output is uniform once each output string of a given length comes from equally many of those
  inputs. The proof constructs, for every position \<open>j\<close> of the output, an involution \<open>flip_out\<close>
  on the inputs that keeps their length and their number of ones and inverts exactly bit \<open>j\<close> of
  the output.
\<close>

subsection \<open>Taking an input apart and putting it together\<close>

fun odd_rest :: "bool list \<Rightarrow> bool list" where
  "odd_rest (x # y # zs) = odd_rest zs"
| "odd_rest xs = xs"

fun join_pairs :: "bool list \<Rightarrow> bool list \<Rightarrow> bool list \<Rightarrow> bool list \<Rightarrow> bool list" where
  "join_pairs (True # p) e (x # u) t = x # (\<not> x) # join_pairs p e u t"
| "join_pairs (False # p) (x # e) u t = x # x # join_pairs p e u t"
| "join_pairs _ _ _ t = t"

definition fits :: "bool list \<Rightarrow> bool list \<Rightarrow> bool list \<Rightarrow> bool list \<Rightarrow> bool" where
  "fits p e u t \<longleftrightarrow> length u = ones p \<and> length u + length e = length p \<and> length t < 2"

lemma length_odd_rest: "length (odd_rest xs) < 2"
  by (induction xs rule: odd_rest.induct) auto

lemma fits_parts: "fits (pair_diffs xs) (equal_bits xs) (unequal_firsts xs) (odd_rest xs)"
  using length_split [of xs] by (simp add: fits_def length_unequal_firsts length_odd_rest)

lemma join_parts: "join_pairs (pair_diffs xs) (equal_bits xs) (unequal_firsts xs) (odd_rest xs) = xs"
  by (induction xs rule: odd_rest.induct) auto

lemma parts_short: "length t < 2 \<Longrightarrow> pair_diffs t = [] \<and> equal_bits t = [] \<and> unequal_firsts t = [] \<and> odd_rest t = t"
  by (cases t rule: odd_rest.cases) auto

lemma fits_Cons:
  "fits (True # p) e u t \<longleftrightarrow> (\<exists>x u'. u = x # u' \<and> fits p e u' t)"
  "fits [] e u t \<longleftrightarrow> e = [] \<and> u = [] \<and> length t < 2"
  by (cases u; auto simp: fits_def)+

lemma fits_False: "fits (False # p) e u t \<Longrightarrow> \<exists>x e'. e = x # e' \<and> fits p e' u t"
  using ones_le_length [of p] by (cases e) (auto simp: fits_def)

lemma join_pairs_parts:
  assumes "fits p e u t"
  defines "xs \<equiv> join_pairs p e u t"
  shows "pair_diffs xs = p \<and> equal_bits xs = e \<and> unequal_firsts xs = u \<and> odd_rest xs = t \<and>
    length xs = 2 * length p + length t \<and> ones xs = length u + 2 * ones e + ones t"
  using assms(1) unfolding xs_def
proof (induction p arbitrary: e u)
  case Nil
  then show ?case by (simp add: fits_Cons parts_short)
next
  case (Cons b p)
  show ?case
  proof (cases b)
    case True
    with Cons.prems obtain x u' where u: "u = x # u'" "fits p e u' t"
      by (auto simp: fits_Cons)
    from Cons.IH [OF u(2)] u(1) True show ?thesis by (cases x) simp_all
  next
    case False
    with Cons.prems have "fits (False # p) e u t" by simp
    then obtain x e' where e: "e = x # e'" "fits p e' u t"
      using fits_False by blast
    from Cons.IH [OF e(2)] e(1) False show ?thesis by (cases x) simp_all
  qed
qed

lemmas join_parts_simps =
  join_pairs_parts [THEN conjunct1]
  join_pairs_parts [THEN conjunct2, THEN conjunct1]
  join_pairs_parts [THEN conjunct2, THEN conjunct2, THEN conjunct1]
  join_pairs_parts [THEN conjunct2, THEN conjunct2, THEN conjunct2, THEN conjunct1]
  join_pairs_parts [THEN conjunct2, THEN conjunct2, THEN conjunct2, THEN conjunct2, THEN conjunct1]
  join_pairs_parts [THEN conjunct2, THEN conjunct2, THEN conjunct2, THEN conjunct2, THEN conjunct2]

lemma length_parts [simp]: "2 * (length xs div 2) + length (odd_rest xs) = length xs"
  using join_parts_simps(5) [OF fits_parts, of xs] by (simp add: join_parts)

lemma ones_parts: "ones xs = length (unequal_firsts xs) + 2 * ones (equal_bits xs) + ones (odd_rest xs)"
  using join_parts_simps(6) [OF fits_parts, of xs] by (simp add: join_parts)

lemma debias_join:
  assumes "fits p e u t" and "p \<noteq> []"
  shows "debias (join_pairs p e u t) = u @ debias p @ debias e"
proof -
  have "2 * length p \<le> length (join_pairs p e u t)"
    by (simp add: join_parts_simps [OF assms(1)])
  moreover have "2 \<le> 2 * length p" using assms(2) by (cases p) simp_all
  ultimately have "2 \<le> length (join_pairs p e u t)" by linarith
  then show ?thesis
    by (simp add: debias.simps [of "join_pairs p e u t"] join_parts_simps [OF assms(1)])
qed

subsection \<open>Inverting one output bit\<close>

definition invert_at :: "nat \<Rightarrow> bool list \<Rightarrow> bool list" where
  "invert_at j y = y[j := \<not> y ! j]"

function flip_out :: "bool list \<Rightarrow> nat \<Rightarrow> bool list" where
  "flip_out xs j =
     (if length xs < 2 then xs
      else let u = unequal_firsts xs; p = pair_diffs xs; e = equal_bits xs; t = odd_rest xs in
        if j < length u then join_pairs p e (invert_at j u) t
        else if j < length u + length (debias p)
        then join_pairs (flip_out p (j - length u)) e u t
        else join_pairs p (flip_out e (j - (length u + length (debias p)))) u t)"
  by pat_completeness auto
termination
proof (relation "measure (\<lambda>(xs, j). length xs)")
  fix xs :: "bool list" and j :: nat and u p e t :: "bool list"
  assume "\<not> length xs < 2" and p: "p = pair_diffs xs" and e: "e = equal_bits xs"
  then have lt: "length xs div 2 < length xs" by simp
  show "((p, j - length u), xs, j) \<in> measure (\<lambda>(xs, j). length xs)"
    using lt p by simp
  show "((e, j - (length u + length (debias p))), xs, j) \<in> measure (\<lambda>(xs, j). length xs)"
    using lt e length_equal_bits_le [of xs] by simp
qed simp

declare flip_out.simps [simp del]

lemma length_invert_at [simp]: "length (invert_at j y) = length y"
  by (simp add: invert_at_def)

lemma invert_at_invert_at [simp]: "invert_at j (invert_at j y) = y"
  by (cases "j < length y") (simp_all add: invert_at_def list_update_beyond)

lemma invert_at_append1: "j < length u \<Longrightarrow> invert_at j (u @ v) = invert_at j u @ v"
  by (simp add: invert_at_def nth_append list_update_append1)

lemma invert_at_append2: "length u \<le> j \<Longrightarrow> invert_at j (u @ v) = u @ invert_at (j - length u) v"
  by (simp add: invert_at_def nth_append list_update_append)

definition flips :: "bool list \<Rightarrow> nat \<Rightarrow> bool list \<Rightarrow> bool" where
  "flips xs j xs' \<longleftrightarrow> length xs' = length xs \<and> ones xs' = ones xs \<and>
     debias xs' = invert_at j (debias xs) \<and> flip_out xs' j = xs"

lemma flip_out_flips: "j < length (debias xs) \<Longrightarrow> flips xs j (flip_out xs j)"
proof (induction xs j rule: flip_out.induct)
  case (1 xs j)
  let ?u = "unequal_firsts xs" and ?p = "pair_diffs xs" and ?e = "equal_bits xs" and ?t = "odd_rest xs"
  have long: "\<not> length xs < 2" using "1.prems" by (cases "length xs < 2") simp_all
  have fit: "fits ?p ?e ?u ?t" by (rule fits_parts)
  have d: "debias xs = ?u @ debias ?p @ debias ?e" using long by (simp add: debias.simps [of xs])
  have p_ne: "?p \<noteq> []" using long length_pair_diffs [of xs] by (cases ?p) auto
  consider (u) "j < length ?u" | (p) "length ?u \<le> j" "j < length ?u + length (debias ?p)"
    | (e) "length ?u + length (debias ?p) \<le> j" by linarith
  then show ?case
  proof cases
    case u
    let ?u' = "invert_at j ?u"
    have fit': "fits ?p ?e ?u' ?t" using fit by (simp add: fits_def)
    have eq: "flip_out xs j = join_pairs ?p ?e ?u' ?t"
      using long u by (simp add: flip_out.simps [of xs] Let_def)
    have long': "\<not> length (join_pairs ?p ?e ?u' ?t) < 2"
      using long by (simp add: join_parts_simps [OF fit'])
    have "flip_out (join_pairs ?p ?e ?u' ?t) j = xs"
      using long' u by (simp add: flip_out.simps [of "join_pairs ?p ?e ?u' ?t"] Let_def
          join_parts_simps [OF fit'] join_parts)
    then show ?thesis
      using u by (simp add: flips_def eq join_parts_simps [OF fit'] debias_join [OF fit' p_ne] d
          ones_parts [of xs] invert_at_append1)
  next
    case p
    let ?i = "j - length ?u"
    let ?p' = "flip_out ?p ?i"
    have IH: "flips ?p ?i ?p'"
      using "1.IH"(1) [OF long refl refl refl refl] p by simp
    then have len: "length ?p' = length ?p" "ones ?p' = ones ?p" "length (debias ?p') = length (debias ?p)"
      by (simp_all add: flips_def)
    have fit': "fits ?p' ?e ?u ?t" using fit len by (simp add: fits_def)
    have ne': "?p' \<noteq> []" using p_ne len(1) by (metis length_0_conv)
    have eq: "flip_out xs j = join_pairs ?p' ?e ?u ?t"
      using long p by (simp add: flip_out.simps [of xs] Let_def)
    have long': "\<not> length (join_pairs ?p' ?e ?u ?t) < 2"
      using long len by (simp add: join_parts_simps [OF fit'])
    have "flip_out (join_pairs ?p' ?e ?u ?t) j = xs"
      using long' p len IH by (simp add: flip_out.simps [of "join_pairs ?p' ?e ?u ?t"] Let_def
          join_parts_simps [OF fit'] join_parts flips_def)
    then show ?thesis
      using p len IH by (simp add: flips_def eq join_parts_simps [OF fit'] debias_join [OF fit' ne'] d
          ones_parts [of xs] invert_at_append1 invert_at_append2)
  next
    case e
    let ?i = "j - (length ?u + length (debias ?p))"
    let ?e' = "flip_out ?e ?i"
    have "?i < length (debias ?e)" using "1.prems" e d by simp
    then have IH: "flips ?e ?i ?e'"
      using "1.IH"(2) [OF long refl refl refl refl] e by simp
    then have len: "length ?e' = length ?e" "ones ?e' = ones ?e" by (simp_all add: flips_def)
    have fit': "fits ?p ?e' ?u ?t" using fit len by (simp add: fits_def)
    have eq: "flip_out xs j = join_pairs ?p ?e' ?u ?t"
      using long e by (simp add: flip_out.simps [of xs] Let_def)
    have long': "\<not> length (join_pairs ?p ?e' ?u ?t) < 2"
      using long by (simp add: join_parts_simps [OF fit'])
    have "flip_out (join_pairs ?p ?e' ?u ?t) j = xs"
      using long' e IH by (simp add: flip_out.simps [of "join_pairs ?p ?e' ?u ?t"] Let_def
          join_parts_simps [OF fit'] join_parts flips_def)
    then show ?thesis
      using e len IH by (simp add: flips_def eq join_parts_simps [OF fit'] debias_join [OF fit' p_ne] d
          ones_parts [of xs] invert_at_append2)
  qed
qed

subsection \<open>Every output of a given length is equally frequent\<close>

definition inputs_for :: "nat \<Rightarrow> nat \<Rightarrow> bool list \<Rightarrow> bool list set" where
  "inputs_for n k y = {xs. length xs = n \<and> ones xs = k \<and> debias xs = y}"

lemma bij_flip_out:
  assumes "j < length y"
  shows "bij_betw (\<lambda>xs. flip_out xs j) (inputs_for n k y) (inputs_for n k (invert_at j y))"
proof (rule bij_betw_byWitness [where f' = "\<lambda>xs. flip_out xs j"])
  show "\<forall>xs \<in> inputs_for n k y. flip_out (flip_out xs j) j = xs"
    and "\<forall>xs \<in> inputs_for n k (invert_at j y). flip_out (flip_out xs j) j = xs"
    using assms flip_out_flips [of j] by (simp_all add: inputs_for_def flips_def)
  show "(\<lambda>xs. flip_out xs j) ` inputs_for n k y \<subseteq> inputs_for n k (invert_at j y)"
    and "(\<lambda>xs. flip_out xs j) ` inputs_for n k (invert_at j y) \<subseteq> inputs_for n k y"
    using assms flip_out_flips [of j] by (auto simp: inputs_for_def flips_def)
qed

lemma invariant_under_inversion:
  assumes inv: "\<And>y j. j < length y \<Longrightarrow> f (invert_at j y) = f y" and len: "length y = length y'"
  shows "f y = f y'"
proof -
  have "f (take i y' @ drop i y) = f y" if "i \<le> length y" for i
    using that
  proof (induction i)
    case 0
    show ?case by simp
  next
    case (Suc i)
    let ?z = "take i y' @ drop i y"
    have "take (Suc i) y' @ drop (Suc i) y = ?z[i := y' ! i]"
      using Suc.prems len by (simp add: take_Suc_conv_app_nth list_update_append upd_conv_take_nth_drop
          Cons_nth_drop_Suc [symmetric])
    also have "\<dots> = (if y' ! i = ?z ! i then ?z else invert_at i ?z)"
      by (auto simp: invert_at_def)
    finally have "f (take (Suc i) y' @ drop (Suc i) y) = f ?z"
      using inv [of i ?z] Suc.prems len by auto
    with Suc show ?case by simp
  qed
  from this [of "length y"] len show ?thesis by simp
qed

lemma debias_uniform: "length y = length y' \<Longrightarrow> card (inputs_for n k y) = card (inputs_for n k y')"
  by (rule invariant_under_inversion [where f = "\<lambda>y. card (inputs_for n k y)"])
    (metis bij_betw_same_card bij_flip_out)

end
