(* ===== verification/AMLS_Theorems.thy ===== *)
theory AMLS_Theorems
  imports AMLS_Uniform
begin

text \<open>
  What the debiaser \<open>amls\<close> of the daemon does, stated over the C routine: it computes the multi-level
  strategy, it removes any bias, its result always has room left, and it needs a signed \<open>char\<close>.
\<close>

lemma filled_eq_iff:
  assumes "length xs \<le> amls_array_len" and "length ys \<le> amls_array_len"
  shows "filled xs (Some 0xFF) = filled ys (Some 0xFF) \<longleftrightarrow> xs = ys"
proof
  let ?t = "\<lambda>zs. takeWhile (\<lambda>v. v \<noteq> Some (0xFF :: u8)) (filled zs (Some 0xFF))"
  have t: "?t zs = map (Some \<circ> bitw) zs" for zs
  proof -
    have "v \<noteq> Some 0xFF" if "v \<in> set (map (Some \<circ> bitw) zs)" for v
      using that bitw_cases by fastforce
    then have "?t zs = map (Some \<circ> bitw) zs @
        takeWhile (\<lambda>v. v \<noteq> Some (0xFF :: u8)) (replicate (amls_array_len - length zs) (Some 0xFF))"
      unfolding filled_def initialised_def by (subst takeWhile_append2) (auto simp: comp_def)
    then show ?thesis by (cases "amls_array_len - length zs") simp_all
  qed
  assume "filled xs (Some 0xFF) = filled ys (Some 0xFF)"
  then have "map (Some \<circ> bitw) xs = map (Some \<circ> bitw) ys" using t by metis
  moreover have "inj (Some \<circ> bitw)" by (rule injI) (auto simp: bitw_def split: if_splits)
  ultimately show "xs = ys" by simp
qed simp

lemma amls_on_buffer:
  "length xs \<le> amls_array_len \<Longrightarrow>
    amls True (initialised xs) (length xs) = Some (filled (debias (buffer_bits xs)) (Some 0xFF))"
  using amls_bits [OF bits_at_buffer] by simp

lemma buffer_bits_bitw [simp]: "buffer_bits (map bitw bs) = bs"
  by (induction bs) (simp_all add: buffer_bits_def bitw_def)

text \<open>
  C4: on any buffer of at most 512 characters the debiaser of the daemon terminates, reads and writes
  only initialised cells inside its arrays, and returns the multi-level debiasing of the bits before
  the first character that is not a bit, followed by the fill value.
\<close>

theorem amls_debiases:
  assumes "length xs \<le> amls_array_len"
  shows "amls True (initialised xs) (length xs) = Some (filled (debias (buffer_bits xs)) (Some 0xFF))"
  using assms by (rule amls_on_buffer)

theorem amls_debiases_witness:
  "amls True (initialised [0, 1, 1, 1, 0, 0, 1, 0]) 8 = Some (filled [False, True, True, False, True] (Some 0xFF))"
proof -
  have "length [0, 1, 1, 1, 0, 0, 1, 0 :: u8] \<le> amls_array_len" by (simp add: amls_array_len_def)
  from amls_debiases [OF this] show ?thesis
    by (simp add: buffer_bits_def debias.simps numeral_eq_Suc)
qed

text \<open>
  C5: the debiaser removes bias. Among the inputs with a given length and a given number of ones
  (which a source of independent bits with a constant bias makes equally likely), every two results
  of the same length are produced by equally many inputs.
\<close>

theorem amls_unbiased:
  assumes "n \<le> amls_array_len" and "length y = length y'"
  shows "card {bs. length bs = n \<and> ones bs = k \<and>
      amls True (initialised (map bitw bs)) n = Some (filled y (Some 0xFF))} =
    card {bs. length bs = n \<and> ones bs = k \<and>
      amls True (initialised (map bitw bs)) n = Some (filled y' (Some 0xFF))}"
proof (cases "length y \<le> amls_array_len")
  case True
  have "{bs. length bs = n \<and> ones bs = k \<and> amls True (initialised (map bitw bs)) n = Some (filled z (Some 0xFF))} =
      inputs_for n k z" if "length z = length y" for z
  proof -
    have "amls True (initialised (map bitw bs)) n = Some (filled z (Some 0xFF)) \<longleftrightarrow> debias bs = z"
      if "length bs = n" for bs
    proof -
      have "length (debias bs) \<le> amls_array_len"
        using length_debias_le [of bs] that assms(1) by simp
      with amls_on_buffer [of "map bitw bs"] \<open>length bs = n\<close> \<open>length z = length y\<close> True assms(1)
      show ?thesis by (simp add: filled_eq_iff)
    qed
    then show ?thesis by (auto simp: inputs_for_def)
  qed
  with debias_uniform [OF assms(2), of n k] assms(2) show ?thesis by simp
next
  case False
  have "amls True (initialised (map bitw bs)) n \<noteq> Some (filled z (Some 0xFF))"
    if "length bs = n" "length z = length y" for bs z
  proof -
    have "length (debias bs) \<le> amls_array_len"
      using length_debias_le [of bs] that assms(1) by simp
    then have "length (filled (debias bs) (Some 0xFF)) \<noteq> length (filled z (Some (0xFF :: u8)))"
      using that(2) False by (simp add: filled_def)
    with amls_on_buffer [of "map bitw bs"] that(1) assms(1) show ?thesis by auto
  qed
  then have "{bs. length bs = n \<and> ones bs = k \<and>
      amls True (initialised (map bitw bs)) n = Some (filled z (Some 0xFF))} = {}" if "length z = length y" for z
    using that by blast
  then show ?thesis using assms(2) by (simp only:)
qed

theorem amls_unbiased_witness:
  "card {bs. length bs = 6 \<and> ones bs = 3 \<and>
      amls True (initialised (map bitw bs)) 6 = Some (filled [True, False] (Some 0xFF))} =
   card {bs. length bs = 6 \<and> ones bs = 3 \<and>
      amls True (initialised (map bitw bs)) 6 = Some (filled [False, False] (Some 0xFF))}"
  using amls_unbiased [of 6 "[True, False]" "[False, False]" 3] by (simp add: amls_array_len_def)

text \<open>
  C16: the result is shorter than the input, so the last cell of the 512 always holds the fill value:
  the caller's scan of the result, and the scans of the two recursive results, meet a terminator.
\<close>

theorem amls_terminated:
  assumes "0 < length xs" and "length xs \<le> amls_array_len"
  shows "\<exists>r. amls True (initialised xs) (length xs) = Some r \<and> length r = amls_array_len \<and>
    (\<forall>k. length xs - 1 \<le> k \<and> k < amls_array_len \<longrightarrow> rd r k = Some 0xFF)"
proof -
  let ?y = "debias (buffer_bits xs)"
  have "length (buffer_bits xs) \<le> length xs"
    by (simp add: buffer_bits_def length_takeWhile_le)
  then have "length ?y \<le> length xs - 1"
    using length_debias_less [of "buffer_bits xs"] assms(1) by (cases "buffer_bits xs = []") auto
  then show ?thesis
    using amls_on_buffer [OF assms(2)] assms by (auto simp: filled_def rd_def nth_append)
qed

theorem amls_terminated_witness:
  "\<exists>r. amls True (initialised [1, 0]) 2 = Some r \<and> length r = amls_array_len \<and>
    (\<forall>k. 1 \<le> k \<and> k < amls_array_len \<longrightarrow> rd r k = Some 0xFF)"
  using amls_terminated [of "[1, 0]"] by (simp add: amls_array_len_def numeral_2_eq_2)

text \<open>
  C17: where \<open>char\<close> is unsigned the comparison with -1 never succeeds, and the debiaser never returns
  on two or more bits.
\<close>

theorem amls_unsigned_diverges:
  assumes "2 \<le> length bs" and "length bs \<le> amls_array_len"
  shows "amls False (initialised (map bitw bs)) (length bs) = None"
proof (rule ccontr)
  assume "amls False (initialised (map bitw bs)) (length bs) \<noteq> None"
  then obtain r where "amls False (initialised (map bitw bs)) (length bs) = Some r" by blast
  moreover have "\<forall>k < length bs. \<exists>b. rd (initialised (map bitw bs)) k = Some (bitw b)"
    by (auto simp: rd_initialised)
  ultimately show False using assms amls_unsigned_no_result by blast
qed

theorem amls_unsigned_diverges_witness: "amls False (initialised [1, 0]) 2 = None"
  using amls_unsigned_diverges [of "[True, False]"] by (simp add: amls_array_len_def numeral_2_eq_2)

end
