(* ===== verification/Daemon_OS.thy ===== *)
theory Daemon_OS
  imports AMLS
begin

text \<open>
  The surroundings of the daemon \<open>software/k7nvh_rng.c\<close>: the kernel and C library calls it makes,
  as a record of functions on an arbitrary world \<open>'w\<close> (they are not part of the sources, so every
  definition takes them as an argument), the daemon's global variables, and the small calculus its
  code is written in. A computation of the daemon returns \<open>None\<close> when the C program has undefined
  behaviour or never returns, \<open>Exits c\<close> when the process has exited with code \<open>c\<close>, and
  \<open>Returns x\<close> otherwise.
\<close>

subsection \<open>Build options\<close>

datatype platform = Linux | Apple

record build =
  file_output :: bool
  platform :: platform
  signed_char :: bool

subsection \<open>Kernel and library calls\<close>

datatype open_flag = O_RDONLY | O_RDWR | O_CREAT | O_APPEND | O_NONBLOCK | O_NOCTTY

datatype dtr_request = TIOCSDTR | TIOCCDTR | TIOCMBIC_DTR | TIOCMBIS_DTR

datatype signum = SIGALRM | SIGHUP | SIGINT | SIGTERM | OtherSignal int

text \<open>The terminal flags of \<open>termios.h\<close> the daemon names; their values differ between systems.\<close>

record tty_bits =
  CSIZE :: u32
  CS8 :: u32
  IGNBRK :: u32
  IXON :: u32
  IXOFF :: u32
  IXANY :: u32
  CLOCAL :: u32
  CREAD :: u32
  PARENB :: u32
  PARODD :: u32
  CSTOPB :: u32
  CRTSCTS :: u32

definition linux_tty_bits :: tty_bits where
  "linux_tty_bits =
     \<lparr>CSIZE = 0x30, CS8 = 0x30, IGNBRK = 1, IXON = 0x400, IXOFF = 0x1000, IXANY = 0x800,
      CLOCAL = 0x800, CREAD = 0x80, PARENB = 0x100, PARODD = 0x200, CSTOPB = 0x40,
      CRTSCTS = 0x80000000\<rparr>"

record termios =
  c_cflag :: u32
  c_iflag :: u32
  c_lflag :: u32
  c_oflag :: u32

record 'w os =
  sys_open :: "string \<Rightarrow> open_flag set \<Rightarrow> nat \<Rightarrow> 'w \<Rightarrow> int \<times> 'w"
  sys_close :: "int \<Rightarrow> 'w \<Rightarrow> 'w"
  sys_read :: "int \<Rightarrow> nat \<Rightarrow> 'w \<Rightarrow> (int \<times> u8 list) \<times> 'w"
  sys_write :: "int \<Rightarrow> u8 list \<Rightarrow> 'w \<Rightarrow> int \<times> 'w"
  sys_fionread :: "int \<Rightarrow> 'w \<Rightarrow> int option \<times> 'w"
  sys_tty_bits :: tty_bits
  sys_tcgetattr :: "int \<Rightarrow> 'w \<Rightarrow> (int \<times> termios) \<times> 'w"
  sys_tcsetattr :: "int \<Rightarrow> termios \<Rightarrow> 'w \<Rightarrow> int \<times> 'w"
  sys_dtr :: "int \<Rightarrow> dtr_request \<Rightarrow> 'w \<Rightarrow> int \<times> 'w"
  sys_rndaddentropy :: "int \<Rightarrow> int \<times> int \<times> u8 \<Rightarrow> 'w \<Rightarrow> int \<times> 'w"
  sys_rndgetentcnt :: "int \<Rightarrow> 'w \<Rightarrow> (int \<times> int) \<times> 'w"
  sys_fork :: "'w \<Rightarrow> int \<times> 'w"
  sys_umask :: "nat \<Rightarrow> 'w \<Rightarrow> 'w"
  sys_setsid :: "'w \<Rightarrow> int \<times> 'w"
  sys_chdir :: "string \<Rightarrow> 'w \<Rightarrow> int \<times> 'w"
  sys_lockf :: "int \<Rightarrow> 'w \<Rightarrow> int \<times> 'w"
  sys_signal :: "signum \<Rightarrow> 'w \<Rightarrow> 'w"
  sys_alarm :: "int \<Rightarrow> 'w \<Rightarrow> 'w"
  sys_usleep :: "nat \<Rightarrow> 'w \<Rightarrow> 'w"
  sys_printf :: "string \<Rightarrow> 'w \<Rightarrow> 'w"
  sys_getpid :: "'w \<Rightarrow> int"
  sys_errno :: "'w \<Rightarrow> int"
  sys_strerror :: "int \<Rightarrow> string"
  sys_strsignal :: "signum \<Rightarrow> string"
  sys_timestr :: "'w \<Rightarrow> string \<times> 'w"
  sys_ratio :: "int \<Rightarrow> int \<Rightarrow> string"
  sys_entropy :: "int \<Rightarrow> int \<Rightarrow> string"

text \<open>
  \<open>sys_timestr\<close> is \<open>time\<close>, \<open>localtime\<close> and \<open>strftime\<close> together; \<open>sys_ratio a b\<close> is the text
  \<open>%f\<close> gives for the float \<open>a / b\<close>, and \<open>sys_entropy z o\<close> the text it gives for the estimate of
  Shannon's entropy of \<open>z\<close> zeros and \<open>o\<close> ones.
\<close>

subsection \<open>Global variables\<close>

record daemon =
  pidFileHandle :: int
  logFileHandle :: int
  outFileHandle :: int
  rndFileHandle :: int
  logmessage :: string
  buf :: "u8 list"
  buf_pos :: nat
  num_bytes :: int
  buf_whitened :: "u8 list"
  buf_whitened_pos :: nat
  buf_whitened_bit :: nat
  ent_est_interval :: int
  test_ent :: int
  num_ones :: int
  num_zeros :: int
  ent_count :: int
  entFileHandles :: "int list"
  deviceCounters :: "(u64 \<times> u64) list"

text \<open>
  The sizes \<open>sizeof(buf) / sizeof(buf[0])\<close> and \<open>sizeof(buf_whitened) / sizeof(buf_whitened[0])\<close>,
  and the 128 characters of one read.
\<close>

definition buf_size :: nat where
  "buf_size = 512"

definition whitened_size :: nat where
  "whitened_size = 1024"

definition read_size :: nat where
  "read_size = 128"

text \<open>The values the C initialisers give; the two arrays of \<open>main\<close> have one slot per device.\<close>

definition daemon_init :: daemon where
  "daemon_init =
     \<lparr>pidFileHandle = 0, logFileHandle = 0, outFileHandle = 0, rndFileHandle = 0, logmessage = [],
      buf = replicate buf_size 0, buf_pos = 0, num_bytes = 0,
      buf_whitened = replicate whitened_size 0, buf_whitened_pos = 0, buf_whitened_bit = 0,
      ent_est_interval = 60, test_ent = 0, num_ones = 0, num_zeros = 0, ent_count = 0,
      entFileHandles = [], deviceCounters = []\<rparr>"

subsection \<open>Computations\<close>

datatype 'a outcome = Returns 'a | Exits int

type_synonym ('w, 'a) dcomp = "daemon \<times> 'w \<Rightarrow> ('a outcome \<times> daemon \<times> 'w) option"

definition dret :: "'a \<Rightarrow> ('w, 'a) dcomp" where
  "dret x s = Some (Returns x, s)"

definition dbind :: "('w, 'a) dcomp \<Rightarrow> ('a \<Rightarrow> ('w, 'b) dcomp) \<Rightarrow> ('w, 'b) dcomp" where
  "dbind m f s =
     m s \<bind> (\<lambda>(r, s'). case r of Returns x \<Rightarrow> f x s' | Exits c \<Rightarrow> Some (Exits c, s'))"

definition dseq :: "('w, unit) dcomp \<Rightarrow> ('w, 'b) dcomp \<Rightarrow> ('w, 'b) dcomp" where
  "dseq m n = dbind m (\<lambda>_. n)"

definition dmod :: "(daemon \<Rightarrow> daemon) \<Rightarrow> ('w, unit) dcomp" where
  "dmod f = (\<lambda>(d, w). Some (Returns (), f d, w))"

definition dget :: "(daemon \<Rightarrow> 'a) \<Rightarrow> ('w, 'a) dcomp" where
  "dget f = (\<lambda>(d, w). Some (Returns (f d), d, w))"

definition dsys :: "('w \<Rightarrow> 'a \<times> 'w) \<Rightarrow> ('w, 'a) dcomp" where
  "dsys f = (\<lambda>(d, w). case f w of (x, w') \<Rightarrow> Some (Returns x, d, w'))"

definition ddo :: "('w \<Rightarrow> 'w) \<Rightarrow> ('w, unit) dcomp" where
  "ddo f = (\<lambda>(d, w). Some (Returns (), d, f w))"

definition dask :: "('w \<Rightarrow> 'a) \<Rightarrow> ('w, 'a) dcomp" where
  "dask f = (\<lambda>(d, w). Some (Returns (f w), d, w))"

definition dassert :: "bool \<Rightarrow> ('w, unit) dcomp" where
  "dassert b = (\<lambda>s. if b then Some (Returns (), s) else None)"

definition dopt :: "'a option \<Rightarrow> ('w, 'a) dcomp" where
  "dopt x = (\<lambda>s. x \<bind> (\<lambda>v. Some (Returns v, s)))"

definition dwhen :: "bool \<Rightarrow> ('w, unit) dcomp \<Rightarrow> ('w, unit) dcomp" where
  "dwhen b m = (if b then m else dret ())"

lemma dbind_mono [partial_function_mono]:
  fixes s :: "daemon \<times> 'w" and m :: "('x \<Rightarrow> 'y option) \<Rightarrow> ('w, 'a) dcomp"
  assumes "mono_option (\<lambda>f. m f s)" and "\<And>x s'. mono_option (\<lambda>f. g f x s')"
  shows "mono_option (\<lambda>f. dbind (m f) (\<lambda>x. g f x) s)"
  unfolding dbind_def
proof (rule bind_mono [OF assms(1)])
  fix y :: "'a outcome \<times> daemon \<times> 'w"
  show "mono_option (\<lambda>f. case y of (r, s') \<Rightarrow>
      (case r of Returns x \<Rightarrow> g f x s' | Exits c \<Rightarrow> Some (Exits c, s')))"
    by (cases y; cases "fst y") (simp_all add: assms(2) option.const_mono)
qed

lemma if_applied_mono [partial_function_mono]:
  assumes "mono_option (\<lambda>f. m f s)" and "mono_option (\<lambda>f. n f s)"
  shows "mono_option (\<lambda>f. (if c then m f else n f) s)"
  using assms by (cases c) simp_all

lemmas dcomp_defs =
  dret_def dbind_def dseq_def dmod_def dget_def dsys_def ddo_def dask_def dassert_def dopt_def dwhen_def

subsection \<open>Text\<close>

definition string_bytes :: "string \<Rightarrow> u8 list" where
  "string_bytes s = map (\<lambda>c. of_nat (of_char c)) s"

fun dec_nat :: "nat \<Rightarrow> string" where
  "dec_nat n = (if n < 10 then [char_of (48 + n)] else dec_nat (n div 10) @ [char_of (48 + n mod 10)])"

declare dec_nat.simps [simp del]

definition dec :: "int \<Rightarrow> string" where
  "dec i = (if i < 0 then ''-'' @ dec_nat (nat (- i)) else dec_nat (nat i))"

definition quoted :: "string \<Rightarrow> string" where
  "quoted s = [char_of (39::nat)] @ s @ [char_of (39::nat)]"

definition crlf :: string where
  "crlf = [char_of (13::nat), char_of (10::nat)]"

end
