(* ===== verification/Daemon.thy ===== *)
theory Daemon
  imports Daemon_OS
begin

text \<open>
  The entropy gathering daemon \<open>software/k7nvh_rng.c\<close>, function by function: logging, signal
  handling, start-up, the periodic statistics, reading a block of 128 characters from a device,
  and the whitening of a full buffer. Every early exit of the source is an exit of the model.
\<close>

subsection \<open>Leaving and logging\<close>

definition close_if_open :: "'w os \<Rightarrow> int \<Rightarrow> ('w, unit) dcomp" where
  "close_if_open os h = dwhen (h > 0) (ddo (sys_close os h))"

definition exit_cleanup :: "build \<Rightarrow> 'w os \<Rightarrow> int \<Rightarrow> ('w, 'a) dcomp" where
  "exit_cleanup bld os v =
     dbind (dget pidFileHandle) (\<lambda>p. dseq (close_if_open os p)
    (dbind (dget logFileHandle) (\<lambda>l. dseq (close_if_open os l)
    (dbind (dget (if file_output bld then outFileHandle else rndFileHandle)) (\<lambda>f.
     dseq (close_if_open os f)
     (\<lambda>s. Some (Exits v, s)))))))"

text \<open>\<open>sprintf\<close> into the array \<open>logmessage[1000]\<close>; a longer text overruns it.\<close>

definition set_logmessage :: "string \<Rightarrow> ('w, unit) dcomp" where
  "set_logmessage msg = dseq (dassert (length msg < 1000)) (dmod (\<lambda>d. d\<lparr>logmessage := msg\<rparr>))"

definition errno_text :: "'w os \<Rightarrow> string \<Rightarrow> 'w \<Rightarrow> string" where
  "errno_text os msg w = msg @ '' Error '' @ dec (sys_errno os w) @ '': '' @ sys_strerror os (sys_errno os w)"

definition logentry :: "'w os \<Rightarrow> string \<Rightarrow> string \<Rightarrow> 'w \<Rightarrow> string" where
  "logentry os timestr msg w =
     timestr @ '' K7NVH_RNG['' @ dec (sys_getpid os w) @ '']: '' @ msg @ crlf"

partial_function (option) log_message ::
  "build \<Rightarrow> 'w os \<Rightarrow> string \<Rightarrow> daemon \<times> 'w \<Rightarrow> (unit outcome \<times> daemon \<times> 'w) option" where
  "log_message bld os msg s =
     dbind (dsys (sys_timestr os)) (\<lambda>timestr.
     dbind (dask (logentry os timestr msg)) (\<lambda>entry.
     dbind (dassert (length entry < 1024)) (\<lambda>_.
     dbind (dget logFileHandle) (\<lambda>h.
     dbind (dsys (sys_write os h (string_bytes entry))) (\<lambda>m.
       if m < 0 then
         dbind (dask (errno_text os ''<ERROR> Error writing to log file.'')) (\<lambda>text.
         dbind (set_logmessage text) (\<lambda>_.
         dbind (log_message bld os text) (\<lambda>_.
         exit_cleanup bld os (-12))))
       else dret ()))))) s"

text \<open>The recurring sequence \<open>sprintf(logmessage, ...); log_message(logmessage);\<close>.\<close>

definition log_formatted :: "build \<Rightarrow> 'w os \<Rightarrow> string \<Rightarrow> ('w, unit) dcomp" where
  "log_formatted bld os msg = dseq (set_logmessage msg) (log_message bld os msg)"

text \<open>The recurring error exit: format the message with \<open>errno\<close>, log it, leave with the code.\<close>

definition fail_errno :: "build \<Rightarrow> 'w os \<Rightarrow> string \<Rightarrow> int \<Rightarrow> ('w, 'a) dcomp" where
  "fail_errno bld os msg code =
     dbind (dask (errno_text os msg)) (\<lambda>text.
     dseq (log_formatted bld os text) (exit_cleanup bld os code))"

definition signal_handler :: "build \<Rightarrow> 'w os \<Rightarrow> signum \<Rightarrow> ('w, unit) dcomp" where
  "signal_handler bld os sig =
     dseq (ddo (sys_signal os sig))
     (case sig of
        SIGALRM \<Rightarrow> dmod (\<lambda>d. d\<lparr>test_ent := 1\<rparr>)
      | SIGHUP \<Rightarrow> log_message bld os ''<NOTICE> Received SIGHUP signal.''
      | SIGINT \<Rightarrow> dseq (log_message bld os ''<NOTICE> Received SIGTERM. Exiting.'') (exit_cleanup bld os 0)
      | SIGTERM \<Rightarrow> dseq (log_message bld os ''<NOTICE> Received SIGTERM. Exiting.'') (exit_cleanup bld os 0)
      | OtherSignal n \<Rightarrow> log_formatted bld os (''<WARNING> Unhandled signal '' @ sys_strsignal os sig))"

subsection \<open>Start-up\<close>

definition tty_settings :: "tty_bits \<Rightarrow> termios \<Rightarrow> termios" where
  "tty_settings c tty =
     (let tty = tty\<lparr>c_cflag := (c_cflag tty AND NOT (CSIZE c)) OR CS8 c\<rparr>;
          tty = tty\<lparr>c_iflag := c_iflag tty AND NOT (IGNBRK c)\<rparr>;
          tty = tty\<lparr>c_lflag := 0\<rparr>;
          tty = tty\<lparr>c_oflag := 0\<rparr>;
          tty = tty\<lparr>c_iflag := c_iflag tty AND NOT (IXON c OR IXOFF c OR IXANY c)\<rparr>;
          tty = tty\<lparr>c_cflag := c_cflag tty OR (CLOCAL c OR CREAD c)\<rparr>;
          tty = tty\<lparr>c_cflag := c_cflag tty AND NOT (PARENB c OR PARODD c)\<rparr>;
          tty = tty\<lparr>c_cflag := c_cflag tty AND NOT (CSTOPB c)\<rparr>;
          tty = tty\<lparr>c_cflag := c_cflag tty AND NOT (CRTSCTS c)\<rparr>
      in tty)"

text \<open>The two DTR requests in the order the source issues them on each platform.\<close>

definition dtr_pulse :: "platform \<Rightarrow> dtr_request \<times> dtr_request" where
  "dtr_pulse p = (case p of Apple \<Rightarrow> (TIOCSDTR, TIOCCDTR) | Linux \<Rightarrow> (TIOCMBIC_DTR, TIOCMBIS_DTR))"

definition open_device :: "build \<Rightarrow> 'w os \<Rightarrow> string \<Rightarrow> ('w, unit) dcomp" where
  "open_device bld os path =
     dseq (dmod (\<lambda>d. d\<lparr>deviceCounters := deviceCounters d @ [(0, 0)]\<rparr>))
    (dbind (dsys (sys_open os path {O_RDONLY, O_NONBLOCK, O_NOCTTY} 0)) (\<lambda>h.
     dseq (dmod (\<lambda>d. d\<lparr>entFileHandles := entFileHandles d @ [h]\<rparr>))
    (dseq (dwhen (h < 0)
       (fail_errno bld os (''<ERROR> Could not open the tty device, '' @ path @ ''.'') (-8)))
    (dbind (dsys (sys_tcgetattr os h)) (\<lambda>(r, tty).
     dseq (dwhen (r \<noteq> 0)
       (fail_errno bld os ''<ERROR> Could not get the tty device attributes.'' (-13)))
    (dbind (dsys (sys_tcsetattr os h (tty_settings (sys_tty_bits os) tty))) (\<lambda>r.
     dseq (dwhen (r \<noteq> 0)
       (fail_errno bld os ''<ERROR> Could not set the tty device attributes.'' (-14)))
    (dbind (dsys (sys_dtr os h (fst (dtr_pulse (platform bld))))) (\<lambda>r.
     dseq (dwhen (r \<noteq> 0) (fail_errno bld os ''<ERROR> Could not assert DTR.'' (-16)))
    (dbind (dsys (sys_dtr os h (snd (dtr_pulse (platform bld))))) (\<lambda>r.
     dwhen (r \<noteq> 0) (fail_errno bld os ''<ERROR> Could not clear DTR.'' (-17)))))))))))))"

primrec open_devices :: "build \<Rightarrow> 'w os \<Rightarrow> string list \<Rightarrow> ('w, unit) dcomp" where
  "open_devices bld os [] = dret ()"
| "open_devices bld os (path # paths) = dseq (open_device bld os path) (open_devices bld os paths)"

definition open_output :: "build \<Rightarrow> 'w os \<Rightarrow> ('w, unit) dcomp" where
  "open_output bld os =
     (if file_output bld then
        dseq (log_formatted bld os ''<INFO> Saving generated entropy to /tmp/k7nvh_rng_out in lieu of kernel pool.'')
       (dbind (dsys (sys_open os ''/tmp/k7nvh_rng_out'' {O_RDWR, O_CREAT, O_APPEND} 0x1A4)) (\<lambda>h.
        dseq (dmod (\<lambda>d. d\<lparr>outFileHandle := h\<rparr>))
        (dwhen (h < 0) (fail_errno bld os ''<ERROR> Could not open output file.'' (-11)))))
      else
        dseq (log_message bld os ''<INFO> File output disabled. Saving generated entropy to kernel pool.'')
       (dbind (dsys (sys_open os ''/dev/random'' {O_RDWR} 0)) (\<lambda>h.
        dseq (dmod (\<lambda>d. d\<lparr>rndFileHandle := h\<rparr>))
        (dwhen (h < 0) (fail_errno bld os ''<ERROR> Could not open the /dev/random device.'' (-18))))))"

text \<open>\<open>main\<close> up to the PID file: fork, log file, session, directory, lock, PID.\<close>

definition daemonize :: "build \<Rightarrow> 'w os \<Rightarrow> ('w, unit) dcomp" where
  "daemonize bld os =
     dbind (dsys (sys_fork os)) (\<lambda>pid.
     dseq (dwhen (pid < 0) (exit_cleanup bld os (-2)))
    (dseq (dwhen (pid > 0) (exit_cleanup bld os 0))
    (dseq (ddo (sys_umask os 0))
    (dbind (dsys (sys_open os ''/var/log/k7nvh_rng.log'' {O_RDWR, O_CREAT, O_APPEND} 0x1A4)) (\<lambda>l.
     dseq (dmod (\<lambda>d. d\<lparr>logFileHandle := l\<rparr>))
    (dseq (dwhen (l < 0)
       (dseq (dbind (dask (\<lambda>w. sys_strerror os (sys_errno os w))) (\<lambda>e.
          ddo (sys_printf os (''<ERROR> Could not open log file. '' @ e @ crlf))))
        (exit_cleanup bld os (-1))))
    (dseq (log_message bld os ''<INFO> Starting entropy gathering daemon...'')
    (dbind (dsys (sys_setsid os)) (\<lambda>sid.
     dseq (dwhen (sid < 0)
       (dseq (log_message bld os ''<ERROR> Could not get new SID.'') (exit_cleanup bld os (-3))))
    (dbind (dsys (sys_chdir os ''/'')) (\<lambda>c.
     dseq (dwhen (c < 0)
       (dseq (log_message bld os ''<ERROR> Could not change working directory.'') (exit_cleanup bld os (-4))))
    (dbind (dsys (sys_open os ''/tmp/k7nvh_rng.pid'' {O_RDWR, O_CREAT} 0x180)) (\<lambda>p.
     dseq (dmod (\<lambda>d. d\<lparr>pidFileHandle := p\<rparr>))
    (dseq (dwhen (p < 0)
       (dseq (log_message bld os ''<ERROR> PID file exists or could not be created.'') (exit_cleanup bld os (-5))))
    (dbind (dsys (sys_lockf os p)) (\<lambda>k.
     dseq (dwhen (k < 0)
       (dseq (log_message bld os ''<ERROR> PID file could not be locked.'') (exit_cleanup bld os (-6))))
    (dbind (dask (\<lambda>w. dec (sys_getpid os w) @ [char_of (10::nat)])) (\<lambda>str.
     dseq (dassert (length str < 10))
    (dbind (dsys (sys_write os p (string_bytes str))) (\<lambda>w.
     dwhen (w < 0) (fail_errno bld os ''<ERROR> Error writing to PID file.'' (-13))))))))))))))))))))))"

definition startup :: "build \<Rightarrow> 'w os \<Rightarrow> string list \<Rightarrow> ('w, unit) dcomp" where
  "startup bld os argv =
     dseq (dwhen (length argv < 2)
       (dseq (ddo (sys_printf os
          (''Please provide the tty device(s) as the argument(s). EX: '' @ argv ! 0 @ '' /dev/tty.usbSerial0'' @ crlf)))
        (exit_cleanup bld os (-7))))
    (dseq (daemonize bld os)
    (dseq (ddo (sys_close os 0)) (dseq (ddo (sys_close os 1)) (dseq (ddo (sys_close os 2))
    (dseq (ddo (sys_signal os SIGALRM)) (dseq (ddo (sys_signal os SIGHUP))
    (dseq (ddo (sys_signal os SIGINT)) (dseq (ddo (sys_signal os SIGTERM))
    (dseq (open_devices bld os (tl argv))
    (dseq (open_output bld os)
    (dbind (dget ent_est_interval) (\<lambda>t.
     dseq (ddo (sys_alarm os t))
    (dseq (log_formatted bld os (''<INFO> Next estimation of entropy in '' @ dec t @ '' seconds.''))
     (log_message bld os ''<INFO> Entropy gathering daemon started.''))))))))))))))"

subsection \<open>Statistics\<close>

primrec device_stats :: "build \<Rightarrow> 'w os \<Rightarrow> string list \<Rightarrow> nat list \<Rightarrow> ('w, unit) dcomp" where
  "device_stats bld os argv [] = dret ()"
| "device_stats bld os argv (i # is) =
     dbind (dget deviceCounters) (\<lambda>cs.
     dseq (dassert (i < length cs))
    (case cs ! i of (c0, c1) \<Rightarrow>
     dseq (log_formatted bld os (''<INFO> '' @ argv ! (i + 1) @ '': '' @ dec (uint (c0 + c1)) @
        '' bits. Biased average: '' @ sys_ratio os (uint c1) (uint (c1 + c0)) @ ''.''))
    (dseq (dmod (\<lambda>d. d\<lparr>deviceCounters := (deviceCounters d)[i := (0, 0)]\<rparr>))
     (device_stats bld os argv is))))"

definition pool_stats :: "build \<Rightarrow> 'w os \<Rightarrow> ('w, unit) dcomp" where
  "pool_stats bld os =
     dwhen (platform bld = Linux \<and> \<not> file_output bld)
       (dbind (dget rndFileHandle) (\<lambda>h.
        dbind (dsys (sys_rndgetentcnt os h)) (\<lambda>(r, rndcount).
        dseq (dwhen (r < 0) (fail_errno bld os ''Could not read the entropy count.'' (-20)))
        (log_formatted bld os (''<INFO> Linux kernel entropy pool has '' @ dec rndcount @
           '' bits of entropy available.'')))))"

definition entropy_stats :: "build \<Rightarrow> 'w os \<Rightarrow> string list \<Rightarrow> ('w, unit) dcomp" where
  "entropy_stats bld os argv =
     dbind (dget (\<lambda>d. d)) (\<lambda>d.
     dseq (log_formatted bld os (''<INFO> '' @ dec (num_zeros d + num_ones d) @ '' debiased bits, Average: '' @
        sys_ratio os (num_ones d) (num_ones d + num_zeros d) @ ''. Est. Entropy: '' @
        sys_entropy os (num_zeros d) (num_ones d) @ '' bits/bit. '' @ dec (ent_count d) @
        '' bytes generated in last '' @ dec (ent_est_interval d) @ '' seconds.''))
    (dseq (device_stats bld os argv [0..<length argv - 1])
    (dseq (pool_stats bld os)
    (dseq (ddo (sys_alarm os (ent_est_interval d)))
     (dmod (\<lambda>d. d\<lparr>test_ent := 0, ent_count := 0, num_zeros := 0, num_ones := 0\<rparr>))))))"

subsection \<open>Whitening a full buffer\<close>

text \<open>One byte to the output file, to \<open>/dev/random\<close> or into the pool by \<open>RNDADDENTROPY\<close>.\<close>

definition output_byte :: "build \<Rightarrow> 'w os \<Rightarrow> u8 \<Rightarrow> ('w, unit) dcomp" where
  "output_byte bld os v =
     (if file_output bld then
        dbind (dget outFileHandle) (\<lambda>h.
        dbind (dsys (sys_write os h [v])) (\<lambda>m.
        dwhen (m < 0) (fail_errno bld os ''<ERROR> Error writing to output file.'' (-15))))
      else case platform bld of
        Apple \<Rightarrow>
          dbind (dget rndFileHandle) (\<lambda>h.
          dbind (dsys (sys_write os h [v])) (\<lambda>m.
          dwhen (m < 0) (fail_errno bld os ''Error writing to /dev/random device.'' (-21))))
      | Linux \<Rightarrow>
          dbind (dget rndFileHandle) (\<lambda>h.
          dbind (dsys (sys_rndaddentropy os h (8, 1, v))) (\<lambda>m.
          dwhen (m < 0) (fail_errno bld os ''<ERROR> Could not add entropy to the pool.'' (-19)))))"

primrec mix_output :: "build \<Rightarrow> 'w os \<Rightarrow> nat list \<Rightarrow> ('w, unit) dcomp" where
  "mix_output bld os [] = dret ()"
| "mix_output bld os (l # ls) =
     dbind (dget buf_whitened) (\<lambda>bw.
     dseq (dassert (l + whitened_size div 2 < length bw))
    (dseq (dmod (\<lambda>d. d\<lparr>ent_count := ent_count d + 1\<rparr>))
    (dseq (output_byte bld os (bw ! l XOR bw ! (l + whitened_size div 2)))
     (mix_output bld os ls))))"

text \<open>One bit of the debiased block: count it, pack it, and mix out the buffer when it is full.\<close>

definition count_bit :: "u8 \<Rightarrow> daemon \<Rightarrow> daemon" where
  "count_bit v d = (if v = 0 then d\<lparr>num_zeros := num_zeros d + 1\<rparr> else d\<lparr>num_ones := num_ones d + 1\<rparr>)"

definition pack_bit :: "u8 \<Rightarrow> daemon \<Rightarrow> daemon" where
  "pack_bit v d =
     (let p = buf_whitened_pos d; b = buf_whitened_bit d;
          d = d\<lparr>buf_whitened := (buf_whitened d)[p := buf_whitened d ! p OR push_bit b v],
                buf_whitened_bit := b + 1\<rparr>
      in if buf_whitened_bit d > 7 then d\<lparr>buf_whitened_bit := 0, buf_whitened_pos := p + 1\<rparr> else d)"

definition flush_if_full :: "build \<Rightarrow> 'w os \<Rightarrow> ('w, unit) dcomp" where
  "flush_if_full bld os =
     dbind (dget buf_whitened_pos) (\<lambda>p.
     dwhen (p \<ge> whitened_size)
       (dseq (mix_output bld os [0..<whitened_size div 2])
        (dmod (\<lambda>d. d\<lparr>buf_whitened_pos := 0, buf_whitened := replicate whitened_size 0\<rparr>))))"

primrec whiten_bits :: "build \<Rightarrow> 'w os \<Rightarrow> u8 carray \<Rightarrow> nat list \<Rightarrow> ('w, unit) dcomp" where
  "whiten_bits bld os amls_result [] = dret ()"
| "whiten_bits bld os amls_result (k # ks) =
     dbind (dopt (rd amls_result k)) (\<lambda>v.
     if char_int (signed_char bld) v \<noteq> 0 \<and> char_int (signed_char bld) v \<noteq> 1 then dret ()
     else
       dseq (dmod (count_bit v))
      (dbind (dget (\<lambda>d. buf_whitened_pos d < length (buf_whitened d))) (\<lambda>ok.
       dseq (dassert ok)
      (dseq (dmod (pack_bit v))
      (dseq (flush_if_full bld os)
       (whiten_bits bld os amls_result ks))))))"

definition process_block :: "build \<Rightarrow> 'w os \<Rightarrow> ('w, unit) dcomp" where
  "process_block bld os =
     dbind (dget buf) (\<lambda>b.
     dbind (dopt (amls (signed_char bld) (initialised b) buf_size)) (\<lambda>amls_result.
     dseq (whiten_bits bld os amls_result [0..<buf_size])
     (dmod (\<lambda>d. d\<lparr>buf_pos := 0\<rparr>))))"

subsection \<open>Reading a device\<close>

text \<open>Count and convert \<open>buf[buf_pos + j]\<close> for the indices \<open>js\<close>.\<close>

primrec convert_bytes :: "build \<Rightarrow> 'w os \<Rightarrow> string list \<Rightarrow> nat \<Rightarrow> nat list \<Rightarrow> ('w, unit) dcomp" where
  "convert_bytes bld os argv i [] = dret ()"
| "convert_bytes bld os argv i (j # js) =
     dbind (dget (\<lambda>d. d)) (\<lambda>d.
     let p = buf_pos d + j in
     dseq (dassert (p < length (buf d) \<and> i < length (deviceCounters d)))
    (let c = buf d ! p in
     dseq (dwhen (c \<noteq> 48 \<and> c \<noteq> 49)
       (dseq (log_formatted bld os (''<ERROR> Invalid input data from '' @ argv ! (i + 1) @
           ''. Expect '' @ quoted ''0'' @ '' and '' @ quoted ''1'' @ '' only. Recieved: '' @ dec (char_int (signed_char bld) c)))
        (exit_cleanup bld os (-11))))
    (dseq (dmod (\<lambda>d. case deviceCounters d ! i of (c0, c1) \<Rightarrow>
        if c = 48 then d\<lparr>deviceCounters := (deviceCounters d)[i := (c0 + 1, c1)], buf := (buf d)[p := 0]\<rparr>
        else d\<lparr>deviceCounters := (deviceCounters d)[i := (c0, c1 + 1)], buf := (buf d)[p := 1]\<rparr>))
     (convert_bytes bld os argv i js))))"

definition store_at :: "nat \<Rightarrow> u8 list \<Rightarrow> u8 list \<Rightarrow> u8 list" where
  "store_at p bs b = take p b @ bs @ drop (p + length bs) b"

definition read_block :: "build \<Rightarrow> 'w os \<Rightarrow> string list \<Rightarrow> nat \<Rightarrow> int \<Rightarrow> ('w, unit) dcomp" where
  "read_block bld os argv i h =
     dbind (dsys (sys_read os h read_size)) (\<lambda>(n, bs).
     dbind (dget buf_pos) (\<lambda>p.
     dseq (dassert (p + length bs \<le> buf_size))
    (dseq (dmod (\<lambda>d. d\<lparr>buf := store_at p bs (buf d)\<rparr>))
    (dseq (dwhen (n \<noteq> int read_size)
       (fail_errno bld os (''<ERROR> Error reading from device: '' @ argv ! (i + 1) @
          ''. Recieved bytes: '' @ dec n @ ''.'') (-9)))
    (dseq (convert_bytes bld os argv i [0..<read_size])
    (dseq (dmod (\<lambda>d. d\<lparr>buf_pos := buf_pos d + read_size\<rparr>))
    (dbind (dget buf_pos) (\<lambda>p. dwhen (p \<ge> buf_size) (process_block bld os)))))))))"

primrec read_devices :: "build \<Rightarrow> 'w os \<Rightarrow> string list \<Rightarrow> nat list \<Rightarrow> ('w, unit) dcomp" where
  "read_devices bld os argv [] = dret ()"
| "read_devices bld os argv (i # is) =
     dseq (dmod (\<lambda>d. d\<lparr>num_bytes := 0\<rparr>))
    (dbind (dget entFileHandles) (\<lambda>hs.
     dseq (dassert (i < length hs))
    (dbind (dsys (sys_fionread os (hs ! i))) (\<lambda>r.
     dseq (case r of Some n \<Rightarrow> dmod (\<lambda>d. d\<lparr>num_bytes := n\<rparr>) | None \<Rightarrow> dret ())
    (dbind (dget num_bytes) (\<lambda>n.
     dseq (dwhen (n \<ge> int read_size) (read_block bld os argv i (hs ! i)))
     (read_devices bld os argv is)))))))"

subsection \<open>The main loop\<close>

definition main_iteration :: "build \<Rightarrow> 'w os \<Rightarrow> string list \<Rightarrow> ('w, unit) dcomp" where
  "main_iteration bld os argv =
     dbind (dget test_ent) (\<lambda>t.
     dseq (dwhen (t \<noteq> 0) (entropy_stats bld os argv))
    (dseq (read_devices bld os argv [0..<length argv - 1])
     (ddo (sys_usleep os 1000))))"

end
