(* ===== verification/Whitening.thy ===== *)
theory Whitening
  imports Daemon
begin

text \<open>
  What the daemon makes of debiased bits: they are packed into bytes least significant bit first,
  and every 1024 full bytes leave as 512 bytes, each the exclusive or of two bytes 512 apart.
  \<open>absorb\<close> states this on bit lists; the lemmas show that the byte array and the two counters
  \<open>buf_whitened_pos\<close> and \<open>buf_whitened_bit\<close> implement it.
\<close>

subsection \<open>Packing bits into bytes\<close>

primrec byte_le :: "bool list \<Rightarrow> u8" where
  "byte_le [] = 0"
| "byte_le (b # bs) = bitw b OR push_bit 1 (byte_le bs)"

definition byte_at :: "bool list \<Rightarrow> nat \<Rightarrow> u8" where
  "byte_at bs i = byte_le (take 8 (drop (8 * i) bs))"

definition bytes_upto :: "nat \<Rightarrow> bool list \<Rightarrow> u8 list" where
  "bytes_upto n bs = map (byte_at bs) [0..<n]"

definition block_bits :: nat where
  "block_bits = 8 * whitened_size"

definition packed :: "bool list \<Rightarrow> u8 list" where
  "packed bs = bytes_upto whitened_size bs"

lemma length_bytes_upto [simp]: "length (bytes_upto n bs) = n"
  by (simp add: bytes_upto_def)

lemma nth_bytes_upto [simp]: "i < n \<Longrightarrow> bytes_upto n bs ! i = byte_at bs i"
  by (simp add: bytes_upto_def)

lemma length_packed [simp]: "length (packed bs) = whitened_size"
  by (simp add: packed_def)

lemma nth_packed [simp]: "i < whitened_size \<Longrightarrow> packed bs ! i = byte_at bs i"
  by (simp add: packed_def)

lemma byte_le_snoc: "byte_le (bs @ [b]) = byte_le bs OR push_bit (length bs) (bitw b)"
  by (induction bs) (simp_all add: push_bit_or or.assoc push_bit_push_bit)

lemma byte_at_snoc_other:
  assumes "i \<noteq> length bs div 8"
  shows "byte_at (bs @ [b]) i = byte_at bs i"
proof (cases "i < length bs div 8")
  case True
  then have "8 * i + 8 \<le> length bs" by simp
  then show ?thesis by (simp add: byte_at_def)
next
  case False
  with assms have "length bs div 8 < i" by simp
  then have "length bs < 8 * i" by (simp add: div_less_iff_less_mult mult.commute)
  then show ?thesis by (simp add: byte_at_def)
qed

lemma byte_at_snoc_same:
  "byte_at (bs @ [b]) (length bs div 8) =
     byte_at bs (length bs div 8) OR push_bit (length bs mod 8) (bitw b)"
proof -
  let ?i = "length bs div 8"
  have le: "8 * ?i \<le> length bs" and rem: "length bs - 8 * ?i = length bs mod 8"
    by (simp_all add: minus_mult_div_eq_mod)
  moreover have "length bs mod 8 < 8" by simp
  ultimately have "take 8 (drop (8 * ?i) (bs @ [b])) = drop (8 * ?i) bs @ [b]"
    and "take 8 (drop (8 * ?i) bs) = drop (8 * ?i) bs"
    by simp_all
  with rem show ?thesis by (simp add: byte_at_def byte_le_snoc)
qed

lemma packed_snoc:
  assumes "length bs < block_bits"
  shows "packed (bs @ [b]) =
    (packed bs)[length bs div 8 := packed bs ! (length bs div 8) OR push_bit (length bs mod 8) (bitw b)]"
proof (rule nth_equalityI)
  fix i
  assume "i < length (packed (bs @ [b]))"
  then have "i < whitened_size" by simp
  then show "packed (bs @ [b]) ! i =
      (packed bs)[length bs div 8 := packed bs ! (length bs div 8) OR push_bit (length bs mod 8) (bitw b)] ! i"
    using byte_at_snoc_same [of bs b] byte_at_snoc_other [of i bs b]
    by (cases "i = length bs div 8") simp_all
qed simp

lemma bytes_upto_Nil: "bytes_upto n [] = replicate n 0"
  by (rule nth_equalityI) (simp_all add: byte_at_def)

lemma packed_Nil: "packed [] = replicate whitened_size 0"
  unfolding packed_def by (rule bytes_upto_Nil)

subsection \<open>The output as a function of the debiased bits\<close>

definition mix :: "bool list \<Rightarrow> u8 list" where
  "mix bs = map (\<lambda>l. byte_at bs l XOR byte_at bs (l + whitened_size div 2)) [0..<whitened_size div 2]"

lemma length_mix [simp]: "length (mix bs) = whitened_size div 2"
  by (simp add: mix_def)

fun absorb :: "bool list \<Rightarrow> bool list \<Rightarrow> u8 list \<times> bool list" where
  "absorb pend [] = ([], pend)"
| "absorb pend (b # bs) =
     (let pend' = pend @ [b] in
      if length pend' = block_bits
      then (case absorb [] bs of (out, rest) \<Rightarrow> (mix pend' @ out, rest))
      else absorb pend' bs)"

lemma absorb_append:
  "absorb pend (xs @ ys) =
     (case absorb pend xs of (out1, p1) \<Rightarrow> case absorb p1 ys of (out2, p2) \<Rightarrow> (out1 @ out2, p2))"
  by (induction pend xs rule: absorb.induct) (auto simp: Let_def split: prod.split)

lemma absorb_short: "length (pend @ xs) < block_bits \<Longrightarrow> absorb pend xs = ([], pend @ xs)"
  by (induction pend xs rule: absorb.induct) (auto simp: Let_def)

lemma absorb_chunk:
  assumes "length pend < block_bits" and "length pend + length xs = block_bits"
  shows "absorb pend (xs @ ys) = (case absorb [] ys of (out, rest) \<Rightarrow> (mix (pend @ xs) @ out, rest))"
proof -
  from assms obtain zs b where xs: "xs = zs @ [b]" by (cases xs rule: rev_cases) auto
  with assms have "absorb pend zs = ([], pend @ zs)" by (intro absorb_short) simp
  with assms xs show ?thesis by (simp add: absorb_append)
qed

function mixed_chunks :: "bool list \<Rightarrow> u8 list" where
  "mixed_chunks bs =
     (if length bs < block_bits then []
      else mix (take block_bits bs) @ mixed_chunks (drop block_bits bs))"
  by pat_completeness auto
termination
  by (relation "measure length") (auto simp: block_bits_def whitened_size_def)

lemma block_bits_pos [simp]: "0 < block_bits"
  by (simp add: block_bits_def whitened_size_def)

declare mixed_chunks.simps [simp del]

lemma absorb_mixed_chunks: "fst (absorb [] bs) = mixed_chunks bs"
proof (induction bs rule: mixed_chunks.induct)
  case (1 bs)
  show ?case
  proof (cases "length bs < block_bits")
    case True
    then show ?thesis by (simp add: absorb_short mixed_chunks.simps)
  next
    case False
    then have "absorb [] (take block_bits bs @ drop block_bits bs) =
        (case absorb [] (drop block_bits bs) of (out, rest) \<Rightarrow> (mix (take block_bits bs) @ out, rest))"
      using absorb_chunk [of "[]" "take block_bits bs" "drop block_bits bs"] by simp
    with False "1.IH" show ?thesis
      by (simp add: mixed_chunks.simps [of bs] split: prod.splits)
  qed
qed

lemma length_absorb_rest: "length pend < block_bits \<Longrightarrow> length (snd (absorb pend bs)) < block_bits"
  by (induction pend bs rule: absorb.induct) (auto simp: Let_def split: prod.split)

subsection \<open>The packing state\<close>

text \<open>\<open>holds_bits d bs\<close>: the array and its two counters hold the pending bits \<open>bs\<close>.\<close>

definition holds_bits :: "daemon \<Rightarrow> bool list \<Rightarrow> bool" where
  "holds_bits d bs \<longleftrightarrow> length bs < block_bits \<and> buf_whitened d = packed bs \<and>
     buf_whitened_pos d = length bs div 8 \<and> buf_whitened_bit d = length bs mod 8"

lemma holds_bits_init: "holds_bits daemon_init []"
  unfolding holds_bits_def packed_Nil by (simp add: daemon_init_def)

lemma pack_bit_packed:
  assumes "holds_bits d bs"
  shows "pack_bit (bitw b) d =
    d\<lparr>buf_whitened := packed (bs @ [b]),
      buf_whitened_pos := length (bs @ [b]) div 8, buf_whitened_bit := length (bs @ [b]) mod 8\<rparr>"
proof (cases "Suc (length bs mod 8) = 8")
  case True
  then have "Suc (length bs) mod 8 = 0" by (simp add: mod_Suc)
  moreover from this have "Suc (length bs) div 8 = Suc (length bs div 8)" by (simp add: div_Suc)
  moreover have "7 < Suc (length bs mod 8)" using True by simp
  ultimately show ?thesis
    using assms by (simp add: pack_bit_def holds_bits_def packed_snoc Let_def)
next
  case False
  then have "Suc (length bs) mod 8 = Suc (length bs mod 8)" by (simp add: mod_Suc)
  moreover from this have "Suc (length bs) div 8 = length bs div 8" by (simp add: div_Suc)
  moreover have "\<not> 7 < Suc (length bs mod 8)"
    using False mod_less_divisor [of 8 "length bs"] by linarith
  ultimately show ?thesis
    using assms by (simp add: pack_bit_def holds_bits_def packed_snoc Let_def)
qed

end
