(* ===== verification/Daemon_Env.thy ===== *)
theory Daemon_Env
  imports Whitening
begin

text \<open>
  What the daemon relies on from the kernel, as the interface \<open>daemon_env\<close>: \<open>write\<close> appends to the
  file behind a handle, \<open>read\<close> hands out characters of the devices, and no other call the main loop
  makes changes either. Under it, a full buffer of bits is processed completely and the output file
  grows by exactly the bytes \<open>absorb\<close> gives.
\<close>

subsection \<open>Running computations\<close>

lemma drun [simp]:
  "dret x s = Some (Returns x, s)"
  "dbind (dret x) f = f x"
  "dbind (dget g) f (d, w) = f (g d) (d, w)"
  "dbind (dask h) f (d, w) = f (h w) (d, w)"
  "dbind (dsys c) f (d, w) = (case c w of (x, w') \<Rightarrow> f x (d, w'))"
  "dseq (dret ()) m = m"
  "dseq (dmod k) m (d, w) = m (k d, w)"
  "dseq (ddo u) m (d, w) = m (d, u w)"
  "dseq (dassert b) m s = (if b then m s else None)"
  "dmod k (d, w) = Some (Returns (), k d, w)"
  "ddo u (d, w) = Some (Returns (), d, u w)"
  "dwhen True n = n"
  "dwhen False n = dret ()"
  by (simp_all add: dcomp_defs fun_eq_iff split: prod.split)

lemma dbind_dopt [simp]: "dbind (dopt (Some v)) f s = f v s"
  by (simp add: dcomp_defs)

lemma dseq_Returns: "m s = Some (Returns (), s') \<Longrightarrow> dseq m n s = n s'"
  by (simp add: dcomp_defs)

lemma dbind_Returns: "m s = Some (Returns x, s') \<Longrightarrow> dbind m f s = f x s'"
  by (simp add: dcomp_defs)

lemma dbind_Exits: "m s = Some (Exits c, s') \<Longrightarrow> dbind m f s = Some (Exits c, s')"
  by (simp add: dcomp_defs)

lemma dseq_Exits: "m s = Some (Exits c, s') \<Longrightarrow> dseq m n s = Some (Exits c, s')"
  by (simp add: dcomp_defs)

lemma mix_packed:
  "mix bs = map (\<lambda>l. packed bs ! l XOR packed bs ! (l + whitened_size div 2)) [0..<whitened_size div 2]"
  by (auto simp: mix_def)

subsection \<open>The interface\<close>

locale daemon_env =
  fixes os :: "'w os"
    and written :: "int \<Rightarrow> 'w \<Rightarrow> u8 list"
    and consumed :: "'w \<Rightarrow> u8 list"
  assumes write_appends: "sys_write os h bs w = (r, w') \<Longrightarrow>
      0 \<le> r \<and> written h w' = written h w @ bs \<and> (\<forall>h'. h' \<noteq> h \<longrightarrow> written h' w' = written h' w) \<and>
      consumed w' = consumed w"
    and read_consumes: "sys_read os h n w = ((r, bs), w') \<Longrightarrow>
      length bs \<le> n \<and> (0 \<le> r \<longrightarrow> r = int (length bs)) \<and> consumed w' = consumed w @ bs \<and>
      (\<forall>h'. written h' w' = written h' w)"
    and fionread_quiet: "sys_fionread os h w = (r', w') \<Longrightarrow>
      consumed w' = consumed w \<and> (\<forall>h'. written h' w' = written h' w)"
    and timestr_quiet: "sys_timestr os w = (t, w') \<Longrightarrow>
      consumed w' = consumed w \<and> (\<forall>h'. written h' w' = written h' w)"
    and usleep_quiet: "consumed (sys_usleep os n w) = consumed w"
      "written h' (sys_usleep os n w) = written h' w"
    and alarm_quiet: "consumed (sys_alarm os t' w) = consumed w"
      "written h' (sys_alarm os t' w) = written h' w"
    and signal_quiet: "consumed (sys_signal os sig w) = consumed w"
      "written h' (sys_signal os sig w) = written h' w"
    and close_quiet: "consumed (sys_close os h w) = consumed w"
      "written h' (sys_close os h w) = written h' w"
begin

definition appended :: "int \<Rightarrow> u8 list \<Rightarrow> 'w \<Rightarrow> 'w \<Rightarrow> bool" where
  "appended h bs w w' \<longleftrightarrow> written h w' = written h w @ bs \<and>
     (\<forall>h'. h' \<noteq> h \<longrightarrow> written h' w' = written h' w) \<and> consumed w' = consumed w"

lemma appended_refl: "appended h [] w w"
  by (simp add: appended_def)

lemma appended_trans: "appended h xs w w' \<Longrightarrow> appended h ys w' w'' \<Longrightarrow> appended h (xs @ ys) w w''"
  by (simp add: appended_def)

lemma output_byte_runs:
  assumes "file_output bld"
  shows "\<exists>w'. output_byte bld os v (d, w) = Some (Returns (), d, w') \<and> appended (outFileHandle d) [v] w w'"
proof -
  obtain r w' where wr: "sys_write os (outFileHandle d) [v] w = (r, w')" by fastforce
  from write_appends [OF wr] have "\<not> r < 0" and "appended (outFileHandle d) [v] w w'"
    by (simp_all add: appended_def)
  with assms wr show ?thesis by (simp add: output_byte_def)
qed

lemma mix_output_runs:
  assumes "file_output bld" and "\<forall>l \<in> set ls. l + whitened_size div 2 < length (buf_whitened d)"
  shows "\<exists>w'. mix_output bld os ls (d, w) =
      Some (Returns (), d\<lparr>ent_count := ent_count d + int (length ls)\<rparr>, w') \<and>
    appended (outFileHandle d)
      (map (\<lambda>l. buf_whitened d ! l XOR buf_whitened d ! (l + whitened_size div 2)) ls) w w'"
  using assms(2)
proof (induction ls arbitrary: d w)
  case Nil
  then show ?case by (simp add: appended_refl)
next
  case (Cons l ls)
  let ?v = "buf_whitened d ! l XOR buf_whitened d ! (l + whitened_size div 2)"
  let ?d = "d\<lparr>ent_count := ent_count d + 1\<rparr>"
  obtain w1 where w1: "output_byte bld os ?v (?d, w) = Some (Returns (), ?d, w1)"
      "appended (outFileHandle d) [?v] w w1"
    using output_byte_runs [OF assms(1), of ?v ?d w] by auto
  obtain w2 where w2: "mix_output bld os ls (?d, w1) =
        Some (Returns (), ?d\<lparr>ent_count := ent_count ?d + int (length ls)\<rparr>, w2)"
      "appended (outFileHandle d)
        (map (\<lambda>l. buf_whitened d ! l XOR buf_whitened d ! (l + whitened_size div 2)) ls) w1 w2"
    using Cons.IH [of ?d w1] Cons.prems by auto
  show ?case
    using Cons.prems w1 w2 appended_trans [OF w1(2) w2(2)]
    by (simp add: dseq_Returns add.commute add.left_commute)
qed

lemma flush_runs:
  assumes "file_output bld" and "buf_whitened d = packed bs" and "length bs \<le> block_bits"
    and "buf_whitened_pos d = length bs div 8" and "buf_whitened_bit d = length bs mod 8"
  shows "\<exists>w'. flush_if_full bld os (d, w) = Some (Returns (),
      (if length bs = block_bits
       then d\<lparr>ent_count := ent_count d + int (whitened_size div 2), buf_whitened := packed [],
              buf_whitened_pos := 0\<rparr>
       else d), w') \<and>
    appended (outFileHandle d) (if length bs = block_bits then mix bs else []) w w'"
proof (cases "length bs = block_bits")
  case True
  then have "whitened_size \<le> buf_whitened_pos d" using assms(4) by (simp add: block_bits_def)
  moreover have half: "\<forall>l \<in> set [0..<whitened_size div 2]. l + whitened_size div 2 < whitened_size"
    by auto
  ultimately show ?thesis
    using mix_output_runs [OF assms(1), of "[0..<whitened_size div 2]" d w] assms(2) True
    by (auto simp: flush_if_full_def dseq_Returns mix_packed packed_Nil)
next
  case False
  then have "length bs div 8 < whitened_size"
    using assms(3) by (simp add: block_bits_def div_less_iff_less_mult mult.commute)
  with False assms(4) show ?thesis by (simp add: flush_if_full_def appended_refl)
qed

end

end
