(* ===== verification/Daemon_Blocks.thy ===== *)
theory Daemon_Blocks
  imports Daemon_Env
begin

text \<open>
  The main loop's work on one device under the interface \<open>daemon_env\<close>: whitening a debiased block,
  processing a full buffer, converting and storing 128 characters, and the exits of each of these on
  bad input.
\<close>

text \<open>The daemon's variables after the bits \<open>ys\<close> have been absorbed on top of the pending \<open>pend\<close>.\<close>

definition whitened_by :: "daemon \<Rightarrow> bool list \<Rightarrow> bool list \<Rightarrow> daemon" where
  "whitened_by d pend ys =
     (case absorb pend ys of (out, rest) \<Rightarrow>
        d\<lparr>num_zeros := num_zeros d + int (length ys) - int (ones ys),
          num_ones := num_ones d + int (ones ys), ent_count := ent_count d + int (length out),
          buf_whitened := packed rest, buf_whitened_pos := length rest div 8,
          buf_whitened_bit := length rest mod 8\<rparr>)"

lemma whitened_by_append:
  "whitened_by (whitened_by d pend xs) (snd (absorb pend xs)) ys = whitened_by d pend (xs @ ys)"
  by (simp add: whitened_by_def absorb_append split: prod.split)

lemma whitened_by_Nil: "holds_bits d pend \<Longrightarrow> whitened_by d pend [] = d"
  by (simp add: whitened_by_def holds_bits_def)

lemma holds_whitened_by:
  "length pend < block_bits \<Longrightarrow> holds_bits (whitened_by d pend ys) (snd (absorb pend ys))"
  using length_absorb_rest [of pend ys] by (simp add: whitened_by_def holds_bits_def split: prod.split)

lemma whitened_by_frame [simp]:
  "outFileHandle (whitened_by d pend ys) = outFileHandle d"
  "logFileHandle (whitened_by d pend ys) = logFileHandle d"
  "buf (whitened_by d pend ys) = buf d" "buf_pos (whitened_by d pend ys) = buf_pos d"
  "entFileHandles (whitened_by d pend ys) = entFileHandles d"
  "deviceCounters (whitened_by d pend ys) = deviceCounters d"
  "test_ent (whitened_by d pend ys) = test_ent d"
  by (simp_all add: whitened_by_def split: prod.split)

lemma count_pack_bit:
  assumes "holds_bits d pend"
  shows "pack_bit (bitw b) (count_bit (bitw b) d) =
    d\<lparr>num_zeros := num_zeros d + 1 - int (ones [b]), num_ones := num_ones d + int (ones [b]),
      buf_whitened := packed (pend @ [b]),
      buf_whitened_pos := length (pend @ [b]) div 8, buf_whitened_bit := length (pend @ [b]) mod 8\<rparr>"
proof -
  have "holds_bits (count_bit (bitw b) d) pend"
    using assms by (simp add: holds_bits_def count_bit_def)
  from pack_bit_packed [OF this, of b] show ?thesis
    by (cases b) (simp_all add: count_bit_def)
qed

context daemon_env
begin

lemma whiten_step:
  assumes "file_output bld" and "holds_bits d pend" and "rd res k = Some (bitw b)"
  shows "\<exists>w'. whiten_bits bld os res (k # ks) (d, w) =
      whiten_bits bld os res ks (whitened_by d pend [b], w') \<and>
    appended (outFileHandle d) (fst (absorb pend [b])) w w'"
proof -
  let ?d = "pack_bit (bitw b) (count_bit (bitw b) d)"
  have bit: "char_int (signed_char bld) (bitw b) = 0 \<or> char_int (signed_char bld) (bitw b) = 1"
    by (cases b) simp_all
  have len: "length pend < block_bits" and ok: "buf_whitened_pos d < length (buf_whitened d)"
    using assms(2) by (simp_all add: holds_bits_def block_bits_def div_less_iff_less_mult mult.commute)
  from ok have ok': "buf_whitened_pos (count_bit (bitw b) d) < length (buf_whitened (count_bit (bitw b) d))"
    by (simp add: count_bit_def)
  obtain w' where fl: "flush_if_full bld os (?d, w) = Some (Returns (),
        (if length (pend @ [b]) = block_bits
         then ?d\<lparr>ent_count := ent_count ?d + int (whitened_size div 2), buf_whitened := packed [],
                 buf_whitened_pos := 0\<rparr>
         else ?d), w')"
      and app: "appended (outFileHandle ?d) (if length (pend @ [b]) = block_bits then mix (pend @ [b]) else []) w w'"
    using flush_runs [OF assms(1), of ?d "pend @ [b]" w] len
    by (fastforce simp: count_pack_bit [OF assms(2)])
  have bb: "block_bits mod 8 = 0" by (simp add: block_bits_def)
  have "(if length (pend @ [b]) = block_bits
         then ?d\<lparr>ent_count := ent_count ?d + int (whitened_size div 2), buf_whitened := packed [],
                 buf_whitened_pos := 0\<rparr>
         else ?d) = whitened_by d pend [b]"
    using bb by (simp add: count_pack_bit [OF assms(2)] whitened_by_def)
  moreover have "(if length (pend @ [b]) = block_bits then mix (pend @ [b]) else []) = fst (absorb pend [b])"
    by simp
  moreover have "outFileHandle ?d = outFileHandle d" by (simp add: count_pack_bit [OF assms(2)])
  moreover have "whiten_bits bld os res (k # ks) (d, w) =
      dseq (flush_if_full bld os) (whiten_bits bld os res ks) (?d, w)"
    using assms(3) bit ok' by auto
  ultimately show ?thesis
    using fl app by (auto simp: dseq_Returns)
qed

lemma whiten_bits_runs:
  assumes "file_output bld" and "holds_bits d pend" and "i \<le> length ys" and "length ys \<le> amls_array_len"
  shows "\<exists>w'. whiten_bits bld os (filled ys (Some 0xFF)) [i..<amls_array_len] (d, w) =
      Some (Returns (), whitened_by d pend (drop i ys), w') \<and>
    appended (outFileHandle d) (fst (absorb pend (drop i ys))) w w'"
  using assms(2,3)
proof (induction "length ys - i" arbitrary: i d pend w)
  case 0
  then have i: "i = length ys" by simp
  show ?case
  proof (cases "i < amls_array_len")
    case True
    then have "rd (filled ys (Some 0xFF)) i = Some 0xFF"
      using i by (simp add: rd_def filled_def nth_append)
    with True i "0.prems"(1) show ?thesis
      by (auto simp: upt_conv_Cons whitened_by_Nil appended_refl char_int_def)
  next
    case False
    with i "0.prems"(1) show ?thesis by (simp add: whitened_by_Nil appended_refl)
  qed
next
  case (Suc n)
  then have i: "i < length ys" by simp
  let ?b = "ys ! i" and ?zs = "drop (Suc i) ys"
  have "rd (filled ys (Some 0xFF)) i = Some (bitw ?b)"
    using i by (simp add: filled_def rd_prefix)
  then obtain w1 where w1: "whiten_bits bld os (filled ys (Some 0xFF)) (i # [Suc i..<amls_array_len]) (d, w) =
        whiten_bits bld os (filled ys (Some 0xFF)) [Suc i..<amls_array_len] (whitened_by d pend [?b], w1)"
      "appended (outFileHandle d) (fst (absorb pend [?b])) w w1"
    using whiten_step [OF assms(1) Suc.prems(1)] by blast
  have "holds_bits (whitened_by d pend [?b]) (snd (absorb pend [?b]))"
    using Suc.prems(1) by (intro holds_whitened_by) (simp add: holds_bits_def)
  then obtain w2 where w2: "whiten_bits bld os (filled ys (Some 0xFF)) [Suc i..<amls_array_len]
        (whitened_by d pend [?b], w1) =
        Some (Returns (), whitened_by (whitened_by d pend [?b]) (snd (absorb pend [?b])) ?zs, w2)"
      "appended (outFileHandle d) (fst (absorb (snd (absorb pend [?b])) ?zs)) w1 w2"
    using Suc.hyps(1) [of "Suc i" "whitened_by d pend [?b]"] Suc.hyps(2) i by fastforce
  have split: "drop i ys = [?b] @ ?zs" using i by (simp add: Cons_nth_drop_Suc)
  have "[i..<amls_array_len] = i # [Suc i..<amls_array_len]"
    using i assms(4) by (simp add: upt_conv_Cons)
  moreover have "whitened_by (whitened_by d pend [?b]) (snd (absorb pend [?b])) ?zs =
      whitened_by d pend (drop i ys)"
    unfolding split by (rule whitened_by_append)
  moreover have "fst (absorb pend (drop i ys)) =
      fst (absorb pend [?b]) @ fst (absorb (snd (absorb pend [?b])) ?zs)"
    unfolding split by (simp only: absorb_append split: prod.split) simp
  ultimately show ?case
    using w1(1) w2(1) appended_trans [OF w1(2) w2(2)] by auto
qed

lemma process_block_runs:
  assumes "file_output bld" and "signed_char bld" and "holds_bits d pend"
    and "buf d = map bitw xs" and "length xs = buf_size"
  shows "\<exists>w'. process_block bld os (d, w) =
      Some (Returns (), (whitened_by d pend (debias xs))\<lparr>buf_pos := 0\<rparr>, w') \<and>
    appended (outFileHandle d) (fst (absorb pend (debias xs))) w w'"
proof -
  have size: "buf_size = amls_array_len" by (simp add: buf_size_def amls_array_len_def)
  have "bits_at (initialised (map bitw xs)) 0 (length xs) xs"
    by (simp add: bits_at_def rd_initialised)
  then have "amls True (initialised (buf d)) buf_size = Some (filled (debias xs) (Some 0xFF))"
    using assms(4,5) size amls_bits [of _ "length xs" xs] by simp
  moreover have "length (debias xs) \<le> amls_array_len"
    using length_debias_le [of xs] assms(5) size by simp
  then obtain w' where "whiten_bits bld os (filled (debias xs) (Some 0xFF)) [0..<amls_array_len] (d, w) =
        Some (Returns (), whitened_by d pend (debias xs), w')"
      "appended (outFileHandle d) (fst (absorb pend (debias xs))) w w'"
    using whiten_bits_runs [OF assms(1,3), of 0 "debias xs" w] by auto
  ultimately show ?thesis
    using assms(2) size by (auto simp: process_block_def dseq_Returns)
qed

end

end
