(* ===== verification/Daemon_Stream.thy ===== *)
theory Daemon_Stream
  imports Daemon_Blocks
begin

text \<open>
  The daemon as a function from the characters it reads to the bytes it writes. The abstract machine
  keeps the bits of the unfinished input block and the pending debiased bits; \<open>feed\<close> is its step on
  one read, \<open>read_block\<close> refines it, and the whole output is \<open>mixed_chunks\<close> of the debiased blocks.
\<close>

subsection \<open>The abstract machine\<close>

type_synonym collector = "bool list \<times> bool list"

fun feed :: "collector \<Rightarrow> bool list \<Rightarrow> u8 list \<times> collector" where
  "feed (cur, pend) bs =
     (if length (cur @ bs) < buf_size then ([], (cur @ bs, pend))
      else case absorb pend (debias (cur @ bs)) of (out, rest) \<Rightarrow> (out, ([], rest)))"

fun feeds :: "collector \<Rightarrow> bool list list \<Rightarrow> u8 list \<times> collector" where
  "feeds c [] = ([], c)"
| "feeds c (bs # bss) =
     (case feed c bs of (out, c') \<Rightarrow> case feeds c' bss of (out', c'') \<Rightarrow> (out @ out', c''))"

function debiased_blocks :: "bool list \<Rightarrow> bool list" where
  "debiased_blocks bs =
     (if length bs < buf_size then []
      else debias (take buf_size bs) @ debiased_blocks (drop buf_size bs))"
  by pat_completeness auto
termination
  by (relation "measure length") (auto simp: buf_size_def)

declare debiased_blocks.simps [simp del]

lemma buf_size_pos [simp]: "0 < buf_size"
  by (simp add: buf_size_def)

lemma debiased_blocks_short [simp]: "length bs < buf_size \<Longrightarrow> debiased_blocks bs = []"
  by (simp add: debiased_blocks.simps)

lemma debiased_blocks_block:
  "length xs = buf_size \<Longrightarrow> debiased_blocks (xs @ ys) = debias xs @ debiased_blocks ys"
  by (simp add: debiased_blocks.simps [of "xs @ ys"])

definition read_sized :: "bool list list \<Rightarrow> bool" where
  "read_sized bss \<longleftrightarrow> (\<forall>bs \<in> set bss. length bs = read_size)"

lemma feeds_output:
  assumes "read_sized bss" and "length cur < buf_size" and "read_size dvd length cur"
    and "length pend < block_bits"
  shows "fst (feeds (cur, pend) bss) = fst (absorb pend (debiased_blocks (cur @ concat bss)))"
  using assms
proof (induction bss arbitrary: cur pend)
  case Nil
  then show ?case by simp
next
  case (Cons bs bss)
  have bs: "length bs = read_size" and rest: "read_sized bss"
    using Cons.prems(1) by (simp_all add: read_sized_def)
  show ?case
  proof (cases "length (cur @ bs) < buf_size")
    case True
    have "read_size dvd length (cur @ bs)" using Cons.prems(3) bs by simp
    from Cons.IH [OF rest True this Cons.prems(4)] True show ?thesis
      by (simp split: prod.split)
  next
    case False
    have full: "length (cur @ bs) = buf_size"
      using False Cons.prems(2,3) bs by (auto simp: buf_size_def read_size_def dvd_def)
    obtain out pend' where ab: "absorb pend (debias (cur @ bs)) = (out, pend')" by fastforce
    then have "length pend' < block_bits"
      using length_absorb_rest [OF Cons.prems(4), of "debias (cur @ bs)"] by simp
    with Cons.IH [OF rest, of "[]" pend'] have
      IH: "fst (feeds ([], pend') bss) = fst (absorb pend' (debiased_blocks (concat bss)))" by simp
    have "debiased_blocks (cur @ concat (bs # bss)) = debias (cur @ bs) @ debiased_blocks (concat bss)"
      using debiased_blocks_block [OF full] by simp
    with IH ab False show ?thesis by (auto simp: absorb_append split: prod.split)
  qed
qed

lemma feeds_snoc:
  "feeds c (bss @ [bs]) =
     (case feeds c bss of (out, c') \<Rightarrow> case feed c' bs of (out', c'') \<Rightarrow> (out @ out', c''))"
  by (induction bss arbitrary: c) (auto split: prod.split)

subsection \<open>The daemon's variables implement it\<close>

fun implements :: "daemon \<Rightarrow> collector \<Rightarrow> bool" where
  "implements d (cur, pend) \<longleftrightarrow>
     length (buf d) = buf_size \<and> buf_pos d = length cur \<and> length cur < buf_size \<and>
     read_size dvd length cur \<and> take (length cur) (buf d) = map bitw cur \<and> holds_bits d pend"

lemma implements_init: "implements daemon_init ([], [])"
  using holds_bits_init by (simp add: daemon_init_def)

text \<open>One device's counters after its bits \<open>bs\<close> have been counted.\<close>

definition counted :: "u64 \<times> u64 \<Rightarrow> bool list \<Rightarrow> u64 \<times> u64" where
  "counted c bs = (fst c + of_nat (length bs - ones bs), snd c + of_nat (ones bs))"

lemma counted_Cons: "counted (if b then (c0, c1 + 1) else (c0 + 1, c1)) bs = counted (c0, c1) (b # bs)"
  using ones_le_length [of bs] by (simp add: counted_def Suc_diff_le add.commute add.left_commute)

lemma convert_bytes_runs:
  assumes "buf d = xs @ map ascii bs @ zs" and "length xs = buf_pos d + j"
    and "i < length (deviceCounters d)"
  shows "convert_bytes bld os argv i [j..<j + length bs] (d, w) =
    Some (Returns (), d\<lparr>buf := xs @ map bitw bs @ zs,
      deviceCounters := (deviceCounters d)[i := counted (deviceCounters d ! i) bs]\<rparr>, w)"
  using assms
proof (induction bs arbitrary: d xs j)
  case Nil
  then show ?case by (simp add: counted_def)
next
  case (Cons b bs)
  obtain c0 c1 where c: "deviceCounters d ! i = (c0, c1)" by fastforce
  let ?c = "if b then (c0, c1 + 1) else (c0 + 1, c1)"
  let ?d = "d\<lparr>deviceCounters := (deviceCounters d)[i := ?c], buf := (xs @ [bitw b]) @ map ascii bs @ zs\<rparr>"
  have upt: "[j..<j + length (b # bs)] = j # [Suc j..<Suc j + length bs]"
    using upt_conv_Cons [of j "Suc (j + length bs)"] by (simp del: upt_Suc)
  have nth: "buf d ! (buf_pos d + j) = ascii b" and lt: "buf_pos d + j < length (buf d)"
    and upd: "\<And>v. (buf d)[buf_pos d + j := v] = (xs @ [v]) @ map ascii bs @ zs"
    using Cons.prems(1,2) by (simp_all add: nth_append list_update_append)
  have "convert_bytes bld os argv i [j..<j + length (b # bs)] (d, w) =
      convert_bytes bld os argv i [Suc j..<Suc j + length bs] (?d, w)"
    unfolding upt using Cons.prems(3) c nth lt upd [of 0] upd [of 1]
    by (simp add: Let_def ascii_def split: if_splits)
  also have "\<dots> = Some (Returns (), ?d\<lparr>buf := (xs @ [bitw b]) @ map bitw bs @ zs,
      deviceCounters := (deviceCounters ?d)[i := counted (deviceCounters ?d ! i) bs]\<rparr>, w)"
    using Cons.prems by (intro Cons.IH) simp_all
  finally show ?case
    using Cons.prems(3) c counted_Cons [of b c0 c1 bs] by simp
qed

end
