(* ===== verification/Daemon_Run.thy ===== *)
theory Daemon_Run
  imports Daemon_Stream
begin

text \<open>
  Whole runs of the daemon under the interface \<open>daemon_env\<close>: the refinement of one read, the exits
  on a short read and on an invalid character, and the invariant of the main loop, kept by every
  iteration and every signal: the output file holds exactly what the abstract machine makes of the
  characters read so far.
\<close>

subsection \<open>Properties kept by computations that return\<close>

definition keeps :: "(daemon \<times> 'w \<Rightarrow> bool) \<Rightarrow> ('w, 'a) dcomp \<Rightarrow> bool" where
  "keeps P m \<longleftrightarrow> (\<forall>s x s'. P s \<longrightarrow> m s = Some (Returns x, s') \<longrightarrow> P s')"

lemma keepsD: "keeps P m \<Longrightarrow> m s = Some (Returns x, s') \<Longrightarrow> P s \<Longrightarrow> P s'"
  unfolding keeps_def by blast

named_theorems keeps_intros \<open>composition rules for \<open>keeps\<close>\<close>

lemma dbind_Returns_cases:
  assumes "dbind m f s = Some (Returns y, s')"
  obtains x s1 where "m s = Some (Returns x, s1)" and "f x s1 = Some (Returns y, s')"
  using assms by (cases "m s"; cases "fst (the (m s))") (auto simp: dbind_def)

lemma keeps_dbind [keeps_intros]:
  assumes "keeps P m" and "\<And>x. keeps P (f x)"
  shows "keeps P (dbind m f)"
  unfolding keeps_def by (metis assms dbind_Returns_cases keepsD)

lemma keeps_dseq [keeps_intros]: "keeps P m \<Longrightarrow> keeps P n \<Longrightarrow> keeps P (dseq m n)"
  by (simp add: dseq_def keeps_dbind)

lemma keeps_trivial [keeps_intros]:
  "keeps P (dret x)" "keeps P (dget g)" "keeps P (dask h)" "keeps P (dassert b)" "keeps P (dopt v)"
  "keeps P (\<lambda>s. Some (Exits c, s))"
  by (auto simp: keeps_def dcomp_defs bind_eq_Some_conv split: if_splits)

lemma keeps_dwhen [keeps_intros]: "(b \<Longrightarrow> keeps P m) \<Longrightarrow> keeps P (dwhen b m)"
  by (simp add: dwhen_def keeps_trivial)

lemma keeps_case [keeps_intros]:
  "(\<And>y. v = Some y \<Longrightarrow> keeps P (f y)) \<Longrightarrow> keeps P m \<Longrightarrow> keeps P (case v of None \<Rightarrow> m | Some y \<Rightarrow> f y)"
  "(\<And>a b. keeps P (g a b)) \<Longrightarrow> keeps P (case p of (a, b) \<Rightarrow> g a b)"
  by (auto split: option.split prod.split)

lemma keeps_dmod: "(\<And>d w. P (d, w) \<Longrightarrow> P (k d, w)) \<Longrightarrow> keeps P (dmod k)"
  by (auto simp: keeps_def dcomp_defs)

lemma keeps_ddo: "(\<And>d w. P (d, w) \<Longrightarrow> P (d, u w)) \<Longrightarrow> keeps P (ddo u)"
  by (auto simp: keeps_def dcomp_defs)

lemma keeps_dsys: "(\<And>d w x w'. P (d, w) \<Longrightarrow> c w = (x, w') \<Longrightarrow> P (d, w')) \<Longrightarrow> keeps P (dsys c)"
  by (auto simp: keeps_def dcomp_defs split: prod.splits)

lemma exit_cleanup_not_Returns: "exit_cleanup bld os c s \<noteq> Some (Returns x, s')"
  by (cases s) (auto simp: exit_cleanup_def close_if_open_def dcomp_defs split: if_splits)

lemma keeps_exit_cleanup [keeps_intros]: "keeps P (exit_cleanup bld os c)"
  by (simp add: keeps_def exit_cleanup_not_Returns)

lemma dseq_exit_not_Returns: "dseq m (exit_cleanup bld os c) s \<noteq> Some (Returns x, s')"
  by (auto simp: dseq_def dbind_def bind_eq_Some_conv exit_cleanup_not_Returns split: outcome.splits)

lemma keeps_dseq_exit [keeps_intros]: "keeps P (dseq m (exit_cleanup bld os c))"
  by (simp add: keeps_def dseq_exit_not_Returns)

lemma keeps_fail_errno [keeps_intros]: "keeps P (fail_errno bld os msg c)"
  by (auto simp: keeps_def fail_errno_def dbind_def dask_def dseq_exit_not_Returns)

lemma fail_errno_not_Returns: "fail_errno bld os msg c s \<noteq> Some (Returns x, s')"
  by (auto simp: fail_errno_def dbind_def dask_def dseq_exit_not_Returns split: prod.splits)

lemma dbind_dassert [simp]: "dbind (dassert b) f s = (if b then f () s else None)"
  by (simp add: dcomp_defs)

subsection \<open>Reading a block\<close>

lemma ascii_cases: "v = 48 \<or> v = 49 \<Longrightarrow> \<exists>b. v = ascii b"
  by (metis ascii_def)

lemma ascii_list: "\<forall>v \<in> set vs. v = 48 \<or> v = 49 \<Longrightarrow> \<exists>bs. vs = map ascii bs"
proof (induction vs)
  case (Cons v vs)
  then obtain b bs where "v = ascii b" "vs = map ascii bs" using ascii_cases by fastforce
  then have "v # vs = map ascii (b # bs)" by simp
  then show ?case by (rule exI)
qed simp

lemma dseq_not_Returns:
  "(\<And>s'. m s \<noteq> Some (Returns (), s')) \<Longrightarrow> dseq m n s \<noteq> Some (Returns x, s'')"
  by (auto simp: dseq_def dbind_def bind_eq_Some_conv split: outcome.splits)

lemma convert_bytes_valid:
  assumes "convert_bytes bld os argv i js (d, w) = Some (Returns x, s')" and "distinct js"
  shows "\<forall>j \<in> set js. buf_pos d + j < length (buf d) \<and>
    (buf d ! (buf_pos d + j) = 48 \<or> buf d ! (buf_pos d + j) = 49)"
  using assms
proof (induction js arbitrary: d)
  case Nil
  then show ?case by simp
next
  case (Cons j js)
  let ?p = "buf_pos d + j"
  let ?c = "buf d ! ?p"
  have lt: "?p < length (buf d)"
    using Cons.prems(1) by (simp add: Let_def split: if_splits)
  have ok: "?c = 48 \<or> ?c = 49"
  proof (rule ccontr)
    assume bad: "\<not> (?c = 48 \<or> ?c = 49)"
    show False
      using Cons.prems(1) bad
      by (simp add: Let_def dseq_not_Returns dseq_exit_not_Returns split: if_splits)
  qed
  obtain d1 v where d1: "buf_pos d1 = buf_pos d" "buf d1 = (buf d)[?p := v]"
      "convert_bytes bld os argv i js (d1, w) = Some (Returns x, s')"
  proof -
    let ?k = "\<lambda>d v. d\<lparr>deviceCounters := (deviceCounters d)[i := v], buf := (buf d)[?p := if ?c = 48 then 0 else 1]\<rparr>"
    obtain c0 c1 where "deviceCounters d ! i = (c0, c1)" by fastforce
    then have "convert_bytes bld os argv i js
        (?k d (if ?c = 48 then (c0 + 1, c1) else (c0, c1 + 1)), w) = Some (Returns x, s')"
      using Cons.prems(1) ok by (auto simp: Let_def split: if_splits)
    then show ?thesis by (rule that [rotated 2]) simp_all
  qed
  from Cons.IH [OF d1(3)] Cons.prems(2) d1(1,2)
  have "\<forall>k \<in> set js. buf_pos d + k < length (buf d) \<and>
      (buf d ! (buf_pos d + k) = 48 \<or> buf d ! (buf_pos d + k) = 49)"
    by (metis add_left_cancel distinct.simps(2) length_list_update nth_list_update_neq)
  with lt ok show ?case by simp
qed

lemma convert_bytes_counter:
  "convert_bytes bld os argv i (j # js) (d, w) = Some (Returns x, s') \<Longrightarrow> i < length (deviceCounters d)"
  by (simp add: Let_def split: if_splits)

text \<open>Whatever the kernel does, a read that does not end the daemon delivered 128 characters 0 and 1.\<close>

lemma read_block_valid:
  assumes run: "read_block bld os argv i h (d, w) = Some (Returns x, s')"
    and rd: "sys_read os h read_size w = ((n, bs), w1)"
    and len: "n = int read_size \<Longrightarrow> length bs = read_size"
    and size: "length (buf d) = buf_size"
  shows "n = int read_size \<and> i < length (deviceCounters d) \<and> (\<exists>bits. bs = map ascii bits)"
proof -
  let ?d = "d\<lparr>buf := store_at (buf_pos d) bs (buf d)\<rparr>"
  have room: "buf_pos d + length bs \<le> buf_size"
    using run rd unfolding read_block_def by (simp split: if_splits)
  have n: "n = int read_size"
  proof (rule ccontr)
    assume "n \<noteq> int read_size"
    with run rd room show False
      unfolding read_block_def by (simp add: dseq_not_Returns fail_errno_not_Returns)
  qed
  have "\<exists>m. dseq (convert_bytes bld os argv i [0..<read_size]) m (?d, w1) = Some (Returns x, s')"
    using run rd room n unfolding read_block_def by auto
  then obtain s1 where conv: "convert_bytes bld os argv i [0..<read_size] (?d, w1) = Some (Returns (), s1)"
    unfolding dseq_def by (auto elim: dbind_Returns_cases)
  have "[0..<read_size] = 0 # [1..<read_size]"
    using upt_conv_Cons [of 0 read_size] by (simp add: read_size_def del: upt_rec_numeral)
  with conv have "convert_bytes bld os argv i (0 # [1..<read_size]) (?d, w1) = Some (Returns (), s1)"
    by (simp only:)
  from convert_bytes_counter [OF this] have i: "i < length (deviceCounters d)" by simp
  have valid: "bs ! j = 48 \<or> bs ! j = 49" if "j < length bs" for j
    using convert_bytes_valid [OF conv] that room size len [OF n]
    by (simp add: store_at_def nth_append)
  have "\<forall>v \<in> set bs. v = 48 \<or> v = 49"
    by (metis in_set_conv_nth valid)
  with n i ascii_list show ?thesis by blast
qed

lemma implements_cong:
  "implements d c \<Longrightarrow> buf d' = buf d \<Longrightarrow> buf_pos d' = buf_pos d \<Longrightarrow> buf_whitened d' = buf_whitened d \<Longrightarrow>
    buf_whitened_pos d' = buf_whitened_pos d \<Longrightarrow> buf_whitened_bit d' = buf_whitened_bit d \<Longrightarrow> implements d' c"
  by (cases c) (simp add: holds_bits_def)

lemma feeds_snoc_pair:
  "feeds c bss = (out, c') \<Longrightarrow> feeds c (bss @ [bs]) = (out @ fst (feed c' bs), snd (feed c' bs))"
  by (simp add: feeds_snoc case_prod_beta)

context daemon_env
begin

lemma read_block_runs:
  assumes "file_output bld" and "signed_char bld" and impl: "implements d (cur, pend)"
    and i: "i < length (deviceCounters d)"
    and rd: "sys_read os h read_size w = ((int read_size, map ascii bs), w1)"
    and bs: "length bs = read_size"
  shows "\<exists>d' w'. read_block bld os argv i h (d, w) = Some (Returns (), d', w') \<and>
    implements d' (snd (feed (cur, pend) bs)) \<and>
    appended (outFileHandle d) (fst (feed (cur, pend) bs)) w1 w' \<and>
    outFileHandle d' = outFileHandle d \<and> logFileHandle d' = logFileHandle d \<and>
    entFileHandles d' = entFileHandles d \<and> test_ent d' = test_ent d \<and>
    deviceCounters d' = (deviceCounters d)[i := counted (deviceCounters d ! i) bs]"
proof -
  let ?n = "length cur"
  let ?zs = "drop (?n + read_size) (buf d)"
  let ?cs = "(deviceCounters d)[i := counted (deviceCounters d ! i) bs]"
  have room: "?n + read_size \<le> buf_size"
    using impl by (auto simp: buf_size_def read_size_def dvd_def)
  have st: "store_at ?n (map ascii bs) (buf d) = map bitw cur @ map ascii bs @ ?zs"
    using impl bs by (simp add: store_at_def)
  let ?d1 = "d\<lparr>buf := map bitw cur @ map ascii bs @ ?zs\<rparr>"
  let ?d2 = "d\<lparr>buf := map bitw (cur @ bs) @ ?zs, deviceCounters := ?cs, buf_pos := ?n + read_size\<rparr>"
  have "convert_bytes bld os argv i [0..<0 + length bs] (?d1, w1) =
      Some (Returns (), ?d1\<lparr>buf := map bitw cur @ map bitw bs @ ?zs,
        deviceCounters := (deviceCounters ?d1)[i := counted (deviceCounters ?d1 ! i) bs]\<rparr>, w1)"
    using impl i by (intro convert_bytes_runs) simp_all
  then have conv: "convert_bytes bld os argv i [0..<read_size] (?d1, w1) =
      Some (Returns (), d\<lparr>buf := map bitw (cur @ bs) @ ?zs, deviceCounters := ?cs\<rparr>, w1)"
    using bs by simp
  have run: "read_block bld os argv i h (d, w) =
      dwhen (buf_size \<le> ?n + read_size) (process_block bld os) (?d2, w1)"
    unfolding read_block_def using impl rd bs room st conv
    by (simp add: dseq_Returns)
  have held: "holds_bits ?d2 pend" using impl by (simp add: holds_bits_def)
  show ?thesis
  proof (cases "?n + read_size < buf_size")
    case True
    moreover have "implements ?d2 (cur @ bs, pend)"
      using impl held bs True by simp
    ultimately show ?thesis
      using run bs by (simp add: appended_refl)
  next
    case False
    with room have full: "?n + read_size = buf_size" by simp
    then have "buf ?d2 = map bitw (cur @ bs)" and "length (cur @ bs) = buf_size"
      using impl bs by simp_all
    from process_block_runs [OF assms(1,2) held this, of w1] obtain w' where
      w': "process_block bld os (?d2, w1) =
          Some (Returns (), (whitened_by ?d2 pend (debias (cur @ bs)))\<lparr>buf_pos := 0\<rparr>, w')"
        "appended (outFileHandle d) (fst (absorb pend (debias (cur @ bs)))) w1 w'"
      by auto
    let ?d3 = "(whitened_by ?d2 pend (debias (cur @ bs)))\<lparr>buf_pos := 0\<rparr>"
    have "length pend < block_bits" using held by (simp add: holds_bits_def)
    from holds_whitened_by [OF this, of ?d2 "debias (cur @ bs)"]
    have "implements ?d3 ([], snd (absorb pend (debias (cur @ bs))))"
      using impl bs full by (simp add: holds_bits_def)
    moreover have "feed (cur, pend) bs =
        (fst (absorb pend (debias (cur @ bs))), ([], snd (absorb pend (debias (cur @ bs)))))"
      using full bs by (simp split: prod.split)
    ultimately show ?thesis using run full w' by simp
  qed
qed

subsubsection \<open>Logging\<close>

lemma log_message_runs:
  assumes "sys_timestr os w = (t, w1)" and "length (logentry os t msg w1) < 1024"
  shows "\<exists>w'. log_message bld os msg (d, w) = Some (Returns (), d, w') \<and>
    appended (logFileHandle d) (string_bytes (logentry os t msg w1)) w w'"
proof -
  let ?e = "string_bytes (logentry os t msg w1)"
  obtain r w' where wr: "sys_write os (logFileHandle d) ?e w1 = (r, w')" by fastforce
  from write_appends [OF wr] timestr_quiet [OF assms(1)]
  have "\<not> r < 0" "appended (logFileHandle d) ?e w w'" by (auto simp: appended_def)
  then show ?thesis
    using assms wr by (subst log_message.simps) simp
qed

lemma log_message_logs:
  assumes "log_message bld os msg (d, w) = Some (r, d', w')"
  shows "r = Returns () \<and> d' = d \<and> (\<exists>bs. appended (logFileHandle d) bs w w')"
proof -
  obtain t w1 where t: "sys_timestr os w = (t, w1)" by fastforce
  show ?thesis
  proof (cases "length (logentry os t msg w1) < 1024")
    case True
    with log_message_runs [OF t, of msg bld d] assms show ?thesis by auto
  next
    case False
    with assms t show ?thesis
      by (subst (asm) log_message.simps) simp
  qed
qed

subsubsection \<open>The invariant of the main loop\<close>

text \<open>
  \<open>gathered h0 c0 o0 (d, w)\<close>: since the devices' stream stood at \<open>c0\<close> and the output file \<open>h0\<close> at \<open>o0\<close>, whole
  reads of valid characters have been taken, and the daemon is where the abstract machine is.
\<close>

definition gathered :: "int \<Rightarrow> u8 list \<Rightarrow> u8 list \<Rightarrow> daemon \<times> 'w \<Rightarrow> bool" where
  "gathered h0 c0 o0 = (\<lambda>(d, w). outFileHandle d = h0 \<and> logFileHandle d \<noteq> h0 \<and>
     (\<exists>bss. read_sized bss \<and> consumed w = c0 @ map ascii (concat bss) \<and>
        implements d (snd (feeds ([], []) bss)) \<and>
        written h0 w = o0 @ fst (feeds ([], []) bss)))"

lemma gatheredI:
  "read_sized bss \<Longrightarrow> consumed w = c0 @ map ascii (concat bss) \<Longrightarrow> implements d (snd (feeds ([], []) bss)) \<Longrightarrow>
    written h0 w = o0 @ fst (feeds ([], []) bss) \<Longrightarrow> outFileHandle d = h0 \<Longrightarrow> logFileHandle d \<noteq> h0 \<Longrightarrow>
    gathered h0 c0 o0 (d, w)"
  unfolding gathered_def prod.case by blast

lemma gathered_quiet:
  "gathered h0 c0 o0 (d, w) \<Longrightarrow> consumed w' = consumed w \<Longrightarrow> (\<forall>h. written h w' = written h w) \<Longrightarrow>
    gathered h0 c0 o0 (d, w')"
  by (simp add: gathered_def)

lemma gathered_frame:
  assumes "gathered h0 c0 o0 (d, w)" and "buf d' = buf d" "buf_pos d' = buf_pos d"
    "buf_whitened d' = buf_whitened d" "buf_whitened_pos d' = buf_whitened_pos d"
    "buf_whitened_bit d' = buf_whitened_bit d" "outFileHandle d' = outFileHandle d"
    "logFileHandle d' = logFileHandle d"
  shows "gathered h0 c0 o0 (d', w)"
proof -
  have "implements d' c" if "implements d c" for c
    using implements_cong [OF that assms(2-6)] .
  with assms(1,7,8) show ?thesis by (simp add: gathered_def) blast
qed

lemma gathered_log: "keeps (gathered h0 c0 o0) (log_message bld os msg)"
  unfolding keeps_def
proof (intro allI impI)
  fix s x s'
  assume g: "gathered h0 c0 o0 s" and run: "log_message bld os msg s = Some (Returns x, s')"
  obtain d w d' w' where s: "s = (d, w)" "s' = (d', w')" by (cases s; cases s')
  from log_message_logs [OF run [unfolded s]] obtain bs where
    "d' = d" "appended (logFileHandle d) bs w w'" by blast
  with g s show "gathered h0 c0 o0 s'" by (simp add: gathered_def appended_def)
qed

lemma gathered_log_formatted: "keeps (gathered h0 c0 o0) (log_formatted bld os msg)"
  unfolding log_formatted_def set_logmessage_def
  by (intro keeps_intros gathered_log keeps_dmod) (rule gathered_frame, simp_all)

lemma gathered_device_stats: "keeps (gathered h0 c0 o0) (device_stats bld os argv is)"
proof (induction "is")
  case (Cons i "is")
  have "keeps (gathered h0 c0 o0) (dmod (\<lambda>d. d\<lparr>deviceCounters := (deviceCounters d)[i := (0, 0)]\<rparr>))"
    by (rule keeps_dmod) (rule gathered_frame, simp_all)
  with Cons show ?case
    unfolding device_stats.simps by (intro keeps_intros gathered_log_formatted)
qed (simp only: device_stats.simps keeps_trivial)

lemma gathered_entropy_stats:
  assumes "file_output bld"
  shows "keeps (gathered h0 c0 o0) (entropy_stats bld os argv)"
proof -
  have "keeps (gathered h0 c0 o0) (pool_stats bld os)"
    using assms by (simp add: pool_stats_def keeps_intros)
  moreover have "keeps (gathered h0 c0 o0) (ddo (sys_alarm os t))" for t
    by (rule keeps_ddo) (erule gathered_quiet, simp_all add: alarm_quiet)
  moreover have "keeps (gathered h0 c0 o0)
      (dmod (\<lambda>d. d\<lparr>test_ent := 0, ent_count := 0, num_zeros := 0, num_ones := 0\<rparr>))"
    by (rule keeps_dmod) (rule gathered_frame, simp_all)
  ultimately show ?thesis
    unfolding entropy_stats_def
    by (intro keeps_intros gathered_log_formatted gathered_device_stats)
qed

lemma gathered_read_block:
  assumes "file_output bld" and "signed_char bld"
  shows "keeps (gathered h0 c0 o0) (read_block bld os argv i h)"
  unfolding keeps_def
proof (intro allI impI)
  fix s x s'
  assume g: "gathered h0 c0 o0 s" and run: "read_block bld os argv i h s = Some (Returns x, s')"
  obtain d w where s: "s = (d, w)" by fastforce
  obtain n cs w1 where rd: "sys_read os h read_size w = ((n, cs), w1)" by (metis surj_pair)
  from g s obtain bss where bss: "read_sized bss" "consumed w = c0 @ map ascii (concat bss)"
      "implements d (snd (feeds ([], []) bss))"
      "written h0 w = o0 @ fst (feeds ([], []) bss)" "outFileHandle d = h0" "logFileHandle d \<noteq> h0"
    by (auto simp: gathered_def)
  obtain out cur pend where c: "feeds ([], []) bss = (out, cur, pend)" by (metis surj_pair)
  have size: "length (buf d) = buf_size" using bss(3) unfolding c by simp
  have len: "n = int read_size \<Longrightarrow> length cs = read_size" using read_consumes [OF rd] by simp
  from read_block_valid [OF run [unfolded s] rd len size] obtain bits where
    n: "n = int read_size" and i: "i < length (deviceCounters d)" and cs: "cs = map ascii bits" by blast
  have bits: "length bits = read_size" using len [OF n] cs by simp
  from read_block_runs [OF assms bss(3) [unfolded c snd_conv] i rd [unfolded n cs] bits, of argv] obtain d' w' where
    run': "read_block bld os argv i h (d, w) = Some (Returns (), d', w')"
    and fd: "implements d' (snd (feed (cur, pend) bits))"
      "appended (outFileHandle d) (fst (feed (cur, pend) bits)) w1 w'"
      "outFileHandle d' = outFileHandle d" "logFileHandle d' = logFileHandle d"
    by blast
  have s': "s' = (d', w')" using run run' s by simp
  note snoc = feeds_snoc_pair [OF c, of bits]
  have "read_sized (bss @ [bits])" using bss(1) bits by (auto simp: read_sized_def)
  moreover have "consumed w' = c0 @ map ascii (concat (bss @ [bits]))"
    using fd(2) read_consumes [OF rd] bss(2) cs by (simp add: appended_def)
  moreover have "written h0 w' = o0 @ fst (feeds ([], []) (bss @ [bits]))"
    using fd(2) bss(5) read_consumes [OF rd] bss(4) unfolding snoc c by (simp add: appended_def del: feed.simps)
  moreover have "implements d' (snd (feeds ([], []) (bss @ [bits])))" using fd(1) unfolding snoc by (simp del: feed.simps)
  ultimately show "gathered h0 c0 o0 s'"
    unfolding s' using fd(3,4) bss(5,6) by (intro gatheredI) simp_all
qed

lemma gathered_read_devices:
  assumes "file_output bld" and "signed_char bld"
  shows "keeps (gathered h0 c0 o0) (read_devices bld os argv is)"
proof (induction "is")
  case (Cons i "is")
  have "keeps (gathered h0 c0 o0) (dmod (\<lambda>d. d\<lparr>num_bytes := n\<rparr>))" for n
    by (rule keeps_dmod) (rule gathered_frame, simp_all)
  moreover have "keeps (gathered h0 c0 o0) (dsys (sys_fionread os h))" for h
    by (rule keeps_dsys) (metis gathered_quiet fionread_quiet)
  ultimately show ?case
    using Cons unfolding read_devices.simps by (intro keeps_intros gathered_read_block [OF assms])
qed (simp only: read_devices.simps keeps_trivial)

lemma gathered_main_iteration:
  assumes "file_output bld" and "signed_char bld"
  shows "keeps (gathered h0 c0 o0) (main_iteration bld os argv)"
proof -
  have "keeps (gathered h0 c0 o0) (ddo (sys_usleep os t))" for t
    by (rule keeps_ddo) (erule gathered_quiet, simp_all add: usleep_quiet)
  then show ?thesis
    unfolding main_iteration_def
    by (intro keeps_intros gathered_entropy_stats gathered_read_devices assms)
qed

lemma gathered_signal_handler: "keeps (gathered h0 c0 o0) (signal_handler bld os sig)"
proof -
  have sg: "keeps (gathered h0 c0 o0) (ddo (sys_signal os sig))" for sig
    by (rule keeps_ddo) (erule gathered_quiet, simp_all add: signal_quiet)
  have alrm: "keeps (gathered h0 c0 o0) (dmod (\<lambda>d. d\<lparr>test_ent := 1\<rparr>))"
    by (rule keeps_dmod) (rule gathered_frame, simp_all)
  show ?thesis
    unfolding signal_handler_def
    by (cases sig; simp only: signum.case; intro keeps_intros gathered_log gathered_log_formatted sg alrm)
qed

lemma gathered_start:
  assumes "implements d ([], [])" and "logFileHandle d \<noteq> outFileHandle d"
  shows "gathered (outFileHandle d) (consumed w) (written (outFileHandle d) w) (d, w)"
  using assms by (intro gatheredI [of "[]"]) (simp_all add: read_sized_def)

lemma gathered_output:
  assumes "gathered h0 c0 o0 (d, w)"
  shows "\<exists>bits. consumed w = c0 @ map ascii bits \<and> written h0 w = o0 @ mixed_chunks (debiased_blocks bits)"
proof -
  from assms obtain bss where bss: "read_sized bss" "consumed w = c0 @ map ascii (concat bss)"
      "written h0 w = o0 @ fst (feeds ([], []) bss)"
    unfolding gathered_def by blast
  have "fst (feeds ([], []) bss) = mixed_chunks (debiased_blocks (concat bss))"
    using feeds_output [OF bss(1), of "[]" "[]"] absorb_mixed_chunks
    by (simp add: block_bits_def whitened_size_def)
  with bss(2,3) show ?thesis by auto
qed

end

subsection \<open>The daemon as a transition system\<close>

text \<open>Between two iterations of the main loop any signal may have been handled.\<close>

inductive daemon_step :: "build \<Rightarrow> 'w os \<Rightarrow> string list \<Rightarrow> daemon \<times> 'w \<Rightarrow> daemon \<times> 'w \<Rightarrow> bool"
  for bld os argv where
  iteration: "main_iteration bld os argv s = Some (Returns (), s') \<Longrightarrow> daemon_step bld os argv s s'"
| signal: "signal_handler bld os sig s = Some (Returns (), s') \<Longrightarrow> daemon_step bld os argv s s'"

context daemon_env
begin

lemma gathered_steps:
  assumes "file_output bld" and "signed_char bld"
    and "(daemon_step bld os argv)\<^sup>*\<^sup>* s s'" and "gathered h0 c0 o0 s"
  shows "gathered h0 c0 o0 s'"
  using assms(3,4)
proof (induction rule: rtranclp_induct)
  case (step s1 s2)
  from step.hyps(2) step.IH [OF step.prems] show ?case
    by (cases rule: daemon_step.cases)
      (blast intro: keepsD [OF gathered_main_iteration [OF assms(1,2)]] keepsD [OF gathered_signal_handler])+
qed

end

subsection \<open>Progress\<close>

text \<open>The devices: when \<open>FIONREAD\<close> promises 128 characters, \<open>read\<close> delivers 128 characters 0 and 1.\<close>

definition delivers :: "'w os \<Rightarrow> bool" where
  "delivers os \<longleftrightarrow> (\<forall>h w n w1. sys_fionread os h w = (Some n, w1) \<and> int read_size \<le> n \<longrightarrow>
     (\<exists>bits w2. length bits = read_size \<and>
        sys_read os h read_size w1 = ((int read_size, map ascii bits), w2)))"

definition serving :: "nat \<Rightarrow> daemon \<Rightarrow> bool" where
  "serving n d \<longleftrightarrow> (\<exists>c. implements d c) \<and> length (entFileHandles d) = n \<and> length (deviceCounters d) = n \<and>
     test_ent d = 0"

lemma servingI:
  "implements d c \<Longrightarrow> length (entFileHandles d) = n \<Longrightarrow> length (deviceCounters d) = n \<Longrightarrow>
    test_ent d = 0 \<Longrightarrow> serving n d"
  unfolding serving_def by blast

lemma servingE:
  assumes "serving n d"
  obtains cur pend where "implements d (cur, pend)" "length (entFileHandles d) = n"
    "length (deviceCounters d) = n" "test_ent d = 0"
  using assms unfolding serving_def by (metis surj_pair)

context daemon_env
begin

lemma serving_read_block:
  assumes "file_output bld" and "signed_char bld" and "delivers os" and "serving n d" and "i < n"
    and "sys_fionread os h w = (Some m, w1)" and "int read_size \<le> m"
  shows "\<exists>d' w'. read_block bld os argv i h (d, w1) = Some (Returns (), d', w') \<and> serving n d'"
proof -
  from assms(3,6,7) obtain bits w2 where bits: "length bits = read_size"
      "sys_read os h read_size w1 = ((int read_size, map ascii bits), w2)"
    unfolding delivers_def by blast
  obtain cur pend where impl: "implements d (cur, pend)" and len: "length (entFileHandles d) = n"
      "length (deviceCounters d) = n" "test_ent d = 0"
    by (rule servingE [OF assms(4)])
  have i: "i < length (deviceCounters d)" using len assms(5) by simp
  from read_block_runs [OF assms(1,2) impl i bits(2,1), of argv] obtain d' w' where
    run: "read_block bld os argv i h (d, w1) = Some (Returns (), d', w')"
      "implements d' (snd (feed (cur, pend) bits))" "entFileHandles d' = entFileHandles d"
      "test_ent d' = test_ent d" "deviceCounters d' = (deviceCounters d)[i := counted (deviceCounters d ! i) bits]"
    by blast
  then have "serving n d'" using len by (intro servingI) simp_all
  with run(1) show ?thesis by blast
qed

lemma read_devices_runs:
  assumes "file_output bld" and "signed_char bld" and "delivers os"
    and "serving n d" and "\<forall>i \<in> set is. i < n"
  shows "\<exists>d' w'. read_devices bld os argv is (d, w) = Some (Returns (), d', w') \<and> serving n d'"
  using assms(4,5)
proof (induction "is" arbitrary: d w)
  case (Cons i "is")
  let ?h = "entFileHandles d ! i"
  obtain r w1 where f: "sys_fionread os ?h w = (r, w1)" by fastforce
  let ?d = "d\<lparr>num_bytes := case r of None \<Rightarrow> 0 | Some m \<Rightarrow> m\<rparr>"
  have i: "i < n" "i < length (entFileHandles d)" using Cons.prems by (auto simp: serving_def)
  have d: "serving n ?d"
    by (rule servingE [OF Cons.prems(1)], rule servingI, erule implements_cong) simp_all
  have unf: "read_devices bld os argv (i # is) (d, w) =
      dseq (dwhen (int read_size \<le> num_bytes ?d) (read_block bld os argv i ?h))
        (read_devices bld os argv is) (?d, w1)"
    using f i by (cases r) simp_all
  show ?case
  proof (cases "int read_size \<le> num_bytes ?d")
    case True
    then obtain m where r: "r = Some m" "int read_size \<le> m"
      by (cases r) (auto simp: read_size_def)
    from serving_read_block [OF assms(1-3) d i(1) f [unfolded r] r(2), of argv] obtain d' w' where
      "read_block bld os argv i ?h (?d, w1) = Some (Returns (), d', w')" "serving n d'" by blast
    with Cons.IH [of d' w'] Cons.prems(2) True unf show ?thesis by (simp add: dseq_Returns)
  next
    case False
    with Cons.IH [of ?d w1] Cons.prems(2) d unf show ?thesis by simp
  qed
qed simp

lemma main_iteration_runs:
  assumes "file_output bld" and "signed_char bld" and "delivers os" and "serving (length argv - 1) d"
  shows "\<exists>d' w'. main_iteration bld os argv (d, w) = Some (Returns (), d', w') \<and> serving (length argv - 1) d'"
proof -
  have "test_ent d = 0" using assms(4) by (simp add: serving_def)
  with read_devices_runs [OF assms, of "[0..<length argv - 1]" argv w] show ?thesis
    by (auto simp: main_iteration_def dseq_Returns)
qed

end

primrec iterations :: "build \<Rightarrow> 'w os \<Rightarrow> string list \<Rightarrow> nat \<Rightarrow> ('w, unit) dcomp" where
  "iterations bld os argv 0 = dret ()"
| "iterations bld os argv (Suc k) = dseq (main_iteration bld os argv) (iterations bld os argv k)"

context daemon_env
begin

lemma iterations_run:
  assumes "file_output bld" and "signed_char bld" and "delivers os" and "serving (length argv - 1) d"
  shows "\<exists>d' w'. iterations bld os argv k (d, w) = Some (Returns (), d', w') \<and> serving (length argv - 1) d'"
  using assms(4)
proof (induction k arbitrary: d w)
  case (Suc k)
  from main_iteration_runs [OF assms(1-3) Suc.prems, of w] obtain d' w' where
    "main_iteration bld os argv (d, w) = Some (Returns (), d', w')" "serving (length argv - 1) d'" by blast
  with Suc.IH [of d' w'] show ?case by (simp add: dseq_Returns)
qed simp

end

end
