(* ===== verification/Daemon_Errors.thy ===== *)
theory Daemon_Errors
  imports Daemon_Run
begin

text \<open>
  How the daemon starts and how it ends: the state \<open>startup\<close> hands to the main loop, the exits on a
  short read and on an invalid character, and the recursion of \<open>log_message\<close> on a failing log file.
\<close>

subsection \<open>Leaving\<close>

lemma exit_cleanup_exits: "\<exists>w'. exit_cleanup bld os v (d, w) = Some (Exits v, d, w')"
  by (simp add: exit_cleanup_def close_if_open_def dwhen_def)

text \<open>The two \<open>sprintf\<close> targets are large enough for the message and its log line.\<close>

definition loggable :: "'w os \<Rightarrow> string \<Rightarrow> 'w \<Rightarrow> bool" where
  "loggable os msg w \<longleftrightarrow> length msg < 1000 \<and>
     (case sys_timestr os w of (t, w1) \<Rightarrow> length (logentry os t msg w1) < 1024)"

context daemon_env
begin

lemma exit_cleanup_quiet:
  "\<exists>w'. exit_cleanup bld os v (d, w) = Some (Exits v, d, w') \<and> appended h [] w w'"
  by (simp add: exit_cleanup_def close_if_open_def dwhen_def appended_def close_quiet)

lemma log_formatted_runs:
  assumes "loggable os msg w"
  shows "\<exists>w' bs. log_formatted bld os msg (d, w) = Some (Returns (), d\<lparr>logmessage := msg\<rparr>, w') \<and>
    appended (logFileHandle d) bs w w'"
proof -
  obtain t w1 where t: "sys_timestr os w = (t, w1)" by fastforce
  with assms have len: "length msg < 1000" "length (logentry os t msg w1) < 1024"
    by (simp_all add: loggable_def)
  from log_message_runs [OF t len(2), of bld "d\<lparr>logmessage := msg\<rparr>"] len(1) show ?thesis
    by (auto simp: log_formatted_def set_logmessage_def dseq_Returns dcomp_defs)
qed

lemma log_then_exit:
  assumes "loggable os msg w"
  shows "\<exists>w' bs. dseq (log_formatted bld os msg) (exit_cleanup bld os c :: ('w, 'b) dcomp) (d, w) =
      Some (Exits c, d\<lparr>logmessage := msg\<rparr>, w') \<and> appended (logFileHandle d) bs w w'"
proof -
  from log_formatted_runs [OF assms, of bld d] obtain w1 bs where
    l: "log_formatted bld os msg (d, w) = Some (Returns (), d\<lparr>logmessage := msg\<rparr>, w1)"
      "appended (logFileHandle d) bs w w1" by blast
  from exit_cleanup_quiet [of bld c "d\<lparr>logmessage := msg\<rparr>" w1 "logFileHandle d"] obtain w2 where
    e: "(exit_cleanup bld os c :: ('w, 'b) dcomp) (d\<lparr>logmessage := msg\<rparr>, w1) =
        Some (Exits c, d\<lparr>logmessage := msg\<rparr>, w2)"
      "appended (logFileHandle d) [] w1 w2" by blast
  from l(1) e(1) appended_trans [OF l(2) e(2)] show ?thesis by (auto simp: dseq_Returns)
qed

lemma fail_errno_exits:
  assumes "loggable os (errno_text os msg w) w"
  shows "\<exists>w' bs. fail_errno bld os msg c (d, w) =
      Some (Exits c, d\<lparr>logmessage := errno_text os msg w\<rparr>, w') \<and> appended (logFileHandle d) bs w w'"
  using log_then_exit [OF assms, of bld c d] by (simp add: fail_errno_def)

lemma read_block_short:
  assumes rd: "sys_read os h read_size w = ((n, bs), w1)" and "n \<noteq> int read_size"
    and "implements d c"
    and fits: "loggable os (errno_text os (''<ERROR> Error reading from device: '' @ argv ! (i + 1) @
          ''. Recieved bytes: '' @ dec n @ ''.'') w1) w1"
  shows "\<exists>d' w' log. read_block bld os argv i h (d, w) = Some (Exits (-9), d', w') \<and>
    appended (logFileHandle d) log w1 w'"
proof -
  obtain cur pend where c: "c = (cur, pend)" by fastforce
  have "buf_pos d + length bs \<le> buf_size"
    using assms(3) read_consumes [OF rd] c by (auto simp: buf_size_def read_size_def dvd_def)
  moreover let ?d = "d\<lparr>buf := store_at (buf_pos d) bs (buf d)\<rparr>"
  from fail_errno_exits [OF fits, of bld "-9" ?d] obtain d' w' log where
    "fail_errno bld os (''<ERROR> Error reading from device: '' @ argv ! (i + 1) @
        ''. Recieved bytes: '' @ dec n @ ''.'') (-9) (?d, w1) = Some (Exits (-9) :: unit outcome, d', w')"
      "appended (logFileHandle d) log w1 w'" by auto
  ultimately show ?thesis
    using rd assms(2) unfolding read_block_def by (auto simp: dseq_Exits simp del: append.simps)
qed

end

subsection \<open>Invalid characters\<close>

lemma dseq_assoc: "dseq (dseq l m) n = dseq l (dseq m n)"
  by (rule ext) (auto simp: dseq_def dbind_def Option.bind_assoc split: outcome.split intro!: Option.bind_cong)

lemma dbind_dseq: "dseq (dbind l f) n = dbind l (\<lambda>x. dseq (f x) n)"
  by (rule ext) (auto simp: dseq_def dbind_def Option.bind_assoc split: outcome.split intro!: Option.bind_cong)

lemma convert_bytes_append:
  "convert_bytes bld os argv i (js @ ks) =
     dseq (convert_bytes bld os argv i js) (convert_bytes bld os argv i ks)"
proof (induction js)
  case (Cons j js)
  then show ?case by (simp only: append_Cons convert_bytes.simps Let_def dbind_dseq dseq_assoc)
qed (simp only: append_Nil convert_bytes.simps drun(6))

context daemon_env
begin

lemma read_block_invalid:
  assumes rd: "sys_read os h read_size w = ((int read_size, map ascii good @ c # rest), w1)"
    and c: "c \<noteq> 48" "c \<noteq> 49" and impl: "implements d m" and i: "i < length (deviceCounters d)"
    and fits: "loggable os (''<ERROR> Invalid input data from '' @ argv ! (i + 1) @ ''. Expect '' @
        quoted ''0'' @ '' and '' @ quoted ''1'' @ '' only. Recieved: '' @ dec (char_int (signed_char bld) c)) w1"
  shows "\<exists>d' w' log. read_block bld os argv i h (d, w) = Some (Exits (-11), d', w') \<and>
    appended (logFileHandle d) log w1 w'"
proof -
  let ?bs = "map ascii good @ c # rest"
  let ?g = "length good"
  obtain cur pend where m: "m = (cur, pend)" by fastforce
  have len: "length ?bs = read_size" using read_consumes [OF rd] by simp
  have room: "buf_pos d + length ?bs \<le> buf_size"
    using impl len m by (auto simp: buf_size_def read_size_def dvd_def)
  let ?zs = "drop (buf_pos d + read_size) (buf d)"
  let ?d1 = "d\<lparr>buf := store_at (buf_pos d) ?bs (buf d)\<rparr>"
  let ?d2 = "?d1\<lparr>buf := map bitw cur @ map bitw good @ (c # rest @ ?zs),
      deviceCounters := (deviceCounters ?d1)[i := counted (deviceCounters ?d1 ! i) good]\<rparr>"
  have "buf ?d1 = map bitw cur @ map ascii good @ (c # rest @ ?zs)"
    using impl m len by (simp add: store_at_def)
  then have conv: "convert_bytes bld os argv i [0..<0 + ?g] (?d1, w1) = Some (Returns (), ?d2, w1)"
    using impl m i by (intro convert_bytes_runs) simp_all
  have js: "[0..<read_size] = [0..<0 + ?g] @ ?g # [Suc ?g..<read_size]"
    using len upt_add_eq_append [of 0 ?g "read_size - ?g"] upt_conv_Cons [of ?g read_size] by simp
  from log_then_exit [OF fits, of bld "-11" ?d2] obtain d' w' log where
    ex: "dseq (log_formatted bld os (''<ERROR> Invalid input data from '' @ argv ! (i + 1) @ ''. Expect '' @
        quoted ''0'' @ '' and '' @ quoted ''1'' @ '' only. Recieved: '' @ dec (char_int (signed_char bld) c)))
        (exit_cleanup bld os (-11)) (?d2, w1) = Some (Exits (-11) :: unit outcome, d', w')"
      "appended (logFileHandle d) log w1 w'" by auto
  have pos: "buf_pos ?d2 + ?g < length (buf ?d2)" "buf ?d2 ! (buf_pos ?d2 + ?g) = c"
    using impl m by (simp_all add: nth_append)
  have "convert_bytes bld os argv i (?g # js) (?d2, w1) = Some (Exits (-11), d', w')" for js
    using ex(1) c pos i by (simp add: Let_def dseq_Exits del: append.simps)
  with conv have "convert_bytes bld os argv i [0..<read_size] (?d1, w1) = Some (Exits (-11), d', w')"
    unfolding js convert_bytes_append by (simp add: dseq_Returns del: convert_bytes.simps)
  with rd room ex(2) show ?thesis
    unfolding read_block_def by (auto simp: dseq_Exits)
qed

end


subsection \<open>A failing log file\<close>

lemma dbind_None: "m s = None \<Longrightarrow> dbind m f s = None"
  by (simp add: dbind_def)

lemma log_message_stuck:
  assumes fails: "\<And>bs w. fst (sys_write os (logFileHandle d) bs w) < 0"
  shows "log_message bld os msg (d, w) = None"
proof -
  have "\<not> (\<forall>bs w. fst (sys_write os (logFileHandle (fst s)) bs w) < 0)"
    if "log_message bld os msg s = Some y" for bld os msg s y
  proof (rule log_message.raw_induct [OF _ that], rule notI)
    fix log bld os msg s y
    assume IH: "\<And>bld os msg s y. log bld os msg s = Some y \<Longrightarrow>
        \<not> (\<forall>bs w. fst (sys_write os (logFileHandle (fst s)) bs w) < 0)"
      and run: "dbind (dsys (sys_timestr os)) (\<lambda>timestr. dbind (dask (logentry os timestr msg)) (\<lambda>entry.
         dbind (dassert (length entry < 1024)) (\<lambda>_. dbind (dget logFileHandle) (\<lambda>h.
         dbind (dsys (sys_write os h (string_bytes entry))) (\<lambda>m.
           if m < 0 then
             dbind (dask (errno_text os ''<ERROR> Error writing to log file.'')) (\<lambda>text.
             dbind (set_logmessage text) (\<lambda>_. dbind (log bld os text) (\<lambda>_. exit_cleanup bld os (-12))))
           else dret ()))))) s = Some y"
      and f: "\<forall>bs w. fst (sys_write os (logFileHandle (fst s)) bs w) < 0"
    obtain d w where s: "s = (d, w)" by fastforce
    obtain t w1 where t: "sys_timestr os w = (t, w1)" by fastforce
    obtain m w2 where m: "sys_write os (logFileHandle d) (string_bytes (logentry os t msg w1)) w1 = (m, w2)"
      by fastforce
    have neg: "m < 0" using f s m by (metis fst_conv)
    let ?text = "errno_text os ''<ERROR> Error writing to log file.'' w2"
    have "log bld os ?text (d\<lparr>logmessage := ?text\<rparr>, w2) = None"
      using IH [of bld os ?text "(d\<lparr>logmessage := ?text\<rparr>, w2)"] f s
      by (cases "log bld os ?text (d\<lparr>logmessage := ?text\<rparr>, w2)") simp_all
    then have "dbind (set_logmessage ?text) (\<lambda>_. dbind (log bld os ?text) (\<lambda>_. exit_cleanup bld os (-12)))
        (d, w2) = (None :: (unit outcome \<times> daemon \<times> _) option)"
      by (cases "length ?text < 1000") (simp_all add: set_logmessage_def dbind_None dbind_Returns)
    then show False
      using run s t m neg by (simp split: if_splits)
  qed
  with fails show ?thesis by (metis fst_conv not_None_eq)
qed

lemma log_message_retry:
  assumes "sys_timestr os w = (t, w1)" and "length (logentry os t msg w1) < 1024"
    and "sys_write os (logFileHandle d) (string_bytes (logentry os t msg w1)) w1 = (m, w2)" and "m < 0"
    and retry: "msg' = errno_text os ''<ERROR> Error writing to log file.'' w2" and "loggable os msg' w2"
    and "sys_timestr os w2 = (t', w3)"
    and "sys_write os (logFileHandle d) (string_bytes (logentry os t' msg' w3)) w3 = (m', w4)" and "0 \<le> m'"
  shows "\<exists>w'. log_message bld os msg (d, w) = Some (Exits (-12), d\<lparr>logmessage := msg'\<rparr>, w')"
proof -
  let ?d = "d\<lparr>logmessage := msg'\<rparr>"
  have second: "log_message bld os msg' (?d, w2) = Some (Returns (), ?d, w4)"
    using assms(6-9) by (subst log_message.simps) (simp add: loggable_def)
  have "set_logmessage msg' (d, w2) = Some (Returns (), ?d, w2)"
    using assms(6) by (simp add: set_logmessage_def loggable_def)
  then have "log_message bld os msg (d, w) = exit_cleanup bld os (-12) (?d, w4)"
    using assms(1-4) retry second by (subst log_message.simps) (simp add: dbind_Returns)
  then show ?thesis using exit_cleanup_exits by metis
qed

subsection \<open>Start-up\<close>

lemma dbind_not_Returns:
  "(\<And>x s1. f x s1 \<noteq> Some (Returns y, s')) \<Longrightarrow> dbind m f s \<noteq> Some (Returns y, s')"
  by (metis dbind_Returns_cases)

lemma log_message_Returns:
  assumes "log_message bld os msg (d, w) = Some (Returns x, d', w')"
  shows "d' = d"
proof -
  obtain t w1 where t: "sys_timestr os w = (t, w1)" by fastforce
  obtain m w2 where m: "sys_write os (logFileHandle d) (string_bytes (logentry os t msg w1)) w1 = (m, w2)"
    by fastforce
  show ?thesis
    using assms t m
    by (subst (asm) log_message.simps)
      (auto simp: dbind_not_Returns exit_cleanup_not_Returns split: if_splits)
qed

lemma log_formatted_Returns:
  "log_formatted bld os msg (d, w) = Some (Returns x, d', w') \<Longrightarrow> d' = d\<lparr>logmessage := msg\<rparr>"
  unfolding log_formatted_def set_logmessage_def dseq_assoc
  by (auto dest: log_message_Returns split: if_splits)

text \<open>Statements of a computation that returned.\<close>

lemma guard_Returns:
  "dseq (dwhen b (fail_errno bld os msg c)) m s = Some (Returns y, s') \<longleftrightarrow> \<not> b \<and> m s = Some (Returns y, s')"
  "dwhen b (fail_errno bld os msg c) s = Some (Returns u, s') \<longleftrightarrow> \<not> b \<and> s' = s"
  "dseq (dwhen b (exit_cleanup bld os c)) m s = Some (Returns y, s') \<longleftrightarrow> \<not> b \<and> m s = Some (Returns y, s')"
  "dseq (dwhen b (dseq k (exit_cleanup bld os c))) m s = Some (Returns y, s') \<longleftrightarrow> \<not> b \<and> m s = Some (Returns y, s')"
  by (cases b; auto simp: dseq_not_Returns fail_errno_not_Returns exit_cleanup_not_Returns
      dseq_exit_not_Returns)+

lemma dseq_Returns_cases:
  assumes "dseq m n s = Some (Returns y, s')"
  obtains d1 w1 where "m s = Some (Returns (), d1, w1)" and "n (d1, w1) = Some (Returns y, s')"
  using assms unfolding dseq_def by (rule dbind_Returns_cases) (metis old.unit.exhaust surj_pair)

lemma log_seq_Returns:
  assumes "dseq (log_message bld os msg) m (d, w) = Some (Returns y, s')"
  shows "\<exists>w1. m (d, w1) = Some (Returns y, s')"
  using assms by (rule dseq_Returns_cases) (auto dest: log_message_Returns)

lemma log_formatted_seq_Returns:
  assumes "dseq (log_formatted bld os msg) m (d, w) = Some (Returns y, s')"
  shows "\<exists>w1. m (d\<lparr>logmessage := msg\<rparr>, w1) = Some (Returns y, s')"
  using assms by (rule dseq_Returns_cases) (auto dest: log_formatted_Returns)

lemma open_device_Returns:
  assumes "open_device bld os path (d, w) = Some (Returns x, d', w')"
  shows "\<exists>h \<ge> 0. d' = d\<lparr>deviceCounters := deviceCounters d @ [(0, 0)], entFileHandles := entFileHandles d @ [h]\<rparr>"
  using assms unfolding open_device_def by (auto simp: guard_Returns not_less split: prod.splits)

lemma open_devices_Returns:
  assumes "open_devices bld os paths (d, w) = Some (Returns x, d', w')"
  shows "\<exists>hs. length hs = length paths \<and> (\<forall>h \<in> set hs. 0 \<le> h) \<and>
    d' = d\<lparr>deviceCounters := deviceCounters d @ replicate (length paths) (0, 0),
           entFileHandles := entFileHandles d @ hs\<rparr>"
  using assms
proof (induction paths arbitrary: d w)
  case (Cons path paths)
  from Cons.prems obtain d1 w1 where
    first: "open_device bld os path (d, w) = Some (Returns (), d1, w1)" and
    rest: "open_devices bld os paths (d1, w1) = Some (Returns x, d', w')"
    unfolding open_devices.simps by (rule dseq_Returns_cases)
  from open_device_Returns [OF first] obtain h where
    h: "0 \<le> h" "d1 = d\<lparr>deviceCounters := deviceCounters d @ [(0, 0)], entFileHandles := entFileHandles d @ [h]\<rparr>"
    by blast
  from Cons.IH [OF rest] obtain hs where "length hs = length paths" "\<forall>h \<in> set hs. 0 \<le> h"
      "d' = d1\<lparr>deviceCounters := deviceCounters d1 @ replicate (length paths) (0, 0),
           entFileHandles := entFileHandles d1 @ hs\<rparr>" by blast
  with h show ?case by (intro exI [of _ "h # hs"]) simp
qed simp

lemma daemonize_Returns:
  assumes "daemonize bld os (d, w) = Some (Returns x, d', w')"
  shows "\<exists>l \<ge> 0. \<exists>p \<ge> 0. d' = d\<lparr>logFileHandle := l, pidFileHandle := p\<rparr>"
  using assms unfolding daemonize_def
  by (auto simp: guard_Returns not_less split: prod.splits if_splits dest!: log_seq_Returns) blast

lemma open_output_Returns:
  assumes "open_output bld os (d, w) = Some (Returns x, d', w')"
  shows "\<exists>msg. \<exists>h \<ge> 0. d' = (if file_output bld then d\<lparr>logmessage := msg, outFileHandle := h\<rparr>
     else d\<lparr>rndFileHandle := h\<rparr>)"
  using assms unfolding open_output_def
  by (auto simp: guard_Returns not_less split: prod.splits if_splits
      dest!: log_seq_Returns log_formatted_seq_Returns) blast+

definition ready :: "build \<Rightarrow> nat \<Rightarrow> daemon \<Rightarrow> bool" where
  "ready bld n d \<longleftrightarrow> implements d ([], []) \<and> length (entFileHandles d) = n \<and> (\<forall>h \<in> set (entFileHandles d). 0 \<le> h) \<and>
     deviceCounters d = replicate n (0, 0) \<and> test_ent d = 0 \<and> ent_count d = 0 \<and> num_ones d = 0 \<and> num_zeros d = 0 \<and>
     0 \<le> logFileHandle d \<and> 0 \<le> pidFileHandle d \<and>
     0 \<le> (if file_output bld then outFileHandle d else rndFileHandle d)"

lemma startup_ready:
  assumes "startup bld os argv (daemon_init, w) = Some (Returns x, d, w')"
  shows "2 \<le> length argv \<and> ready bld (length argv - 1) d"
proof -
  note run = assms [unfolded startup_def guard_Returns]
  from run have argv: "2 \<le> length argv" by simp
  from run obtain d1 w1 w2 d2 w3 d3 w4 w5 d4 w6 msg where
    "daemonize bld os (daemon_init, w) = Some (Returns (), d1, w1)"
    "open_devices bld os (tl argv) (d1, w2) = Some (Returns (), d2, w3)"
    "open_output bld os (d2, w3) = Some (Returns (), d3, w4)"
    "log_formatted bld os msg (d3, w5) = Some (Returns (), d4, w6)"
    "log_message bld os ''<INFO> Entropy gathering daemon started.'' (d4, w6) = Some (Returns (), d, w')"
    by (auto elim!: dseq_Returns_cases simp del: append.simps)
  note parts = this
  from daemonize_Returns [OF parts(1)] obtain l p where lp: "0 \<le> l" "0 \<le> p"
      "d1 = daemon_init\<lparr>logFileHandle := l, pidFileHandle := p\<rparr>" by blast
  from open_devices_Returns [OF parts(2)] obtain hs where hs: "length hs = length argv - 1" "\<forall>h \<in> set hs. 0 \<le> h"
      "d2 = d1\<lparr>deviceCounters := deviceCounters d1 @ replicate (length argv - 1) (0, 0),
           entFileHandles := entFileHandles d1 @ hs\<rparr>" by auto
  from open_output_Returns [OF parts(3)] obtain msg' h where h: "0 \<le> h"
      "d3 = (if file_output bld then d2\<lparr>logmessage := msg', outFileHandle := h\<rparr> else d2\<lparr>rndFileHandle := h\<rparr>)"
    by blast
  have d: "d = d3\<lparr>logmessage := msg\<rparr>"
    using log_formatted_Returns [OF parts(4)] log_message_Returns [OF parts(5)] by simp
  have "implements d ([], [])"
    by (rule implements_cong [OF implements_init]) (simp_all add: d h(2) hs(3) lp(3))
  then show ?thesis
    using argv lp(1,2) hs(1,2) h(1) unfolding ready_def
    by (simp add: d h(2) hs(3) lp(3)) (simp add: daemon_init_def)
qed

text \<open>The exits of \<open>main\<close> before anything is opened.\<close>

lemma startup_usage:
  assumes "length argv < 2"
  shows "startup bld os argv (daemon_init, w) = Some (Exits (-7), daemon_init,
    sys_printf os (''Please provide the tty device(s) as the argument(s). EX: '' @ argv ! 0 @ '' /dev/tty.usbSerial0'' @ crlf) w)"
  using assms unfolding startup_def
  by (simp add: dseq_Exits exit_cleanup_def close_if_open_def daemon_init_def del: append.simps)

lemma startup_fork:
  assumes "2 \<le> length argv" and "sys_fork os w = (pid, w1)" and "pid \<noteq> 0"
  shows "startup bld os argv (daemon_init, w) = Some (Exits (if pid < 0 then -2 else 0), daemon_init, w1)"
  using assms unfolding startup_def daemonize_def
  by (simp add: dseq_Exits exit_cleanup_def close_if_open_def daemon_init_def del: append.simps)

end
