(* ===== verification/Daemon_Sim.thy ===== *)
theory Daemon_Sim
  imports Daemon_Errors
begin

text \<open>
  A small kernel on which the daemon can run: files are appended to, every device hands out bits of
  one pending stream, each sent as the character \<open>enc\<close> gives. It provides the interface
  \<open>daemon_env\<close> for every \<open>enc\<close>, and delivers when \<open>enc\<close> is the firmware's encoding.
\<close>

record sim =
  pending :: "bool list"
  taken :: "u8 list"
  files :: "(int \<times> u8) list"
  next_fd :: int

definition sim_written :: "int \<Rightarrow> sim \<Rightarrow> u8 list" where
  "sim_written h w = map snd (filter (\<lambda>p. fst p = h) (files w))"

definition sim_os :: "(bool \<Rightarrow> u8) \<Rightarrow> sim os" where
  "sim_os enc =
     \<lparr>sys_open = (\<lambda>path flags mode w. (next_fd w, w\<lparr>next_fd := next_fd w + 1\<rparr>)),
      sys_close = (\<lambda>h w. w),
      sys_read = (\<lambda>h n w. let bs = map enc (take n (pending w)) in
        ((int (length bs), bs), w\<lparr>pending := drop n (pending w), taken := taken w @ bs\<rparr>)),
      sys_write = (\<lambda>h bs w. (int (length bs), w\<lparr>files := files w @ map (Pair h) bs\<rparr>)),
      sys_fionread = (\<lambda>h w. (Some (int (length (pending w))), w)),
      sys_tty_bits = linux_tty_bits,
      sys_tcgetattr = (\<lambda>h w. ((0, \<lparr>c_cflag = 0, c_iflag = 0, c_lflag = 0, c_oflag = 0\<rparr>), w)),
      sys_tcsetattr = (\<lambda>h tty w. (0, w)),
      sys_dtr = (\<lambda>h req w. (0, w)),
      sys_rndaddentropy = (\<lambda>h info w. (0, w)),
      sys_rndgetentcnt = (\<lambda>h w. ((0, 0), w)),
      sys_fork = (\<lambda>w. (0, w)),
      sys_umask = (\<lambda>m w. w),
      sys_setsid = (\<lambda>w. (1, w)),
      sys_chdir = (\<lambda>path w. (0, w)),
      sys_lockf = (\<lambda>h w. (0, w)),
      sys_signal = (\<lambda>sig w. w),
      sys_alarm = (\<lambda>t w. w),
      sys_usleep = (\<lambda>t w. w),
      sys_printf = (\<lambda>msg w. w),
      sys_getpid = (\<lambda>w. 1),
      sys_errno = (\<lambda>w. 5),
      sys_strerror = (\<lambda>e. ''Input/output error''),
      sys_strsignal = (\<lambda>sig. ''signal''),
      sys_timestr = (\<lambda>w. (''Thu Jan  1 00:00:00 1970'', w)),
      sys_ratio = (\<lambda>a b. ''0.500000''),
      sys_entropy = (\<lambda>z n. ''1.000000'')\<rparr>"

interpretation simulated: daemon_env "sim_os enc" sim_written taken
  by unfold_locales (auto simp: sim_os_def sim_written_def Let_def comp_def)

lemma sim_delivers: "delivers (sim_os ascii)"
  unfolding delivers_def by (auto simp: sim_os_def Let_def min_absorb2 intro!: exI [of _ "take read_size _"])

definition sim_start :: "bool list \<Rightarrow> sim" where
  "sim_start bits = \<lparr>pending = bits, taken = [], files = [], next_fd = 3\<rparr>"

definition file_build :: build where
  "file_build = \<lparr>file_output = True, platform = Linux, signed_char = True\<rparr>"

text \<open>The state \<open>startup\<close> leaves for one device, with the log, PID, device and output handles 3 to 6.\<close>

definition sim_daemon :: daemon where
  "sim_daemon = daemon_init\<lparr>logFileHandle := 3, pidFileHandle := 4, outFileHandle := 6,
     entFileHandles := [5], deviceCounters := [(0, 0)]\<rparr>"

lemma sim_daemon_implements: "implements sim_daemon ([], [])"
  by (rule implements_cong [OF implements_init]) (simp_all add: sim_daemon_def)

lemma sim_daemon_serving: "serving 1 sim_daemon"
  by (rule servingI [OF sim_daemon_implements]) (simp_all add: sim_daemon_def daemon_init_def)

subsection \<open>Starting up on it\<close>

definition sim_argv :: "string list" where
  "sim_argv = [''k7nvh_rng'', ''/dev/ttyACM0'']"

lemma sim_env: "daemon_env (sim_os enc) sim_written taken"
  by (rule simulated.daemon_env_axioms)

lemma sim_os_simps [simp]:
  "sys_open (sim_os enc) path flags mode w = (next_fd w, w\<lparr>next_fd := next_fd w + 1\<rparr>)"
  "sys_close (sim_os enc) h w = w"
  "sys_write (sim_os enc) h bs w = (int (length bs), w\<lparr>files := files w @ map (Pair h) bs\<rparr>)"
  "sys_tcgetattr (sim_os enc) h w = ((0, \<lparr>c_cflag = 0, c_iflag = 0, c_lflag = 0, c_oflag = 0\<rparr>), w)"
  "sys_tcsetattr (sim_os enc) h tty w = (0, w)"
  "sys_dtr (sim_os enc) h req w = (0, w)"
  "sys_fork (sim_os enc) w = (0, w)"
  "sys_umask (sim_os enc) m w = w"
  "sys_setsid (sim_os enc) w = (1, w)"
  "sys_chdir (sim_os enc) path w = (0, w)"
  "sys_lockf (sim_os enc) h w = (0, w)"
  "sys_signal (sim_os enc) sig w = w"
  "sys_alarm (sim_os enc) t w = w"
  "sys_getpid (sim_os enc) w = 1"
  "sys_timestr (sim_os enc) w = (''Thu Jan  1 00:00:00 1970'', w)"
  by (simp_all add: sim_os_def)

lemma dec_1: "dec 1 = ''1''"
  by code_simp

lemma dec_60: "dec 60 = ''60''"
  by code_simp

lemma sim_log_message:
  assumes "length msg < 900"
  shows "log_message bld (sim_os enc) msg (d, w) = Some (Returns (), d,
    w\<lparr>files := files w @ map (Pair (logFileHandle d)) (string_bytes (logentry (sim_os enc) ''Thu Jan  1 00:00:00 1970'' msg w))\<rparr>)"
  using assms by (subst log_message.simps) (simp add: logentry_def dec_1 crlf_def)

lemma sim_log_formatted:
  assumes "length msg < 900"
  shows "log_formatted bld (sim_os enc) msg (d, w) = Some (Returns (), d\<lparr>logmessage := msg\<rparr>,
    w\<lparr>files := files w @ map (Pair (logFileHandle d)) (string_bytes (logentry (sim_os enc) ''Thu Jan  1 00:00:00 1970'' msg w))\<rparr>)"
  using assms by (simp add: log_formatted_def set_logmessage_def dseq_assoc sim_log_message)

definition sim_bits :: "bool list" where
  "sim_bits = replicate read_size True"

lemma sim_daemonize:
  "\<exists>w. daemonize file_build (sim_os ascii) (daemon_init, sim_start bits) =
    Some (Returns (), daemon_init\<lparr>logFileHandle := 3, pidFileHandle := 4\<rparr>, w) \<and> next_fd w = 5"
  unfolding daemonize_def by (simp add: dseq_Returns sim_log_message sim_start_def dec_1)

lemma sim_open_device:
  "open_device file_build (sim_os ascii) path (d, w) =
    Some (Returns (), d\<lparr>deviceCounters := deviceCounters d @ [(0, 0)], entFileHandles := entFileHandles d @ [next_fd w]\<rparr>,
      w\<lparr>next_fd := next_fd w + 1\<rparr>)" if "0 \<le> next_fd w"
  unfolding open_device_def using that by simp

lemma sim_open_output:
  "\<exists>w'. open_output file_build (sim_os ascii) (d, w) = Some (Returns (), d\<lparr>logmessage :=
     ''<INFO> Saving generated entropy to /tmp/k7nvh_rng_out in lieu of kernel pool.'', outFileHandle := next_fd w\<rparr>, w')"
  if "0 \<le> next_fd w"
  unfolding open_output_def using that by (simp add: file_build_def dseq_Returns sim_log_formatted)

lemma sim_startup:
  "\<exists>d w. startup file_build (sim_os ascii) sim_argv (daemon_init, sim_start bits) = Some (Returns (), d, w) \<and>
    logFileHandle d = 3 \<and> outFileHandle d = 6"
proof -
  obtain w where w: "daemonize file_build (sim_os ascii) (daemon_init, sim_start bits) =
      Some (Returns (), daemon_init\<lparr>logFileHandle := 3, pidFileHandle := 4\<rparr>, w)" "next_fd w = 5"
    using sim_daemonize [of bits] by blast
  let ?d = "daemon_init\<lparr>logFileHandle := 3, pidFileHandle := 4, deviceCounters := [(0, 0)], entFileHandles := [5]\<rparr>"
  obtain w' where w': "open_output file_build (sim_os ascii) (?d, w\<lparr>next_fd := 6\<rparr>) = Some (Returns (), ?d\<lparr>logmessage :=
     ''<INFO> Saving generated entropy to /tmp/k7nvh_rng_out in lieu of kernel pool.'', outFileHandle := 6\<rparr>, w')"
    using sim_open_output [of "w\<lparr>next_fd := 6\<rparr>" ?d] by auto
  have "open_devices file_build (sim_os ascii) (tl sim_argv)
      (daemon_init\<lparr>logFileHandle := 3, pidFileHandle := 4\<rparr>, w) = Some (Returns (), ?d, w\<lparr>next_fd := 6\<rparr>)"
    using sim_open_device [of w] w(2) by (simp add: sim_argv_def dseq_Returns daemon_init_def)
  moreover have "ent_est_interval ?d = 60" by (simp add: daemon_init_def)
  ultimately show ?thesis
    unfolding startup_def using w w'
    by (simp add: dseq_Returns sim_log_message sim_log_formatted dec_60 sim_argv_def)
qed

end
