(* ===== verification/Daemon_Theorems.thy ===== *)
theory Daemon_Theorems
  imports Daemon_Sim
begin

text \<open>
  What the entropy daemon does, stated over its definitions for any kernel that provides the
  interface \<open>daemon_env\<close> (and, where noted, for any kernel at all); the witnesses run it on the
  simulated kernel.
\<close>

lemma ready_serving: "ready bld n d \<Longrightarrow> serving n d"
  unfolding ready_def by (intro servingI [of _ "([], [])"]) simp_all

lemma daemon_gathers:
  assumes "daemon_env os written consumed" and "file_output bld" and "signed_char bld"
    and "startup bld os argv (daemon_init, w) = Some (Returns (), d0, w0)"
    and "logFileHandle d0 \<noteq> outFileHandle d0"
    and "(daemon_step bld os argv)\<^sup>*\<^sup>* (d0, w0) (d1, w1)"
  shows "outFileHandle d1 = outFileHandle d0 \<and> (\<exists>bits. consumed w1 = consumed w0 @ map ascii bits \<and>
    written (outFileHandle d0) w1 = written (outFileHandle d0) w0 @ mixed_chunks (debiased_blocks bits))"
proof -
  have "implements d0 ([], [])" using startup_ready [OF assms(4)] by (simp add: ready_def)
  from daemon_env.gathered_start [OF assms(1) this assms(5)]
  have "daemon_env.gathered written consumed (outFileHandle d0) (consumed w0) (written (outFileHandle d0) w0) (d1, w1)"
    using daemon_env.gathered_steps [OF assms(1-3,6)] by blast
  then show ?thesis
    using daemon_env.gathered_output [OF assms(1)] unfolding daemon_env.gathered_def [OF assms(1)] by blast
qed

text \<open>
  C6: whatever signals arrive between iterations, at every moment of a run the output file holds,
  appended to what it held after start-up, exactly the mixed 512-byte chunks of the debiased blocks
  of the bits the devices have delivered since then, and only characters 0 and 1 have been taken.
\<close>

theorem daemon_output:
  assumes "daemon_env os written consumed" and "file_output bld" and "signed_char bld"
    and "startup bld os argv (daemon_init, w) = Some (Returns (), d0, w0)"
    and "logFileHandle d0 \<noteq> outFileHandle d0"
    and "(daemon_step bld os argv)\<^sup>*\<^sup>* (d0, w0) (d1, w1)"
  shows "outFileHandle d1 = outFileHandle d0 \<and> (\<exists>bits. consumed w1 = consumed w0 @ map ascii bits \<and>
    written (outFileHandle d0) w1 = written (outFileHandle d0) w0 @ mixed_chunks (debiased_blocks bits))"
  by (rule daemon_gathers [OF assms])

theorem daemon_output_witness:
  "\<exists>d0 w0 d1 w1. startup file_build (sim_os ascii) sim_argv (daemon_init, sim_start sim_bits) = Some (Returns (), d0, w0) \<and>
    main_iteration file_build (sim_os ascii) sim_argv (d0, w0) = Some (Returns (), d1, w1) \<and>
    outFileHandle d1 = outFileHandle d0 \<and> (\<exists>bits. taken w1 = taken w0 @ map ascii bits \<and>
    sim_written (outFileHandle d0) w1 = sim_written (outFileHandle d0) w0 @ mixed_chunks (debiased_blocks bits))"
proof -
  have build: "file_output file_build" "signed_char file_build" by (simp_all add: file_build_def)
  obtain d0 w0 where st: "startup file_build (sim_os ascii) sim_argv (daemon_init, sim_start sim_bits) =
      Some (Returns (), d0, w0)" and h: "logFileHandle d0 \<noteq> outFileHandle d0"
    using sim_startup [of sim_bits] by fastforce
  have "serving (length sim_argv - 1) d0" using startup_ready [OF st] ready_serving by blast
  from simulated.main_iteration_runs [OF build sim_delivers this] obtain d1 w1 where
    it: "main_iteration file_build (sim_os ascii) sim_argv (d0, w0) = Some (Returns (), d1, w1)" by blast
  then have "(daemon_step file_build (sim_os ascii) sim_argv)\<^sup>*\<^sup>* (d0, w0) (d1, w1)"
    by (intro r_into_rtranclp daemon_step.iteration)
  from daemon_output [OF sim_env build st h this] st it show ?thesis by blast
qed



text \<open>
  C7: reading 128 characters from device \<open>i\<close> implements one step of the abstract machine: the daemon's
  buffers hold the machine's new state, the output file grows by the machine's output, and exactly
  this device's two counters advance by its zeros and ones.
\<close>

theorem read_block_refines:
  assumes "daemon_env os written consumed" and "file_output bld" and "signed_char bld"
    and "implements d c" and "i < length (deviceCounters d)"
    and "sys_read os h read_size w = ((int read_size, map ascii bs), w1)" and "length bs = read_size"
  shows "\<exists>d' w'. read_block bld os argv i h (d, w) = Some (Returns (), d', w') \<and>
    implements d' (snd (feed c bs)) \<and>
    written (outFileHandle d) w' = written (outFileHandle d) w1 @ fst (feed c bs) \<and>
    deviceCounters d' = (deviceCounters d)[i := counted (deviceCounters d ! i) bs]"
proof -
  obtain cur pend where c: "c = (cur, pend)" by fastforce
  from daemon_env.read_block_runs [OF assms(1-3) assms(4) [unfolded c] assms(5-7), of argv] obtain d' w' where
    "read_block bld os argv i h (d, w) = Some (Returns (), d', w')" "implements d' (snd (feed c bs))"
    "daemon_env.appended written consumed (outFileHandle d) (fst (feed c bs)) w1 w'"
    "deviceCounters d' = (deviceCounters d)[i := counted (deviceCounters d ! i) bs]"
    unfolding c by blast
  then show ?thesis unfolding daemon_env.appended_def [OF assms(1)] by blast
qed

theorem read_block_refines_witness:
  "\<exists>d' w'. read_block file_build (sim_os ascii) sim_argv 0 5 (sim_daemon, sim_start sim_bits) = Some (Returns (), d', w') \<and>
    implements d' (sim_bits, []) \<and> deviceCounters d' = [(0, 128)]"
proof -
  have build: "file_output file_build" "signed_char file_build" by (simp_all add: file_build_def)
  have len: "length sim_bits = read_size" by (simp add: sim_bits_def)
  have i: "0 < length (deviceCounters sim_daemon)" by (simp add: sim_daemon_def)
  obtain w1 where rd: "sys_read (sim_os ascii) 5 read_size (sim_start sim_bits) =
      ((int read_size, map ascii sim_bits), w1)"
    using len by (simp add: sim_os_def sim_start_def Let_def)
  have "length sim_bits < buf_size" by (simp add: len read_size_def buf_size_def)
  then have "feed ([], []) sim_bits = ([], (sim_bits, []))" by simp
  moreover have "ones (replicate n True) = n" for n by (induction n) simp_all
  then have "counted (0, 0) sim_bits = (0, 128)"
    unfolding counted_def sim_bits_def by (simp add: read_size_def)
  ultimately show ?thesis
    using read_block_refines [OF sim_env build sim_daemon_implements i rd len, of sim_argv]
    by (auto simp: sim_daemon_def simp del: implements.simps)
qed







text \<open>
  C18: on a log file that cannot be written, logging never returns and never reaches its own exit: the
  error message about the log is logged again, without end.
\<close>

theorem failing_log_never_exits:
  assumes "\<And>bs w. fst (sys_write os (logFileHandle d) bs w) < 0"
  shows "log_message bld os msg (d, w) = None"
  using assms by (rule log_message_stuck)

theorem failing_log_never_exits_witness:
  "log_message file_build ((sim_os ascii)\<lparr>sys_write := \<lambda>h bs w. (-1, w)\<rparr>) ''<INFO>'' (sim_daemon, sim_start []) = None"
  by (rule failing_log_never_exits) simp

text \<open>
  C13: start-up hands a clean state to the main loop. For any kernel, if \<open>main\<close> reaches the loop then
  there was at least one device argument, each device has a valid handle and cleared counters, the
  log, PID and output files are open, and every buffer and counter is empty.
\<close>

theorem startup_establishes:
  assumes "startup bld os argv (daemon_init, w) = Some (Returns x, d, w')"
  shows "2 \<le> length argv \<and> ready bld (length argv - 1) d"
  using assms by (rule startup_ready)

theorem startup_establishes_witness:
  "\<exists>d w. startup file_build (sim_os ascii) sim_argv (daemon_init, sim_start []) = Some (Returns (), d, w) \<and>
    ready file_build 1 d"
proof -
  obtain d w where st: "startup file_build (sim_os ascii) sim_argv (daemon_init, sim_start []) = Some (Returns (), d, w)"
    using sim_startup [of "[]"] by blast
  from startup_establishes [OF st] st show ?thesis by (auto simp: sim_argv_def)
qed


end
