(* ===== verification/Utilities.thy ===== *)
theory Utilities
  imports AMLS_Theorems Daemon_Stream
begin

text \<open>
  The command line filters under \<open>utilities\<close>, as functions from the bytes of the input to the bytes
  they print. The end of the list is the end of the file; a failing \<open>read\<close> is outside the model.
  \<open>read\<close> of one byte into an \<open>int\<close> variable stores its low byte (a little-endian host), the only part
  the tools use.
\<close>

subsection \<open>ascii\_hex\_to\_bin.c\<close>

text \<open>\<open>None\<close> is the call of \<open>abort\<close>.\<close>

definition hexval :: "u8 \<Rightarrow> u8 option" where
  "hexval c =
     (if 48 \<le> c \<and> c \<le> 57 then Some (c - 48)
      else if 65 \<le> c \<and> c \<le> 70 then Some (c - 65 + 10)
      else if 97 \<le> c \<and> c \<le> 102 then Some (c - 97 + 10)
      else None)"

datatype util_end = Finished | Aborted

text \<open>The two variables are \<open>signed char\<close>, so the byte 0xFF compares equal to \<open>EOF\<close>.\<close>

fun hex_to_bin_main :: "u8 list \<Rightarrow> u8 list \<times> util_end" where
  "hex_to_bin_main (byte1 # byte2 # inp) =
     (if char_int True byte1 = -1 then ([], Finished)
      else if char_int True byte2 = -1 then ([], Finished)
      else case (hexval byte1, hexval byte2) of
        (Some h1, Some h2) \<Rightarrow>
          (case hex_to_bin_main inp of (out, e) \<Rightarrow> ((push_bit 4 h1 + h2) # out, e))
      | _ \<Rightarrow> ([], Aborted))"
| "hex_to_bin_main _ = ([], Finished)"

subsection \<open>ascii\_to\_bin.c\<close>

fun read_bits :: "nat \<Rightarrow> u8 \<Rightarrow> u8 list \<Rightarrow> u8 \<times> bool \<times> u8 list" where
  "read_bits 0 v inp = (v, False, inp)"
| "read_bits (Suc n) v [] = (v, True, [])"
| "read_bits (Suc n) v (c # inp) = read_bits n (push_bit 1 v OR (if c = 48 then 0 else 1)) inp"

definition read_uint8 :: "u8 list \<Rightarrow> u8 \<times> bool \<times> u8 list" where
  "read_uint8 inp = read_bits 8 0 inp"

lemma read_bits_rest: "(v', False, rest) = read_bits n v inp \<Longrightarrow> length rest + n = length inp"
  by (induction n v inp rule: read_bits.induct) auto

function ascii_to_bin_main :: "u8 list \<Rightarrow> u8 list" where
  "ascii_to_bin_main inp =
     (case read_uint8 inp of (v, reached_eof, rest) \<Rightarrow>
        if reached_eof then [] else v # ascii_to_bin_main rest)"
  by pat_completeness auto
termination
  by (relation "measure length") (auto simp: read_uint8_def dest: read_bits_rest)

declare ascii_to_bin_main.simps [simp del]

subsection \<open>distribution.c\<close>

text \<open>The 256 counters are \<open>unsigned long\<close>; the text is what the \<open>printf\<close> calls print.\<close>

primrec distribution_loop :: "u64 list \<Rightarrow> u8 list \<Rightarrow> u64 list" where
  "distribution_loop dist [] = dist"
| "distribution_loop dist (b # inp) = distribution_loop (dist[unat b := dist ! unat b + 1]) inp"

definition distribution_main :: "u8 list \<Rightarrow> string" where
  "distribution_main inp =
     concat (map (\<lambda>c. dec (uint c) @ '' '') (distribution_loop (replicate 256 0) inp)) @ crlf"

subsection \<open>vonneumann.c\<close>

definition vn_step :: "u8 \<Rightarrow> nat \<Rightarrow> u8 \<times> nat \<Rightarrow> u8 list \<times> u8 \<times> nat" where
  "vn_step inp i = (\<lambda>(output, count).
     let c1 = drop_bit (7 - i * 2) inp AND 1;
         c2 = drop_bit (6 - i * 2) inp AND 1;
         count' = (if c1 = 0 \<and> c2 = 1 then count + 1 else count);
         (output, count) = (if c1 = 1 \<and> c2 = 0 then (output OR push_bit (7 - count') 1, count' + 1)
                            else (output, count'))
     in if count \<ge> 8 then ([output], 0, 0) else ([], output, count))"

primrec vn_byte :: "u8 \<Rightarrow> nat list \<Rightarrow> u8 \<times> nat \<Rightarrow> u8 list \<times> u8 \<times> nat" where
  "vn_byte inp [] s = ([], s)"
| "vn_byte inp (i # is) s =
     (case vn_step inp i s of (out, s') \<Rightarrow> case vn_byte inp is s' of (out', s'') \<Rightarrow> (out @ out', s''))"

primrec vonneumann_loop :: "u8 list \<Rightarrow> u8 \<times> nat \<Rightarrow> u8 list" where
  "vonneumann_loop [] s = []"
| "vonneumann_loop (b # inp) s =
     (case vn_byte b [0, 1, 2, 3] s of (out, s') \<Rightarrow> out @ vonneumann_loop inp s')"

definition vonneumann_main :: "u8 list \<Rightarrow> u8 list" where
  "vonneumann_main inp = vonneumann_loop inp (0, 0)"

subsection \<open>xor512.c\<close>

definition xor_size :: nat where
  "xor_size = 512"

function xor_read :: "nat \<Rightarrow> u8 list \<Rightarrow> u8 list \<Rightarrow> (u8 list \<times> u8 list) option" where
  "xor_read i bf inp =
     (if i < xor_size then
        case inp of [] \<Rightarrow> None | working # rest \<Rightarrow> xor_read (i + 1) (bf[i := working]) rest
      else Some (bf, inp))"
  by pat_completeness auto
termination
  by (relation "measure (\<lambda>(i, bf, inp). xor_size - i)") auto

function xor_write :: "nat \<Rightarrow> u8 list \<Rightarrow> u8 list \<Rightarrow> u8 list \<times> u8 list option" where
  "xor_write i bf inp =
     (if i < xor_size then
        case inp of [] \<Rightarrow> ([], None)
        | working # rest \<Rightarrow> (case xor_write (i + 1) bf rest of (out, r) \<Rightarrow> ((bf ! i XOR working) # out, r))
      else ([], Some inp))"
  by pat_completeness auto
termination
  by (relation "measure (\<lambda>(i, bf, inp). xor_size - i)") auto

declare xor_read.simps [simp del] xor_write.simps [simp del]

lemma xor_read_rest:
  "xor_read i bf inp = Some (bf', rest) \<Longrightarrow> length rest + (xor_size - i) = length inp"
proof (induction i bf inp rule: xor_read.induct)
  case (1 i bf inp)
  show ?case
  proof (cases "i < xor_size")
    case True
    then obtain w r where inp: "inp = w # r" and run: "xor_read (i + 1) (bf[i := w]) r = Some (bf', rest)"
      using "1.prems" by (simp add: xor_read.simps [of i] split: list.splits)
    from "1.IH" [OF True inp run] True inp show ?thesis by simp
  next
    case False
    with "1.prems" show ?thesis by (simp add: xor_read.simps [of i])
  qed
qed

lemma xor_write_rest: "xor_write i bf inp = (out, Some rest) \<Longrightarrow> length rest + (xor_size - i) = length inp"
proof (induction i bf inp arbitrary: out rule: xor_write.induct)
  case (1 i bf inp)
  show ?case
  proof (cases "i < xor_size")
    case True
    then obtain w r out' where inp: "inp = w # r" and run: "xor_write (i + 1) bf r = (out', Some rest)"
      using "1.prems" by (simp add: xor_write.simps [of i] split: list.splits prod.splits)
    from "1.IH" [OF True inp run] True inp show ?thesis by simp
  next
    case False
    with "1.prems" show ?thesis by (simp add: xor_write.simps [of i])
  qed
qed

function xor512_main :: "u8 list \<Rightarrow> u8 list \<Rightarrow> u8 list" where
  "xor512_main bf inp =
     (case xor_read 0 bf inp of None \<Rightarrow> []
      | Some (bf, rest) \<Rightarrow>
          (case xor_write 0 bf rest of (out, r) \<Rightarrow>
             out @ (case r of None \<Rightarrow> [] | Some rest' \<Rightarrow> xor512_main bf rest')))"
  by pat_completeness auto
termination
  by (relation "measure (\<lambda>(bf, inp). length inp)")
    (auto dest!: xor_read_rest xor_write_rest [OF sym] simp: xor_size_def)

declare xor512_main.simps [simp del]

subsection \<open>amls.c\<close>

function amls_read :: "nat \<Rightarrow> u8 list \<Rightarrow> u8 list \<Rightarrow> (u8 list \<times> u8 list) option" where
  "amls_read i bf inp =
     (if i < amls_array_len then
        case inp of [] \<Rightarrow> None | working # rest \<Rightarrow> amls_read (i + 1) (bf[i := working - 48]) rest
      else Some (bf, inp))"
  by pat_completeness auto
termination
  by (relation "measure (\<lambda>(i, bf, inp). amls_array_len - i)") auto

function amls_print :: "u8 carray \<Rightarrow> nat \<Rightarrow> u8 list option" where
  "amls_print res i =
     (if i < amls_array_len then do {
        v \<leftarrow> rd res i;
        if char_int True v = -1 then Some [] else do { out \<leftarrow> amls_print res (i + 1); Some ((v + 48) # out) }
      } else Some [])"
  by pat_completeness auto
termination
  by (relation "measure (\<lambda>(res, i). amls_array_len - i)") auto

declare amls_read.simps [simp del] amls_print.simps [simp del]

partial_function (option) amls_main :: "u8 list \<Rightarrow> u8 list \<Rightarrow> u8 list option" where
  "amls_main bf inp =
     (case amls_read 0 bf inp of None \<Rightarrow> Some []
      | Some (bf, rest) \<Rightarrow> do {
          result \<leftarrow> amls_int8 (initialised bf) amls_array_len;
          out \<leftarrow> amls_print result 0;
          out' \<leftarrow> amls_main bf rest;
          Some (out @ out')
        })"

end
