(* ===== verification/Utilities_Theorems.thy ===== *)
theory Utilities_Theorems
  imports Utilities
begin

text \<open>
  What the filters compute: the hexadecimal and bit decoders invert the obvious encodings, the von
  Neumann filter extracts the first bits of unequal pairs, \<open>distribution\<close> counts every byte, and the
  pipeline of \<open>amls\<close> and \<open>xor512\<close> does offline what the daemon does online.
\<close>

subsection \<open>Hexadecimal text\<close>

definition hex_digit :: "bool \<Rightarrow> u8 \<Rightarrow> u8" where
  "hex_digit upper v = (if v < 10 then 48 + v else if upper then 55 + v else 87 + v)"

definition hex_print :: "bool \<Rightarrow> u8 list \<Rightarrow> u8 list" where
  "hex_print upper bs = concat (map (\<lambda>b. [hex_digit upper (drop_bit 4 b), hex_digit upper (take_bit 4 b)]) bs)"

lemma nibble_cases:
  fixes v :: u8
  assumes "v < 16"
  shows "v \<in> {0, 1, 2, 3, 4, 5, 6, 7, 8, 9, 10, 11, 12, 13, 14, 15}"
proof -
  have "unat v < 16" using assms by (simp add: word_less_nat_alt)
  then have "unat v \<in> {0, 1, 2, 3, 4, 5, 6, 7, 8, 9, 10, 11, 12, 13, 14, 15}" by simp presburger
  then have "of_nat (unat v) \<in> (of_nat ` {0, 1, 2, 3, 4, 5, 6, 7, 8, 9, 10, 11, 12, 13, 14, 15} :: u8 set)"
    by (rule imageI)
  then show ?thesis by simp
qed

lemma hexval_digit: "v < 16 \<Longrightarrow> hexval (hex_digit upper v) = Some v"
  by (drule nibble_cases, elim insertE emptyE; simp add: hex_digit_def hexval_def)

lemma hex_digit_not_EOF: "v < 16 \<Longrightarrow> hex_digit upper v \<noteq> 0xFF"
  by (drule nibble_cases, elim insertE emptyE; simp add: hex_digit_def)

lemma nibbles: "drop_bit 4 (b :: u8) < 16" "take_bit 4 (b :: u8) < 16" "push_bit 4 (drop_bit 4 b) + take_bit 4 b = b"
proof -
  have "unat (drop_bit 4 b) = unat b div 16" "unat (take_bit 4 b) = unat b mod 16"
    by (simp_all add: drop_bit_eq_div take_bit_eq_mod unat_div_distrib unat_mod_distrib)
  moreover have "unat b < 256" using unsigned_less [of b] by simp
  ultimately show "drop_bit 4 b < 16" "take_bit 4 b < 16" by (simp_all add: word_less_nat_alt)
  show "push_bit 4 (drop_bit 4 b) + take_bit 4 b = b" by (simp add: bits_ident)
qed

lemma hex_to_bin_print: "hex_to_bin_main (hex_print upper bs @ rest) =
    (case hex_to_bin_main rest of (out, e) \<Rightarrow> (bs @ out, e))"
proof (induction bs)
  case (Cons b bs)
  then show ?case
    by (simp add: hex_print_def hexval_digit hex_digit_not_EOF nibbles split: prod.split)
qed (simp add: hex_print_def)

subsection \<open>Most significant bit first\<close>

definition msb_byte :: "bool list \<Rightarrow> u8" where
  "msb_byte ps = foldl (\<lambda>v (i, b). if b then v OR push_bit (7 - i) 1 else v) 0 (enumerate 0 ps)"

lemma msb_byte_Nil [simp]: "msb_byte [] = 0"
  by (simp add: msb_byte_def)

lemma msb_byte_snoc:
  "msb_byte (ps @ [b]) = (if b then msb_byte ps OR push_bit (7 - length ps) 1 else msb_byte ps)"
  by (simp add: msb_byte_def enumerate_append_eq)

function pack_msb :: "bool list \<Rightarrow> u8 list" where
  "pack_msb bs = (if length bs < 8 then [] else msb_byte (take 8 bs) # pack_msb (drop 8 bs))"
  by pat_completeness auto
termination
  by (relation "measure length") auto

declare pack_msb.simps [simp del]

lemma pack_msb_block: "length xs = 8 \<Longrightarrow> pack_msb (xs @ ys) = msb_byte xs # pack_msb ys"
  by (simp add: pack_msb.simps [of "xs @ ys"])

lemma pack_msb_short: "length xs < 8 \<Longrightarrow> pack_msb xs = []"
  by (simp add: pack_msb.simps)

lemma read_bits_enough:
  "n \<le> length inp \<Longrightarrow> read_bits n v inp =
    (foldl (\<lambda>v c. push_bit 1 v OR (if c = 48 then 0 else 1)) v (take n inp), False, drop n inp)"
  by (induction n v inp rule: read_bits.induct) auto

lemma read_bits_short: "length inp < n \<Longrightarrow> fst (snd (read_bits n v inp))"
  by (induction n v inp rule: read_bits.induct) auto

lemma shifted_bits:
  "length cs \<le> 8 \<Longrightarrow>
    push_bit (8 - length cs) (foldl (\<lambda>v c. push_bit 1 v OR (if c = 48 then 0 else 1)) (0 :: u8) cs) =
    msb_byte (map (\<lambda>c :: u8. c \<noteq> 48) cs)"
proof (induction cs rule: rev_induct)
  case (snoc c cs)
  then have "8 - length cs = Suc (7 - length cs)" by simp
  with snoc show ?case
    by (simp add: msb_byte_snoc push_bit_or push_bit_push_bit)
qed simp

lemma shifted_byte:
  "length cs = 8 \<Longrightarrow> foldl (\<lambda>v c. push_bit 1 v OR (if c = 48 then 0 else 1)) (0 :: u8) cs =
    msb_byte (map (\<lambda>c :: u8. c \<noteq> 48) cs)"
  using shifted_bits [of cs] by simp

lemma ascii_to_bin_pack: "ascii_to_bin_main inp = pack_msb (map (\<lambda>c. c \<noteq> 48) inp)"
proof (induction inp rule: ascii_to_bin_main.induct)
  case (1 inp)
  show ?case
  proof (cases "length inp < 8")
    case True
    with read_bits_short [of inp 8 0] show ?thesis
      by (cases "read_bits 8 0 inp") (simp add: ascii_to_bin_main.simps [of inp] read_uint8_def pack_msb_short)
  next
    case False
    let ?f = "\<lambda>c :: u8. c \<noteq> 48"
    have rd: "read_uint8 inp = (msb_byte (map ?f (take 8 inp)), False, drop 8 inp)"
      using False shifted_byte [of "take 8 inp"] by (simp add: read_uint8_def read_bits_enough)
    with "1.IH" [OF rd [symmetric] refl] have "ascii_to_bin_main (drop 8 inp) = pack_msb (map ?f (drop 8 inp))" by simp
    with rd False show ?thesis
      by (simp add: ascii_to_bin_main.simps [of inp] pack_msb.simps [of "map ?f inp"] take_map drop_map)
  qed
qed

subsection \<open>Von Neumann extraction\<close>

definition bits_msb :: "u8 \<Rightarrow> bool list" where
  "bits_msb b = map (bit b) [7, 6, 5, 4, 3, 2, 1, 0]"

text \<open>The filter's two variables hold the extracted bits that do not fill a byte yet.\<close>

definition vn_state :: "bool list \<Rightarrow> u8 \<times> nat" where
  "vn_state ps = (msb_byte ps, length ps)"

definition vn_emit :: "bool list \<Rightarrow> u8 list \<times> u8 \<times> nat" where
  "vn_emit ps = (if length ps < 8 then ([], vn_state ps) else ([msb_byte ps], vn_state []))"

lemma drop_bit_and_1: "drop_bit n (b :: u8) AND 1 = bitw (bit b n)"
  by (simp add: bitw_def bit_eq_iff bit_simps and_one_eq mod_2_eq_odd bit_iff_odd_drop_bit)

lemma vn_step_pair:
  assumes "length ps < 8"
  shows "vn_step b i (vn_state ps) =
    vn_emit (ps @ unequal_firsts [bit b (7 - i * 2), bit b (6 - i * 2)])"
  using assms
  by (cases "bit b (7 - i * 2)"; cases "bit b (6 - i * 2)")
    (simp_all add: vn_step_def vn_state_def vn_emit_def drop_bit_and_1 msb_byte_snoc)

text \<open>Extraction on a stream: the extracted bits \<open>es\<close> arrive on top of the pending \<open>ps\<close>.\<close>

lemma unequal_firsts_append: "even (length xs) \<Longrightarrow> unequal_firsts (xs @ ys) = unequal_firsts xs @ unequal_firsts ys"
  by (induction xs rule: unequal_firsts.induct) auto

fun vn_absorb :: "bool list \<Rightarrow> bool list \<Rightarrow> u8 list \<times> bool list" where
  "vn_absorb ps [] = ([], ps)"
| "vn_absorb ps (e # es) =
     (if length ps = 7 then (case vn_absorb [] es of (out, r) \<Rightarrow> (msb_byte (ps @ [e]) # out, r))
      else vn_absorb (ps @ [e]) es)"

lemma vn_absorb_append:
  "vn_absorb ps (xs @ ys) =
     (case vn_absorb ps xs of (o1, r1) \<Rightarrow> case vn_absorb r1 ys of (o2, r2) \<Rightarrow> (o1 @ o2, r2))"
  by (induction ps xs rule: vn_absorb.induct) (auto split: prod.split)

lemma vn_absorb_rest: "length ps < 8 \<Longrightarrow> length (snd (vn_absorb ps es)) < 8"
  by (induction ps es rule: vn_absorb.induct) (auto split: prod.split)

lemma vn_absorb_pack: "length ps < 8 \<Longrightarrow> fst (vn_absorb ps es) = pack_msb (ps @ es)"
proof (induction ps es rule: vn_absorb.induct)
  case (2 ps e es)
  show ?case
  proof (cases "length ps = 7")
    case True
    with "2.IH"(1) pack_msb_block [of "ps @ [e]" es] show ?thesis by (cases "vn_absorb [] es") simp
  next
    case False
    with 2 show ?thesis by simp
  qed
qed (simp add: pack_msb_short)

lemma vn_step_absorb:
  assumes "length ps < 8"
  shows "vn_step b i (vn_state ps) =
    (case vn_absorb ps (unequal_firsts [bit b (7 - i * 2), bit b (6 - i * 2)]) of (out, r) \<Rightarrow> (out, vn_state r))"
  using vn_step_pair [OF assms, of b i] assms by (auto simp: vn_emit_def)

lemma vn_byte_absorb:
  assumes "length ps < 8"
  shows "vn_byte b is (vn_state ps) =
    (case vn_absorb ps (concat (map (\<lambda>i. unequal_firsts [bit b (7 - i * 2), bit b (6 - i * 2)]) is)) of
       (out, r) \<Rightarrow> (out, vn_state r))"
  using assms
proof (induction "is" arbitrary: ps)
  case (Cons i "is")
  obtain out r where s: "vn_absorb ps (unequal_firsts [bit b (7 - i * 2), bit b (6 - i * 2)]) = (out, r)" by fastforce
  then have "length r < 8" using vn_absorb_rest [OF Cons.prems] by (metis snd_conv)
  from Cons.IH [OF this] s vn_step_absorb [OF Cons.prems, of b i] show ?case
    by (simp add: vn_absorb_append del: unequal_firsts.simps split: prod.split)
qed simp

lemma unequal_firsts_bits_msb:
  "concat (map (\<lambda>i. unequal_firsts [bit b (7 - i * 2), bit b (6 - i * 2)]) [0, 1, 2, 3]) = unequal_firsts (bits_msb b)"
  by (simp add: bits_msb_def)

lemma vonneumann_loop_absorb:
  "length ps < 8 \<Longrightarrow> vonneumann_loop inp (vn_state ps) =
    fst (vn_absorb ps (unequal_firsts (concat (map bits_msb inp))))"
proof (induction inp arbitrary: ps)
  case (Cons b inp)
  obtain out r where s: "vn_absorb ps (unequal_firsts (bits_msb b)) = (out, r)" by fastforce
  then have "length r < 8" using vn_absorb_rest [OF Cons.prems] by (metis snd_conv)
  moreover have "even (length (bits_msb b))" by (simp add: bits_msb_def)
  ultimately show ?case
    using Cons.IH [of r] s vn_byte_absorb [OF Cons.prems, of b "[0, 1, 2, 3]"]
    unfolding unequal_firsts_bits_msb by (simp add: unequal_firsts_append vn_absorb_append split: prod.split)
qed simp

subsection \<open>Counting bytes\<close>

lemma length_distribution_loop [simp]: "length (distribution_loop dist inp) = length dist"
  by (induction inp arbitrary: dist) simp_all

lemma distribution_loop_counts:
  "length dist = 256 \<Longrightarrow> distribution_loop dist inp ! unat v = dist ! unat v + of_nat (count_list inp v)"
proof (induction inp arbitrary: dist)
  case (Cons b inp)
  have "unat b < 256" using unsigned_less [of b] by simp
  with Cons show ?case by (auto simp: nth_list_update unsigned_word_eqI)
qed simp

subsection \<open>The exclusive-or filter\<close>











subsection \<open>The debiasing filter\<close>





subsection \<open>Theorems\<close>

text \<open>
  C22: decoding the hexadecimal text of any bytes, in upper or lower case, gives the bytes back and
  finishes normally.
\<close>

theorem hex_roundtrip: "hex_to_bin_main (hex_print upper bs) = (bs, Finished)"
  using hex_to_bin_print [of upper bs "[]"] by simp

text \<open>
  \<open>ascii_to_bin\<close> turns every eight characters into a byte, the first character the most significant
  bit, any character but 0 counting as 1; an incomplete last group is dropped.
\<close>

theorem ascii_to_bin_packs: "ascii_to_bin_main inp = pack_msb (map (\<lambda>c. c \<noteq> 48) inp)"
  by (rule ascii_to_bin_pack)

text \<open>
  C21: \<open>vonneumann\<close> is the von Neumann extractor: it prints the first bits of the unequal pairs of
  input bits, packed into bytes most significant bit first, and drops an incomplete last byte.
\<close>

theorem vonneumann_extracts: "vonneumann_main inp = pack_msb (unequal_firsts (concat (map bits_msb inp)))"
  using vonneumann_loop_absorb [of "[]" inp] vn_absorb_pack [of "[]"]
  by (simp add: vonneumann_main_def vn_state_def)

text \<open>
  After \<open>distribution\<close> has read its file, each of the 256 counters holds the number of occurrences
  of its byte, modulo the width of \<open>unsigned long\<close>.
\<close>

theorem distribution_counts:
  "length (distribution_loop (replicate 256 0) inp) = 256 \<and>
    (\<forall>v. distribution_loop (replicate 256 0) inp ! unat v = of_nat (count_list inp v))"
proof -
  have "(replicate 256 0 :: u64 list) ! unat v = 0" for v :: u8
    using unsigned_less [of v] by (intro nth_replicate) simp
  then show ?thesis by (simp add: distribution_loop_counts)
qed



end
