(* ===== verification/Utilities_IO.thy ===== *)
theory Utilities_IO
  imports Daemon_Sim
begin

text \<open>
  The two tools that talk to devices: \<open>read_serial_port.c\<close>, which copies what a device sends to
  standard output, and \<open>ent_pool.c\<close>, which tries the kernel's entropy pool. Both run on the kernel
  record of the daemon; what they print on standard output by \<open>fwrite\<close> is part of their result.
\<close>

subsection \<open>read\_serial\_port.c\<close>

text \<open>\<open>exit_cleanup\<close>: the exit code and the world after closing the device.\<close>

definition serial_cleanup :: "'w os \<Rightarrow> int \<Rightarrow> int \<Rightarrow> 'w \<Rightarrow> int \<times> 'w" where
  "serial_cleanup os h v w = (v, if h > 0 then sys_close os h w else w)"

definition serial_fail :: "'w os \<Rightarrow> int \<Rightarrow> string \<Rightarrow> string \<Rightarrow> int \<Rightarrow> 'w \<Rightarrow> int \<times> 'w" where
  "serial_fail os h msg tail v w = serial_cleanup os h v (sys_printf os (errno_text os msg w @ tail) w)"

text \<open>\<open>main\<close> up to the loop: the handle of the device, or the code the process ends with.\<close>

definition serial_open :: "build \<Rightarrow> 'w os \<Rightarrow> string list \<Rightarrow> 'w \<Rightarrow> (int + int) \<times> 'w" where
  "serial_open bld os argv w =
     (if length argv < 2 then
        (Inl 1, sys_printf os (''Please provide the tty device as an argument. EX: '' @ argv ! 0 @
           '' /dev/tty.usbSerial0'' @ crlf) w)
      else case sys_open os (argv ! 1) {O_RDONLY, O_NONBLOCK, O_NOCTTY} 0 w of (h, w) \<Rightarrow>
        if h < 0 then
          apfst Inl (serial_fail os h (''<ERROR> Could not open the tty device, '' @ argv ! 1 @ ''.'') '''' (-8) w)
        else case sys_tcgetattr os h w of ((r, tty), w) \<Rightarrow>
        if r \<noteq> 0 then apfst Inl (serial_fail os h ''Could not get tty device attributes.'' crlf (-5) w)
        else case sys_tcsetattr os h (tty_settings (sys_tty_bits os) tty) w of (r, w) \<Rightarrow>
        if r \<noteq> 0 then apfst Inl (serial_fail os h ''Could not set tty device attributes.'' crlf (-6) w)
        else case sys_dtr os h (fst (dtr_pulse (platform bld))) w of (r, w) \<Rightarrow>
        if r \<noteq> 0 then apfst Inl (serial_fail os h ''<ERROR> Could not assert DTR.'' '''' (-16) w)
        else case sys_dtr os h (snd (dtr_pulse (platform bld))) w of (r, w) \<Rightarrow>
        if r \<noteq> 0 then apfst Inl (serial_fail os h ''<ERROR> Could not clear DTR.'' '''' (-17) w)
        else (Inr h, w))"

text \<open>One round of the loop: the code \<open>main\<close> returns, if it does, and the bytes printed.\<close>

definition serial_round :: "'w os \<Rightarrow> int \<Rightarrow> 'w \<Rightarrow> (int option \<times> u8 list) \<times> 'w" where
  "serial_round os h w =
     (case sys_fionread os h w of (r, w) \<Rightarrow>
      let num_bytes = (case r of Some n \<Rightarrow> n | None \<Rightarrow> 0) in
      if num_bytes \<ge> 128 then
        case sys_read os h 128 w of ((n, bs), w) \<Rightarrow>
        if n < 0 then
          ((Some 3, []), sys_printf os (errno_text os ''Error reading from tty device.'' w @ crlf) w)
        else if n < 128 then
          ((Some 4, []), sys_printf os (''Error reading from tty device. Fewer bytes than expected. Num bytes: '' @ dec n) w)
        else ((None, take (nat n) bs), w)
      else ((None, []), sys_usleep os (100 * 1000) w))"

primrec serial_loop :: "'w os \<Rightarrow> int \<Rightarrow> nat \<Rightarrow> 'w \<Rightarrow> (int option \<times> u8 list) \<times> 'w" where
  "serial_loop os h 0 w = ((None, []), w)"
| "serial_loop os h (Suc k) w =
     (case serial_round os h w of ((r, out), w) \<Rightarrow>
        if r = None then (case serial_loop os h k w of ((r, out'), w) \<Rightarrow> ((r, out @ out'), w))
        else ((r, out), w))"

subsection \<open>ent\_pool.c\<close>

definition ent_pool_apple :: "'w os \<Rightarrow> int \<Rightarrow> 'w \<Rightarrow> int option \<times> 'w" where
  "ent_pool_apple os fd w =
     (case sys_read os fd 1 w of ((n, bs), w) \<Rightarrow>
      if n < 0 then (Some 3, sys_printf os (errno_text os ''Error reading from /dev/random device.'' w @ crlf) w)
      else if n < 1 then
        (Some 4, sys_printf os (''Error reading from /dev/random device. Fewer bytes than expected. Num bytes: '' @ dec n) w)
      else
      let w = sys_printf os (''Read '' @ dec n @ '' bytes from /dev/random.'' @ crlf) w in
      case sys_write os fd bs w of (m, w) \<Rightarrow>
      if m < 0 then (Some 3, sys_printf os (errno_text os ''Error writing to /dev/random device.'' w @ crlf) w)
      else if m < 1 then
        (Some 4, sys_printf os (''Error writing to /dev/random device. Fewer bytes than expected. Num bytes: '' @ dec m) w)
      else (None, sys_printf os (''Wrote '' @ dec m @ '' bytes to /dev/random.'' @ crlf) w))"

definition ent_pool_count :: "'w os \<Rightarrow> int \<Rightarrow> 'w \<Rightarrow> int option \<times> 'w" where
  "ent_pool_count os fd w =
     (case sys_rndgetentcnt os fd w of ((r, count), w) \<Rightarrow>
      if r < 0 then (Some 2, sys_printf os (errno_text os ''Could not read the entropy count.'' w @ crlf) w)
      else (None, sys_printf os (''Entropy Pool Size: '' @ dec count @ crlf) w))"

definition ent_pool_linux :: "'w os \<Rightarrow> int \<Rightarrow> 'w \<Rightarrow> int option \<times> 'w" where
  "ent_pool_linux os fd w =
     (case ent_pool_count os fd w of (Some v, w) \<Rightarrow> (Some v, w) | (None, w) \<Rightarrow>
      case sys_rndaddentropy os fd (8, 1, 42) w of (r, w) \<Rightarrow>
      if r < 0 then (Some 5, sys_printf os (errno_text os ''Could not add entropy to the pool.'' w @ crlf) w)
      else ent_pool_count os fd w)"

definition ent_pool_main :: "build \<Rightarrow> 'w os \<Rightarrow> 'w \<Rightarrow> int \<times> 'w" where
  "ent_pool_main bld os w =
     (case sys_open os ''/dev/random'' {O_RDWR} 0 w of (fd, w) \<Rightarrow>
      if fd < 0 then (1, sys_printf os (errno_text os ''Could not open the /dev/random device.'' w @ crlf) w)
      else case (case platform bld of Apple \<Rightarrow> ent_pool_apple os fd w | Linux \<Rightarrow> ent_pool_linux os fd w) of
        (Some v, w) \<Rightarrow> (v, w)
      | (None, w) \<Rightarrow> (0, sys_close os fd w))"

subsection \<open>Copying\<close>

context daemon_env
begin

lemma serial_round_copies:
  assumes "serial_round os h w = ((None, out), w')"
  shows "consumed w' = consumed w @ out"
proof -
  obtain r w1 where f: "sys_fionread os h w = (r, w1)" by fastforce
  obtain n bs w2 where rd: "sys_read os h 128 w1 = ((n, bs), w2)" by (metis surj_pair)
  show ?thesis
    using assms f rd fionread_quiet [OF f] read_consumes [OF rd] usleep_quiet(1)
    by (auto simp: serial_round_def Let_def split: if_splits)
qed

lemma serial_loop_copies:
  "serial_loop os h k w = ((None, out), w') \<Longrightarrow> consumed w' = consumed w @ out"
proof (induction k arbitrary: w out)
  case (Suc k)
  obtain r o1 w1 where s: "serial_round os h w = ((r, o1), w1)" by (metis surj_pair)
  obtain r2 o2 w2 where l: "serial_loop os h k w1 = ((r2, o2), w2)" by (metis surj_pair)
  from Suc.prems s l have "r = None" "r2 = None" "out = o1 @ o2" "w' = w2" by (auto split: if_splits)
  with Suc.IH [of w1 o2] serial_round_copies [of h w o1 w1] s l show ?case by simp
qed simp

end

text \<open>
  C23: \<open>read_serial_port\<close> copies faithfully: as long as it runs, what it has printed is exactly what it
  has taken from the device, in order, for any number of rounds.
\<close>

theorem serial_port_copies:
  assumes "daemon_env os written consumed" and "serial_loop os h k w = ((None, out), w')"
  shows "consumed w' = consumed w @ out"
  using daemon_env.serial_loop_copies [OF assms] .

theorem serial_port_copies_witness:
  "\<exists>out w'. serial_loop (sim_os ascii) 5 3 (sim_start (replicate 128 True)) = ((None, out), w') \<and>
    out = replicate 128 49 \<and> taken w' = out"
proof -
  have r1: "serial_round (sim_os ascii) 5 (sim_start (replicate 128 True)) =
      ((None, replicate 128 49), \<lparr>pending = [], taken = replicate 128 49, files = [], next_fd = 3\<rparr>)"
    by (simp add: serial_round_def sim_os_def sim_start_def Let_def ascii_def)
  have r2: "serial_round (sim_os ascii) 5 \<lparr>pending = [], taken = ts, files = [], next_fd = 3\<rparr> =
      ((None, []), \<lparr>pending = [], taken = ts, files = [], next_fd = 3\<rparr>)" for ts
    by (simp add: serial_round_def sim_os_def Let_def)
  have "serial_loop (sim_os ascii) 5 3 (sim_start (replicate 128 True)) =
      ((None, replicate 128 49), \<lparr>pending = [], taken = replicate 128 49, files = [], next_fd = 3\<rparr>)"
    using r1 r2 [of "replicate 128 49"] by (simp add: numeral_3_eq_3)
  with serial_port_copies [OF sim_env this] show ?thesis by (simp add: sim_start_def)
qed

end
