(* ===== verification/LUFA_Common.thy ===== *)
theory LUFA_Common
  imports RNG_Prelude
begin

text \<open>
  The byte and bit reordering functions every LUFA component uses: \<open>Common/Endianness.h\<close> and
  \<open>BitReverse\<close> of \<open>Common/Common.h\<close>. The unions of the source are the little-endian byte lists of
  the AVR.
\<close>

subsection \<open>Byte lists of words\<close>

definition bytes16 :: "u16 \<Rightarrow> u8 list" where
  "bytes16 w = [ucast w, ucast (drop_bit 8 w)]"

definition word16 :: "u8 list \<Rightarrow> u16" where
  "word16 bs = ucast (bs ! 0) OR push_bit 8 (ucast (bs ! 1))"

definition bytes32 :: "u32 \<Rightarrow> u8 list" where
  "bytes32 w = [ucast w, ucast (drop_bit 8 w), ucast (drop_bit 16 w), ucast (drop_bit 24 w)]"

definition word32 :: "u8 list \<Rightarrow> u32" where
  "word32 bs = ucast (bs ! 0) OR push_bit 8 (ucast (bs ! 1)) OR push_bit 16 (ucast (bs ! 2)) OR
     push_bit 24 (ucast (bs ! 3))"

lemma length_bytes [simp]: "length (bytes16 w) = 2" "length (bytes32 v) = 4"
  by (simp_all add: bytes16_def bytes32_def)

lemma byte_of_32:
  fixes n :: nat
  assumes "n < 32"
  obtains "n < 8" | "8 \<le> n" "n < 16" | "16 \<le> n" "n < 24" | "24 \<le> n" "n < 32"
  using assms by linarith

lemma bit_shifted_byte: "bit (push_bit k (ucast (b :: u8)) :: u32) n \<longleftrightarrow> k \<le> n \<and> n < 32 \<and> bit b (n - k)"
  by (auto simp: bit_simps not_le)

lemmas bit_bytes32 = bit_or_iff bit_shifted_byte bit_unsigned_iff bit_drop_bit_eq less_diff_conv2

lemma word16_bytes16 [simp]: "word16 (bytes16 w) = w"
  by (rule bit_word_eqI) (auto simp: word16_def bytes16_def bit_simps)

lemma word32_bytes32 [simp]: "word32 (bytes32 w) = w"
proof (rule bit_word_eqI)
  fix n
  assume "n < LENGTH(32)"
  then have "n < 32" by simp
  then show "bit (word32 (bytes32 w)) n \<longleftrightarrow> bit w n"
    by (cases rule: byte_of_32) (simp_all add: word32_def bytes32_def bit_bytes32)
qed

lemma bytes16_word16:
  assumes "length bs = 2"
  shows "bytes16 (word16 bs) = bs"
proof -
  from assms obtain a b where bs: "bs = [a, b]" by (auto simp: numeral_2_eq_2 length_Suc_conv)
  have "ucast (ucast a OR push_bit 8 (ucast b) :: u16) = a"
    and "ucast (drop_bit 8 (ucast a OR push_bit 8 (ucast b) :: u16)) = b"
    by (rule bit_word_eqI, auto simp: bit_simps dest: bit_imp_le_length)+
  then show ?thesis unfolding bs by (simp add: bytes16_def word16_def del: drop_bit_or)
qed

subsection \<open>Swapping\<close>

definition SWAPENDIAN_16 :: "u16 \<Rightarrow> u16" where
  "SWAPENDIAN_16 x = drop_bit 8 (x AND 0xFF00) OR push_bit 8 (x AND 0x00FF)"

definition SWAPENDIAN_32 :: "u32 \<Rightarrow> u32" where
  "SWAPENDIAN_32 x =
     drop_bit 24 (x AND 0xFF000000) OR drop_bit 8 (x AND 0x00FF0000) OR
     push_bit 8 (x AND 0x0000FF00) OR push_bit 24 (x AND 0x000000FF)"

definition SwapEndian_16 :: "u16 \<Rightarrow> u16" where
  "SwapEndian_16 w =
     (let bs = bytes16 w; temp = bs ! 0; bs = bs[0 := bs ! 1]; bs = bs[1 := temp] in word16 bs)"

definition SwapEndian_32 :: "u32 \<Rightarrow> u32" where
  "SwapEndian_32 w =
     (let bs = bytes32 w;
          temp = bs ! 0; bs = bs[0 := bs ! 3]; bs = bs[3 := temp];
          temp = bs ! 1; bs = bs[1 := bs ! 2]; bs = bs[2 := temp]
      in word32 bs)"

text \<open>The pointer moves up from \<open>pos\<close> while the length shrinks by two; \<open>None\<close> is an access outside.\<close>

function SwapEndian_n :: "u8 list \<Rightarrow> nat \<Rightarrow> u8 \<Rightarrow> u8 list option" where
  "SwapEndian_n bs pos n =
     (if n > 1 then
        let last = pos + unat n - 1 in
        if last < length bs
        then SwapEndian_n ((bs[pos := bs ! last])[last := bs ! pos]) (pos + 1) (n - 2)
        else None
      else Some bs)"
  by pat_completeness auto
termination
proof (relation "measure (\<lambda>(bs, pos, n). unat n)")
  fix bs :: "u8 list" and pos last :: nat and n :: u8
  assume "n > 1"
  then have "unat n > 1" and "2 \<le> n" by (simp_all add: word_less_nat_alt word_le_nat_alt)
  then show "(((bs[pos := bs ! last])[last := bs ! pos], pos + 1, n - 2), (bs, pos, n)) \<in>
      measure (\<lambda>(bs, pos, n). unat n)"
    by (simp add: unat_sub)
qed simp

declare SwapEndian_n.simps [simp del]

definition BitReverse :: "u8 \<Rightarrow> u8" where
  "BitReverse b =
     (let b = drop_bit 4 (b AND 0xF0) OR push_bit 4 (b AND 0x0F);
          b = drop_bit 2 (b AND 0xCC) OR push_bit 2 (b AND 0x33);
          b = drop_bit 1 (b AND 0xAA) OR push_bit 1 (b AND 0x55)
      in b)"

subsection \<open>What they compute\<close>

lemma below_8: "n < 8 \<Longrightarrow> n = 0 \<or> n = 1 \<or> n = 2 \<or> n = 3 \<or> n = 4 \<or> n = 5 \<or> n = 6 \<or> n = (7 :: nat)"
  by presburger

lemma bit_times_2: "bit (x * 2 :: u8) n \<longleftrightarrow> 0 < n \<and> n < 8 \<and> bit x (n - 1)"
proof -
  have "x * 2 = push_bit 1 x" by (simp add: push_bit_eq_mult)
  then have "bit (x * 2) n = bit (push_bit 1 x) n" by (simp only:)
  also have "\<dots> \<longleftrightarrow> 0 < n \<and> n < 8 \<and> bit x (n - 1)"
    unfolding bit_push_bit_iff by (auto simp: Suc_le_eq)
  finally show ?thesis .
qed

lemma bit_BitReverse: "n < 8 \<Longrightarrow> bit (BitReverse b) n \<longleftrightarrow> bit b (7 - n)"
  by (drule below_8, elim disjE; simp add: BitReverse_def Let_def bit_simps bit_times_2)

lemma BitReverse_involution: "BitReverse (BitReverse b) = b"
  by (rule bit_word_eqI) (simp add: bit_BitReverse)

lemma SwapEndian_16_bytes: "bytes16 (SwapEndian_16 w) = rev (bytes16 w)"
  by (simp add: SwapEndian_16_def Let_def bytes16_word16) (simp add: bytes16_def)

lemma SwapEndian_16_macro: "SwapEndian_16 w = SWAPENDIAN_16 w"
proof -
  have masks: "(0xFF00 :: u16) = push_bit 8 (mask 8)" "(0x00FF :: u16) = mask 8"
    by (simp_all add: mask_eq_exp_minus_1)
  show ?thesis
    unfolding SWAPENDIAN_16_def masks
    by (rule bit_word_eqI)
      (auto simp: SwapEndian_16_def word16_def bytes16_def Let_def bit_simps dest: bit_imp_le_length)
qed

lemma byte_masks:
  "(0xFF000000 :: u32) = push_bit 24 (mask 8)" "(0x00FF0000 :: u32) = push_bit 16 (mask 8)"
  "(0x0000FF00 :: u32) = push_bit 8 (mask 8)" "(0x000000FF :: u32) = mask 8"
  by (simp_all add: mask_eq_exp_minus_1)

lemma SwapEndian_32_macro: "SwapEndian_32 w = SWAPENDIAN_32 w"
proof (rule bit_word_eqI)
  fix n
  assume "n < LENGTH(32)"
  then have "n < 32" by simp
  then show "bit (SwapEndian_32 w) n \<longleftrightarrow> bit (SWAPENDIAN_32 w) n"
    unfolding SWAPENDIAN_32_def byte_masks
    by (cases rule: byte_of_32)
      (simp_all add: SwapEndian_32_def word32_def bytes32_def Let_def bit_bytes32 bit_and_iff bit_push_bit_iff bit_mask_iff)
qed

lemma SwapEndian_n_reverses:
  "unat n = length mid \<Longrightarrow> SwapEndian_n (pre @ mid @ post) (length pre) n = Some (pre @ rev mid @ post)"
proof (induction "length mid" arbitrary: pre mid post n rule: less_induct)
  case less
  show ?case
  proof (cases "n > 1")
    case True
    then have n: "2 \<le> length mid" and sub: "unat (n - 2) = length mid - 2"
      using less.prems by (simp_all add: word_less_nat_alt word_le_nat_alt unat_sub)
    then obtain x ms where "mid = x # ms" by (cases mid) auto
    moreover from this n obtain zs y where "ms = zs @ [y]" by (cases ms rule: rev_cases) auto
    ultimately have mid: "mid = x # zs @ [y]" by simp
    have "SwapEndian_n (pre @ mid @ post) (length pre) n =
        SwapEndian_n ((pre @ [y]) @ zs @ (x # post)) (length (pre @ [y])) (n - 2)"
      using True less.prems unfolding mid
      by (simp add: SwapEndian_n.simps [of "pre @ x # zs @ y # post"] Let_def nth_append list_update_append)
    also have "\<dots> = Some ((pre @ [y]) @ rev zs @ (x # post))"
      using sub mid by (intro less.hyps) simp_all
    finally show ?thesis by (simp add: mid)
  next
    case False
    then have "length mid \<le> 1" using less.prems by (simp add: word_le_nat_alt not_less)
    then have "rev mid = mid" by (cases mid) auto
    with False show ?thesis by (subst SwapEndian_n.simps) simp
  qed
qed

text \<open>
  Byte swapping. The 16 and 32 bit functions agree with their compile-time macros, reversing the
  bytes of any array of up to 255 bytes in place is list reversal with nothing outside touched, and
  reversing the bits of a byte mirrors them and is its own inverse.
\<close>

theorem byte_order_reversed:
  "SwapEndian_16 w = SWAPENDIAN_16 w \<and> SwapEndian_32 v = SWAPENDIAN_32 v \<and>
    bytes16 (SwapEndian_16 w) = rev (bytes16 w) \<and> BitReverse (BitReverse b) = b \<and>
    (unat n = length mid \<longrightarrow> SwapEndian_n (pre @ mid @ post) (length pre) n = Some (pre @ rev mid @ post))"
  by (simp add: SwapEndian_16_macro SwapEndian_32_macro SwapEndian_16_bytes [unfolded SwapEndian_16_macro]
      BitReverse_involution SwapEndian_n_reverses)

theorem byte_order_reversed_witness:
  "SwapEndian_16 0x1234 = 0x3412 \<and> SwapEndian_32 0x12345678 = 0x78563412 \<and>
    SwapEndian_n [9, 1, 2, 3, 8] 1 3 = Some [9, 3, 2, 1, 8]"
  using byte_order_reversed [of "0x1234" "0x12345678" 0 3 "[1, 2, 3]" "[9]" "[8]"]
  by (simp add: SWAPENDIAN_16_def SWAPENDIAN_32_def)

end
