(* ===== verification/RingBuffer.thy ===== *)
theory RingBuffer
  imports LUFA_Common
begin

text \<open>
  The byte queue of \<open>Drivers/Misc/RingBuffer.h\<close>. The pointers \<open>In\<close>, \<open>Out\<close> are indices into the storage
  array, \<open>Start\<close> is index 0 and \<open>End\<close> is \<open>Size\<close>; the critical sections around \<open>Count\<close> restore the
  interrupt mask they found and are not part of the state. \<open>None\<close> is an access outside the array or a
  read of a cell that was never written.
\<close>

subsection \<open>The code\<close>

record ring =
  In :: nat
  Out :: nat
  Size :: u16
  Count :: u16
  storage :: "u8 carray"

definition RingBuffer_InitBuffer :: "u8 carray \<Rightarrow> u16 \<Rightarrow> ring" where
  "RingBuffer_InitBuffer data sz = \<lparr>In = 0, Out = 0, Size = sz, Count = 0, storage = data\<rparr>"

definition RingBuffer_GetCount :: "ring \<Rightarrow> u16" where
  "RingBuffer_GetCount r = Count r"

definition RingBuffer_GetFreeCount :: "ring \<Rightarrow> u16" where
  "RingBuffer_GetFreeCount r = Size r - RingBuffer_GetCount r"

definition RingBuffer_IsEmpty :: "ring \<Rightarrow> bool" where
  "RingBuffer_IsEmpty r \<longleftrightarrow> RingBuffer_GetCount r = 0"

definition RingBuffer_IsFull :: "ring \<Rightarrow> bool" where
  "RingBuffer_IsFull r \<longleftrightarrow> RingBuffer_GetCount r = Size r"

definition ring_next :: "ring \<Rightarrow> nat \<Rightarrow> nat" where
  "ring_next r i = (if i + 1 = unat (Size r) then 0 else i + 1)"

definition RingBuffer_Insert :: "u8 \<Rightarrow> ring \<Rightarrow> ring option" where
  "RingBuffer_Insert v r = do {
     data \<leftarrow> wr (storage r) (In r) v;
     Some (r\<lparr>storage := data, In := ring_next r (In r), Count := Count r + 1\<rparr>)
   }"

definition RingBuffer_Remove :: "ring \<Rightarrow> (u8 \<times> ring) option" where
  "RingBuffer_Remove r = do {
     v \<leftarrow> rd (storage r) (Out r);
     Some (v, r\<lparr>Out := ring_next r (Out r), Count := Count r - 1\<rparr>)
   }"

definition RingBuffer_Peek :: "ring \<Rightarrow> u8 option" where
  "RingBuffer_Peek r = rd (storage r) (Out r)"

subsection \<open>The interface of a bounded queue\<close>

locale bounded_queue =
  fixes holds :: "'q \<Rightarrow> nat \<Rightarrow> u8 list \<Rightarrow> bool"
    and insert_byte :: "u8 \<Rightarrow> 'q \<Rightarrow> 'q option"
    and remove_byte :: "'q \<Rightarrow> (u8 \<times> 'q) option"
  assumes insert_appends: "holds q cap xs \<Longrightarrow> length xs < cap \<Longrightarrow>
      \<exists>q'. insert_byte v q = Some q' \<and> holds q' cap (xs @ [v])"
    and remove_takes: "holds q cap (v # xs) \<Longrightarrow> \<exists>q'. remove_byte q = Some (v, q') \<and> holds q' cap xs"
begin

primrec insert_all :: "u8 list \<Rightarrow> 'q \<Rightarrow> 'q option" where
  "insert_all [] q = Some q"
| "insert_all (v # vs) q = insert_byte v q \<bind> insert_all vs"

primrec remove_all :: "nat \<Rightarrow> 'q \<Rightarrow> (u8 list \<times> 'q) option" where
  "remove_all 0 q = Some ([], q)"
| "remove_all (Suc n) q = remove_byte q \<bind> (\<lambda>(v, q'). remove_all n q' \<bind> (\<lambda>(vs, q''). Some (v # vs, q'')))"

lemma insert_all_appends:
  "holds q cap xs \<Longrightarrow> length xs + length vs \<le> cap \<Longrightarrow> \<exists>q'. insert_all vs q = Some q' \<and> holds q' cap (xs @ vs)"
proof (induction vs arbitrary: q xs)
  case (Cons v vs)
  then obtain q1 where q1: "insert_byte v q = Some q1" "holds q1 cap (xs @ [v])"
    using insert_appends [of q cap xs v] by auto
  with Cons.IH [of q1 "xs @ [v]"] Cons.prems(2) show ?case by auto
qed simp

lemma remove_all_takes:
  "holds q cap (vs @ xs) \<Longrightarrow> \<exists>q'. remove_all (length vs) q = Some (vs, q') \<and> holds q' cap xs"
proof (induction vs arbitrary: q)
  case (Cons v vs)
  then obtain q1 where q1: "remove_byte q = Some (v, q1)" "holds q1 cap (vs @ xs)"
    using remove_takes [of q cap v "vs @ xs"] by auto
  with Cons.IH [of q1] show ?case by auto
qed simp

lemma first_in_first_out:
  assumes "holds q cap xs" and "length xs + length vs \<le> cap"
  shows "\<exists>q1 q2. insert_all vs q = Some q1 \<and> remove_all (length xs + length vs) q1 = Some (xs @ vs, q2) \<and>
    holds q2 cap []"
proof -
  from insert_all_appends [OF assms] obtain q1 where
    q1: "insert_all vs q = Some q1" "holds q1 cap (xs @ vs)" by blast
  with remove_all_takes [of q1 cap "xs @ vs" "[]"] show ?thesis by auto
qed

end

subsection \<open>The ring buffer provides it\<close>

definition ring_holds :: "ring \<Rightarrow> nat \<Rightarrow> u8 list \<Rightarrow> bool" where
  "ring_holds r cap xs \<longleftrightarrow> 0 < cap \<and> unat (Size r) = cap \<and> length (storage r) = cap \<and>
     length xs \<le> cap \<and> unat (Count r) = length xs \<and> Out r < cap \<and> In r = (Out r + length xs) mod cap \<and>
     (\<forall>k < length xs. storage r ! ((Out r + k) mod cap) = Some (xs ! k))"

lemma ring_holds_init:
  "0 < sz \<Longrightarrow> length data = unat sz \<Longrightarrow> ring_holds (RingBuffer_InitBuffer data sz) (unat sz) []"
  by (simp add: ring_holds_def RingBuffer_InitBuffer_def word_less_nat_alt)

lemma ring_next_mod: "unat (Size r) = cap \<Longrightarrow> i < cap \<Longrightarrow> ring_next r i = (i + 1) mod cap"
  by (auto simp: ring_next_def)

lemma mod_add_distinct:
  fixes cap :: nat
  assumes "j < cap" and "k < cap" and "j \<noteq> k"
  shows "(i + j) mod cap \<noteq> (i + k) mod cap"
proof
  assume "(i + j) mod cap = (i + k) mod cap"
  then obtain q1 q2 where "j + cap * q1 = k + cap * q2" by (auto simp: nat_mod_eq_iff)
  then have "j mod cap = k mod cap" by (metis mod_mult_self2)
  with assms show False by simp
qed

lemma ring_insert_appends:
  assumes h: "ring_holds r cap xs" and room: "length xs < cap"
  shows "\<exists>r'. RingBuffer_Insert v r = Some r' \<and> ring_holds r' cap (xs @ [v])"
proof -
  have i: "In r = (Out r + length xs) mod cap" "In r < length (storage r)" "In r < cap"
    using h room by (simp_all add: ring_holds_def)
  let ?r = "r\<lparr>storage := (storage r)[In r := Some v], In := ring_next r (In r), Count := Count r + 1\<rparr>"
  have count: "unat (Count r + 1) = length xs + 1"
  proof -
    have "unat (Size r) < 65536" using unsigned_less [of "Size r"] by simp
    with h room have "unat (Count r) + 1 < 65536" by (simp add: ring_holds_def)
    with h show ?thesis by (simp add: ring_holds_def unat_word_ariths(1))
  qed
  have "storage ?r ! ((Out r + k) mod cap) = Some ((xs @ [v]) ! k)" if "k < length (xs @ [v])" for k
  proof (cases "k = length xs")
    case True
    with i show ?thesis by simp
  next
    case False
    with that room have k: "k < length xs" "k < cap" by simp_all
    then have "(Out r + k) mod cap \<noteq> In r"
      using i(1) mod_add_distinct [OF k(2) room] by simp
    with k h show ?thesis by (simp add: ring_holds_def nth_append)
  qed
  moreover have "ring_next r (In r) = (Out r + length (xs @ [v])) mod cap"
    using h i ring_next_mod [of r cap "In r"] by (simp add: ring_holds_def mod_Suc_eq)
  ultimately have "ring_holds ?r cap (xs @ [v])"
    using h room count by (simp add: ring_holds_def)
  then show ?thesis using i(2) by (simp add: RingBuffer_Insert_def wr_def)
qed

lemma ring_remove_takes:
  assumes h: "ring_holds r cap (v # xs)"
  shows "\<exists>r'. RingBuffer_Remove r = Some (v, r') \<and> ring_holds r' cap xs"
proof -
  have out: "Out r < cap" "Out r < length (storage r)" using h by (simp_all add: ring_holds_def)
  have "storage r ! ((Out r + 0) mod cap) = Some ((v # xs) ! 0)"
    using h by (simp only: ring_holds_def length_Cons zero_less_Suc)
  then have rd: "rd (storage r) (Out r) = Some v" using out by (simp add: rd_def)
  let ?r = "r\<lparr>Out := ring_next r (Out r), Count := Count r - 1\<rparr>"
  have nxt: "ring_next r (Out r) = (Out r + 1) mod cap"
    using h ring_next_mod [of r cap "Out r"] by (simp add: ring_holds_def)
  have "Count r \<noteq> 0" using h by (auto simp: ring_holds_def)
  then have count: "unat (Count r - 1) = length xs"
    using h by (simp add: ring_holds_def unat_minus_one)
  have shift: "((Out r + 1) mod cap + k) mod cap = (Out r + Suc k) mod cap" for k
    by (simp add: mod_add_left_eq)
  have "storage ?r ! ((Out ?r + k) mod cap) = Some (xs ! k)" if "k < length xs" for k
  proof -
    have "storage r ! ((Out r + Suc k) mod cap) = Some ((v # xs) ! Suc k)"
      using h that unfolding ring_holds_def by (metis Suc_less_eq length_Cons)
    then show ?thesis using nxt shift by simp
  qed
  moreover have "In r = (Out ?r + length xs) mod cap"
    using h nxt shift by (simp add: ring_holds_def)
  ultimately have "ring_holds ?r cap xs"
    using h count nxt by (simp add: ring_holds_def)
  then show ?thesis using rd by (simp add: RingBuffer_Remove_def)
qed

interpretation ring_queue: bounded_queue ring_holds RingBuffer_Insert RingBuffer_Remove
  by unfold_locales (rule ring_insert_appends ring_remove_takes; assumption)+

text \<open>
  C24: the ring buffer is a first-in-first-out queue: filling it with any bytes that fit and then
  removing as many gives the old contents followed by the new bytes in order, every access inside the
  storage array, and leaves it empty.
\<close>

theorem ring_buffer_fifo:
  assumes "ring_holds r cap xs" and "length xs + length vs \<le> cap"
  shows "\<exists>r1 r2. ring_queue.insert_all vs r = Some r1 \<and>
    ring_queue.remove_all (length xs + length vs) r1 = Some (xs @ vs, r2) \<and> ring_holds r2 cap []"
  using assms by (rule ring_queue.first_in_first_out)

theorem ring_buffer_fifo_witness:
  "\<exists>r1 r2. ring_queue.insert_all [7, 8] (RingBuffer_InitBuffer [None, None, None] 3) = Some r1 \<and>
    ring_queue.remove_all 2 r1 = Some ([7, 8], r2) \<and> ring_holds r2 3 []"
proof -
  have "ring_holds (RingBuffer_InitBuffer [None, None, None] 3) 3 []"
    using ring_holds_init [of 3 "[None, None, None]"] by simp
  from ring_buffer_fifo [OF this, of "[7, 8]"] show ?thesis by (simp add: numeral_2_eq_2)
qed

text \<open>
  The queries agree with the contents: \<open>RingBuffer_GetCount\<close> is the number of stored bytes, the
  free count is the rest of the capacity, the buffer is empty or full exactly when they say so, and
  \<open>RingBuffer_Peek\<close> shows the byte the next removal returns.
\<close>

theorem ring_buffer_queries:
  assumes "ring_holds r cap xs"
  shows "unat (RingBuffer_GetCount r) = length xs \<and> unat (RingBuffer_GetFreeCount r) = cap - length xs \<and>
    (RingBuffer_IsEmpty r \<longleftrightarrow> xs = []) \<and> (RingBuffer_IsFull r \<longleftrightarrow> length xs = cap) \<and>
    (xs \<noteq> [] \<longrightarrow> RingBuffer_Peek r = Some (hd xs))"
proof -
  have c: "unat (Count r) = length xs" "unat (Size r) = cap" "length xs \<le> cap"
    using assms by (simp_all add: ring_holds_def)
  then have "Count r \<le> Size r" by (simp add: word_le_nat_alt)
  then have "unat (Size r - Count r) = cap - length xs" using c by (simp add: unat_sub)
  moreover have "Count r = 0 \<longleftrightarrow> xs = []" using c(1) by (metis length_0_conv unat_eq_zero)
  moreover have "Count r = Size r \<longleftrightarrow> length xs = cap" using c(1,2) by (metis word_unat_eq_iff)
  moreover have "RingBuffer_Peek r = Some (hd xs)" if "xs \<noteq> []"
  proof -
    from that obtain v vs where "xs = v # vs" by (cases xs) auto
    with ring_remove_takes [of r cap v vs] assms show ?thesis
      by (auto simp: RingBuffer_Remove_def RingBuffer_Peek_def bind_eq_Some_conv)
  qed
  ultimately show ?thesis
    using c by (simp add: RingBuffer_GetCount_def RingBuffer_GetFreeCount_def RingBuffer_IsEmpty_def RingBuffer_IsFull_def)
qed

theorem ring_buffer_queries_witness:
  "unat (RingBuffer_GetFreeCount (RingBuffer_InitBuffer [None, None, None] 3)) = 3"
  using ring_buffer_queries [OF ring_holds_init [of 3 "[None, None, None]"]] by simp

end
