(* ===== verification/HIDParser.thy ===== *)
theory HIDParser
  imports LUFA_Common
begin

text \<open>
  The HID report descriptor parser \<open>Class/Common/HIDParser.c\<close>. Pointers into the arrays of
  \<open>HID_ReportInfo_t\<close> are indices (\<open>None\<close> is the null pointer); the application's filter callback is the
  argument \<open>flt\<close>. A result \<open>None\<close> is undefined behaviour of the C code: a read past the end of the
  descriptor, or the \<open>memcpy\<close> of a PUSH item.
\<close>

subsection \<open>Data\<close>

definition HID_STATETABLE_STACK_DEPTH :: nat where "HID_STATETABLE_STACK_DEPTH = 2"
definition HID_USAGE_STACK_DEPTH :: nat where "HID_USAGE_STACK_DEPTH = 8"
definition HID_MAX_COLLECTIONS :: nat where "HID_MAX_COLLECTIONS = 10"
definition HID_MAX_REPORTITEMS :: nat where "HID_MAX_REPORTITEMS = 20"
definition HID_MAX_REPORT_IDS :: nat where "HID_MAX_REPORT_IDS = 10"

lemmas hid_limits = HID_STATETABLE_STACK_DEPTH_def HID_USAGE_STACK_DEPTH_def HID_MAX_COLLECTIONS_def
  HID_MAX_REPORTITEMS_def HID_MAX_REPORT_IDS_def

datatype HID_Parse_ErrorCodes =
    HID_PARSE_Successful | HID_PARSE_HIDStackOverflow | HID_PARSE_HIDStackUnderflow
  | HID_PARSE_InsufficientReportItems | HID_PARSE_UnexpectedEndCollection
  | HID_PARSE_InsufficientCollectionPaths | HID_PARSE_UsageListOverflow
  | HID_PARSE_InsufficientReportIDItems | HID_PARSE_NoUnfilteredReportItems

record HID_MinMax =
  Minimum :: u32
  Maximum :: u32

record HID_Unit =
  UnitType :: u32
  Exponent :: u8

record HID_Usage =
  Page :: u16
  Usage :: u16

record HID_CollectionPath =
  CollectionType :: u8
  CollectionUsage :: HID_Usage
  Parent :: "nat option"

record HID_ReportItem_Attributes =
  BitSize :: u8
  AttrUsage :: HID_Usage
  AttrUnit :: HID_Unit
  Logical :: HID_MinMax
  Physical :: HID_MinMax

text \<open>The parser leaves \<open>Value\<close> and \<open>PreviousValue\<close> of a new item uninitialised.\<close>

record HID_ReportItem =
  BitOffset :: u16
  ItemType :: nat
  ItemFlags :: u16
  ItemReportID :: u8
  CollectionPath :: "nat option"
  Attributes :: HID_ReportItem_Attributes
  ItemValue :: "u32 option"
  PreviousValue :: "u32 option"

record HID_ReportSizeInfo =
  SizeReportID :: u8
  ReportSizeBits :: "u16 list"

record HID_ReportInfo =
  TotalReportItems :: nat
  ReportItems :: "HID_ReportItem option list"
  CollectionPaths :: "HID_CollectionPath list"
  TotalDeviceReports :: nat
  ReportIDSizes :: "HID_ReportSizeInfo list"
  LargestReportSizeBits :: u16
  UsingReportIDs :: bool

record HID_StateTable =
  StateAttributes :: HID_ReportItem_Attributes
  ReportCount :: u8
  ReportID :: u8

text \<open>The structures after \<open>memset\<close> with zero.\<close>

definition zero_usage :: HID_Usage where
  "zero_usage = \<lparr>Page = 0, Usage = 0\<rparr>"

definition zero_attributes :: HID_ReportItem_Attributes where
  "zero_attributes = \<lparr>BitSize = 0, AttrUsage = zero_usage, AttrUnit = \<lparr>UnitType = 0, Exponent = 0\<rparr>,
     Logical = \<lparr>Minimum = 0, Maximum = 0\<rparr>, Physical = \<lparr>Minimum = 0, Maximum = 0\<rparr>\<rparr>"

definition zero_state :: HID_StateTable where
  "zero_state = \<lparr>StateAttributes = zero_attributes, ReportCount = 0, ReportID = 0\<rparr>"

definition zero_collection :: HID_CollectionPath where
  "zero_collection = \<lparr>CollectionType = 0, CollectionUsage = zero_usage, Parent = None\<rparr>"

definition zero_sizes :: HID_ReportSizeInfo where
  "zero_sizes = \<lparr>SizeReportID = 0, ReportSizeBits = [0, 0, 0]\<rparr>"

definition zero_item :: HID_ReportItem where
  "zero_item = \<lparr>BitOffset = 0, ItemType = 0, ItemFlags = 0, ItemReportID = 0, CollectionPath = None,
     Attributes = zero_attributes, ItemValue = Some 0, PreviousValue = Some 0\<rparr>"

definition initial_info :: HID_ReportInfo where
  "initial_info = \<lparr>TotalReportItems = 0, ReportItems = replicate HID_MAX_REPORTITEMS (Some zero_item),
     CollectionPaths = replicate HID_MAX_COLLECTIONS zero_collection, TotalDeviceReports = 1,
     ReportIDSizes = replicate HID_MAX_REPORT_IDS zero_sizes, LargestReportSizeBits = 0, UsingReportIDs = False\<rparr>"

text \<open>The locals of \<open>USB_ProcessHIDReport\<close> together with \<open>ParserData\<close>.\<close>

record hid_parser =
  ParserData :: HID_ReportInfo
  StateLevel :: nat
  CurrState :: HID_StateTable
  CurrCollectionPath :: "nat option"
  CurrReportIDInfo :: nat
  UsageList :: "u16 list"
  UsageMinMax :: HID_MinMax

definition hid_start :: hid_parser where
  "hid_start = \<lparr>ParserData = initial_info, StateLevel = 0, CurrState = zero_state, CurrCollectionPath = None,
     CurrReportIDInfo = 0, UsageList = [], UsageMinMax = \<lparr>Minimum = 0, Maximum = 0\<rparr>\<rparr>"

subsection \<open>Operations of the parser\<close>

definition hid_item_data :: "u8 \<Rightarrow> u8 list \<Rightarrow> (u32 \<times> u8 list) option" where
  "hid_item_data item data =
     (if item AND 3 = 3 then
        if length data \<ge> 4 then
          Some (push_bit 24 (ucast (data ! 3)) OR push_bit 16 (ucast (data ! 2)) OR
            push_bit 8 (ucast (data ! 1)) OR ucast (data ! 0), drop 4 data)
        else None
      else if item AND 3 = 2 then
        if length data \<ge> 2 then
          Some (push_bit 8 (ucast (data ! 1)) OR ucast (data ! 0), drop 2 data)
        else None
      else if item AND 3 = 1 then
        if length data \<ge> 1 then Some (ucast (data ! 0), drop 1 data) else None
      else Some (0, data))"

text \<open>The usage for the next collection or item: the list first, then the range.\<close>

definition hid_take_usage :: "hid_parser \<Rightarrow> u16 option \<times> hid_parser" where
  "hid_take_usage p =
     (case UsageList p of
        u # us \<Rightarrow> (Some u, p\<lparr>UsageList := us\<rparr>)
      | [] \<Rightarrow>
          if Minimum (UsageMinMax p) \<le> Maximum (UsageMinMax p) then
            (Some (ucast (Minimum (UsageMinMax p))),
             p\<lparr>UsageMinMax := (UsageMinMax p)\<lparr>Minimum := Minimum (UsageMinMax p) + 1\<rparr>\<rparr>)
          else (None, p))"

text \<open>The size entry a report ID uses: the current one for the first ID, else a known or a new one.\<close>

definition hid_report_slot :: "u8 \<Rightarrow> nat \<Rightarrow> HID_ReportInfo \<Rightarrow> HID_Parse_ErrorCodes + nat \<times> HID_ReportInfo" where
  "hid_report_slot rid cur info =
     (if UsingReportIDs info then
        case find (\<lambda>i. SizeReportID (ReportIDSizes info ! i) = rid) [0..<TotalDeviceReports info] of
          Some i \<Rightarrow> Inr (i, info)
        | None \<Rightarrow>
            if TotalDeviceReports info = HID_MAX_REPORT_IDS then Inl HID_PARSE_InsufficientReportIDItems
            else Inr (TotalDeviceReports info, info\<lparr>TotalDeviceReports := TotalDeviceReports info + 1,
              ReportIDSizes := (ReportIDSizes info)[TotalDeviceReports info := zero_sizes]\<rparr>)
      else Inr (cur, info))"

definition hid_report_id :: "u32 \<Rightarrow> hid_parser \<Rightarrow> HID_Parse_ErrorCodes + hid_parser" where
  "hid_report_id data p =
     (let p = p\<lparr>CurrState := (CurrState p)\<lparr>ReportID := ucast data\<rparr>\<rparr>;
          rid = ReportID (CurrState p)
      in case hid_report_slot rid (CurrReportIDInfo p) (ParserData p) of
           Inl e \<Rightarrow> Inl e
         | Inr (i, info) \<Rightarrow>
             Inr (p\<lparr>CurrReportIDInfo := i,
               ParserData := info\<lparr>UsingReportIDs := True,
                 ReportIDSizes := (ReportIDSizes info)[i := (ReportIDSizes info ! i)\<lparr>SizeReportID := rid\<rparr>]\<rparr>\<rparr>))"

text \<open>The search for an unused collection entry from index \<open>i\<close>.\<close>

function hid_free_collection :: "HID_CollectionPath list \<Rightarrow> nat \<Rightarrow> nat option" where
  "hid_free_collection cs i =
     (if Parent (cs ! i) = None then Some i
      else if i \<ge> HID_MAX_COLLECTIONS - 1 then None
      else hid_free_collection cs (i + 1))"
  by pat_completeness auto
termination
  by (relation "measure (\<lambda>(cs, i). HID_MAX_COLLECTIONS - i)") auto

declare hid_free_collection.simps [simp del]

definition hid_collection :: "u32 \<Rightarrow> hid_parser \<Rightarrow> HID_Parse_ErrorCodes + hid_parser" where
  "hid_collection data p =
     (let info = ParserData p;
          place = (case CurrCollectionPath p of
                     None \<Rightarrow> Some (0, CollectionPaths info)
                   | Some parent \<Rightarrow>
                       (case hid_free_collection (CollectionPaths info) 1 of
                          None \<Rightarrow> None
                        | Some i \<Rightarrow> Some (i, (CollectionPaths info)
                            [i := (CollectionPaths info ! i)\<lparr>Parent := Some parent\<rparr>])))
      in case place of
           None \<Rightarrow> Inl HID_PARSE_InsufficientCollectionPaths
         | Some (i, cs) \<Rightarrow>
             let (u, p) = hid_take_usage p;
                 c = cs ! i;
                 usage = (CollectionUsage c)\<lparr>Page := Page (AttrUsage (StateAttributes (CurrState p)))\<rparr>;
                 usage = (case u of Some v \<Rightarrow> usage\<lparr>Usage := v\<rparr> | None \<Rightarrow> usage)
             in Inr (p\<lparr>CurrCollectionPath := Some i,
                  ParserData := info\<lparr>CollectionPaths :=
                    cs[i := c\<lparr>CollectionType := ucast data, CollectionUsage := usage\<rparr>]\<rparr>\<rparr>))"

definition hid_end_collection :: "hid_parser \<Rightarrow> HID_Parse_ErrorCodes + hid_parser" where
  "hid_end_collection p =
     (case CurrCollectionPath p of
        None \<Rightarrow> Inl HID_PARSE_UnexpectedEndCollection
      | Some i \<Rightarrow> Inr (p\<lparr>CurrCollectionPath := Parent (CollectionPaths (ParserData p) ! i)\<rparr>))"

text \<open>One item of an INPUT, OUTPUT or FEATURE entry of type \<open>t\<close>.\<close>

definition hid_add_item ::
  "(HID_ReportItem \<Rightarrow> bool) \<Rightarrow> nat \<Rightarrow> u32 \<Rightarrow> hid_parser \<Rightarrow> HID_Parse_ErrorCodes \<times> hid_parser + hid_parser" where
  "hid_add_item flt t data p =
     (let st = CurrState p;
          attrs = StateAttributes st;
          (u, p) = hid_take_usage p;
          attrs = (case u of Some v \<Rightarrow> attrs\<lparr>AttrUsage := (AttrUsage attrs)\<lparr>Usage := v\<rparr>\<rparr> | None \<Rightarrow> attrs);
          info = ParserData p;
          sizes = ReportIDSizes info ! CurrReportIDInfo p;
          offset = ReportSizeBits sizes ! t;
          total = offset + ucast (BitSize (StateAttributes st));
          item = \<lparr>BitOffset = offset, ItemType = t, ItemFlags = ucast data, ItemReportID = ReportID st,
                  CollectionPath = CurrCollectionPath p, Attributes = attrs, ItemValue = None, PreviousValue = None\<rparr>;
          info = info\<lparr>ReportIDSizes := (ReportIDSizes info)
                   [CurrReportIDInfo p := sizes\<lparr>ReportSizeBits := (ReportSizeBits sizes)[t := total]\<rparr>],
                 LargestReportSizeBits := max (LargestReportSizeBits info) total\<rparr>
      in if TotalReportItems info = HID_MAX_REPORTITEMS
         then Inl (HID_PARSE_InsufficientReportItems, p\<lparr>ParserData := info\<rparr>)
         else
           let info = info\<lparr>ReportItems := (ReportItems info)[TotalReportItems info := Some item]\<rparr>;
               info = (if data AND 1 = 0 \<and> flt item then info\<lparr>TotalReportItems := TotalReportItems info + 1\<rparr> else info)
           in Inr (p\<lparr>ParserData := info\<rparr>))"

primrec hid_add_items ::
  "(HID_ReportItem \<Rightarrow> bool) \<Rightarrow> nat \<Rightarrow> u32 \<Rightarrow> nat \<Rightarrow> hid_parser \<Rightarrow> HID_Parse_ErrorCodes \<times> hid_parser + hid_parser" where
  "hid_add_items flt t data 0 p = Inr p"
| "hid_add_items flt t data (Suc n) p =
     (case hid_add_item flt t data p of Inl e \<Rightarrow> Inl e | Inr p' \<Rightarrow> hid_add_items flt t data n p')"

definition hid_set_attributes :: "(HID_ReportItem_Attributes \<Rightarrow> HID_ReportItem_Attributes) \<Rightarrow> hid_parser \<Rightarrow> hid_parser" where
  "hid_set_attributes f p = p\<lparr>CurrState := (CurrState p)\<lparr>StateAttributes := f (StateAttributes (CurrState p))\<rparr>\<rparr>"

definition with_parser :: "hid_parser \<Rightarrow> HID_Parse_ErrorCodes + hid_parser \<Rightarrow> HID_Parse_ErrorCodes \<times> hid_parser + hid_parser" where
  "with_parser p r = (case r of Inl e \<Rightarrow> Inl (e, p) | Inr p' \<Rightarrow> Inr p')"

text \<open>
  The switch over the item's type and tag. A PUSH copies \<open>sizeof(HID_ReportItem_t)\<close> bytes between
  neighbouring entries of the smaller \<open>HID_StateTable_t\<close>: the areas overlap, and the last one ends
  outside the table.
\<close>

definition hid_switch ::
  "(HID_ReportItem \<Rightarrow> bool) \<Rightarrow> u8 \<Rightarrow> u32 \<Rightarrow> hid_parser \<Rightarrow> (HID_Parse_ErrorCodes \<times> hid_parser + hid_parser) option" where
  "hid_switch flt item data p =
     (let k = item AND 0xFC in
      if k = 0xA4 then
        if StateLevel p = HID_STATETABLE_STACK_DEPTH - 1 then Some (Inl (HID_PARSE_HIDStackOverflow, p)) else None
      else if k = 0xB4 then
        if StateLevel p = 0 then Some (Inl (HID_PARSE_HIDStackUnderflow, p))
        else Some (Inr (p\<lparr>StateLevel := StateLevel p - 1\<rparr>))
      else if k = 0x04 then Some (Inr (hid_set_attributes (\<lambda>a. a\<lparr>AttrUsage := (AttrUsage a)\<lparr>Page := ucast data\<rparr>\<rparr>) p))
      else if k = 0x14 then Some (Inr (hid_set_attributes (\<lambda>a. a\<lparr>Logical := (Logical a)\<lparr>Minimum := data\<rparr>\<rparr>) p))
      else if k = 0x24 then Some (Inr (hid_set_attributes (\<lambda>a. a\<lparr>Logical := (Logical a)\<lparr>Maximum := data\<rparr>\<rparr>) p))
      else if k = 0x34 then Some (Inr (hid_set_attributes (\<lambda>a. a\<lparr>Physical := (Physical a)\<lparr>Minimum := data\<rparr>\<rparr>) p))
      else if k = 0x44 then Some (Inr (hid_set_attributes (\<lambda>a. a\<lparr>Physical := (Physical a)\<lparr>Maximum := data\<rparr>\<rparr>) p))
      else if k = 0x54 then Some (Inr (hid_set_attributes (\<lambda>a. a\<lparr>AttrUnit := (AttrUnit a)\<lparr>Exponent := ucast data\<rparr>\<rparr>) p))
      else if k = 0x64 then Some (Inr (hid_set_attributes (\<lambda>a. a\<lparr>AttrUnit := (AttrUnit a)\<lparr>UnitType := data\<rparr>\<rparr>) p))
      else if k = 0x74 then Some (Inr (hid_set_attributes (\<lambda>a. a\<lparr>BitSize := ucast data\<rparr>) p))
      else if k = 0x94 then Some (Inr (p\<lparr>CurrState := (CurrState p)\<lparr>ReportCount := ucast data\<rparr>\<rparr>))
      else if k = 0x84 then Some (with_parser p (hid_report_id data p))
      else if k = 0x08 then
        if length (UsageList p) = HID_USAGE_STACK_DEPTH then Some (Inl (HID_PARSE_UsageListOverflow, p))
        else Some (Inr (p\<lparr>UsageList := UsageList p @ [ucast data]\<rparr>))
      else if k = 0x18 then Some (Inr (p\<lparr>UsageMinMax := (UsageMinMax p)\<lparr>Minimum := data\<rparr>\<rparr>))
      else if k = 0x28 then Some (Inr (p\<lparr>UsageMinMax := (UsageMinMax p)\<lparr>Maximum := data\<rparr>\<rparr>))
      else if k = 0xA0 then Some (with_parser p (hid_collection data p))
      else if k = 0xC0 then Some (with_parser p (hid_end_collection p))
      else if k = 0x80 then Some (hid_add_items flt 0 data (unat (ReportCount (CurrState p))) p)
      else if k = 0x90 then Some (hid_add_items flt 1 data (unat (ReportCount (CurrState p))) p)
      else if k = 0xB0 then Some (hid_add_items flt 2 data (unat (ReportCount (CurrState p))) p)
      else Some (Inr p))"

text \<open>After a main item the local usages are forgotten.\<close>

definition hid_end_item :: "u8 \<Rightarrow> hid_parser \<Rightarrow> hid_parser" where
  "hid_end_item item p =
     (if item AND 0x0C = 0 then p\<lparr>UsageMinMax := \<lparr>Minimum = 0, Maximum = 0\<rparr>, UsageList := []\<rparr> else p)"

lemma hid_item_data_length: "hid_item_data item data = Some (v, rest) \<Longrightarrow> length rest \<le> length data"
  by (auto simp: hid_item_data_def split: if_splits)

function hid_loop :: "(HID_ReportItem \<Rightarrow> bool) \<Rightarrow> u8 list \<Rightarrow> hid_parser \<Rightarrow> (HID_Parse_ErrorCodes \<times> hid_parser) option" where
  "hid_loop flt [] p =
     Some (if TotalReportItems (ParserData p) = 0 then HID_PARSE_NoUnfilteredReportItems else HID_PARSE_Successful, p)"
| "hid_loop flt (item # rest) p =
     (case hid_item_data item rest of
        None \<Rightarrow> None
      | Some (data, rest') \<Rightarrow>
          (case hid_switch flt item data p of
             None \<Rightarrow> None
           | Some (Inl r) \<Rightarrow> Some r
           | Some (Inr p') \<Rightarrow> hid_loop flt rest' (hid_end_item item p')))"
  by pat_completeness auto
termination
  by (relation "measure (\<lambda>(flt, data, p). length data)") (auto dest: hid_item_data_length)

definition USB_ProcessHIDReport :: "(HID_ReportItem \<Rightarrow> bool) \<Rightarrow> u8 list \<Rightarrow> (HID_Parse_ErrorCodes \<times> HID_ReportInfo) option" where
  "USB_ProcessHIDReport flt data = map_option (\<lambda>(e, p). (e, ParserData p)) (hid_loop flt data hid_start)"

subsection \<open>Reading and writing reports\<close>

primrec hid_get_bits :: "u8 list \<Rightarrow> nat \<Rightarrow> u16 \<Rightarrow> u32 \<Rightarrow> u32 \<Rightarrow> u32 option" where
  "hid_get_bits report 0 cur msk v = Some v"
| "hid_get_bits report (Suc n) cur msk v =
     (if unat (cur div 8) < length report then
        hid_get_bits report n (cur + 1) (push_bit 1 msk)
          (if bit (report ! unat (cur div 8)) (unat (cur mod 8)) then v OR msk else v)
      else None)"

definition USB_GetHIDReportItemInfo :: "u8 list \<Rightarrow> HID_ReportItem \<Rightarrow> (bool \<times> HID_ReportItem) option" where
  "USB_GetHIDReportItemInfo report it =
     (if ItemReportID it \<noteq> 0 \<and> report = [] then None
      else if ItemReportID it \<noteq> 0 \<and> ItemReportID it \<noteq> report ! 0 then Some (False, it)
      else
        let report = (if ItemReportID it \<noteq> 0 then tl report else report);
            it = it\<lparr>PreviousValue := ItemValue it\<rparr>
        in case hid_get_bits report (unat (BitSize (Attributes it))) (BitOffset it) 1 0 of
             None \<Rightarrow> None | Some v \<Rightarrow> Some (True, it\<lparr>ItemValue := Some v\<rparr>))"

primrec hid_set_bits :: "u32 \<Rightarrow> nat \<Rightarrow> u16 \<Rightarrow> u32 \<Rightarrow> u8 list \<Rightarrow> u8 list option" where
  "hid_set_bits v 0 cur msk report = Some report"
| "hid_set_bits v (Suc n) cur msk report =
     (if \<not> bit v (unat (cur mod 8)) then hid_set_bits v n (cur + 1) (push_bit 1 msk) report
      else if unat (cur div 8) < length report then
        hid_set_bits v n (cur + 1) (push_bit 1 msk)
          (report[unat (cur div 8) := report ! unat (cur div 8) OR ucast msk])
      else None)"

definition USB_SetHIDReportItemInfo :: "u8 list \<Rightarrow> HID_ReportItem \<Rightarrow> (u8 list \<times> HID_ReportItem) option" where
  "USB_SetHIDReportItemInfo report it =
     (case ItemValue it of None \<Rightarrow> None
      | Some v \<Rightarrow>
          let it' = it\<lparr>PreviousValue := ItemValue it\<rparr>; n = unat (BitSize (Attributes it)) in
          if ItemReportID it \<noteq> 0 then
            (case report of [] \<Rightarrow> None
             | _ # rest \<Rightarrow>
                 map_option (\<lambda>r. (ItemReportID it # r, it')) (hid_set_bits v n (BitOffset it) 1 rest))
          else map_option (\<lambda>r. (r, it')) (hid_set_bits v n (BitOffset it) 1 report))"

definition USB_GetHIDReportSize :: "HID_ReportInfo \<Rightarrow> u8 \<Rightarrow> nat \<Rightarrow> u16" where
  "USB_GetHIDReportSize info rid t =
     (case find (\<lambda>s. SizeReportID s = rid) (ReportIDSizes info) of
        None \<Rightarrow> 0
      | Some s \<Rightarrow> let bits = ReportSizeBits s ! t in bits div 8 + (if bits mod 8 \<noteq> 0 then 1 else 0))"

end
