(* ===== verification/USB_Hardware.thy ===== *)
theory USB_Hardware
  imports LUFA_Common
begin

text \<open>
  The ground the USB device stack stands on: the registers of the microcontroller, the record of
  functions through which the firmware reaches them, the library's global variables and the loops of
  the C code. The hardware and the host behind it are not in the sources, so every access goes through
  the record \<open>mcu\<close>: a read may change the world \<open>'w\<close> (the FIFO advances, time passes, the host
  acts) and a write always may. The variable \<open>USB_DeviceState\<close> is volatile, the interrupt handlers
  write it behind the back of the main program, so it is a location of the world as well.
\<close>

named_theorems usb_simps \<open>rules that run register accesses\<close>

subsection \<open>Registers\<close>

datatype reg = UENUM | UERST | UECONX | UECFG0X | UECFG1X | UESTA0X | UEINTX | UEIENX | UEDATX | UEBCLX | UEBCHX
  | UEINT | UDADDR | UDCON | UDIEN | UDINT | USBCON | USBINT | USBSTA | UHIEN | UHINT | OTGIEN | OTGINT | UHWCON
  | PLLCSR | PLLFRQ | REGCR | SREG | MCUSR | PORTD | DDRD | DDRC | PINC | USB_DeviceState

datatype usb_series = Series2 | Series4 | Series6 | Series7

text \<open>
  The build selects the controller series, the options of \<open>USB_Init\<close>, the PLL prescaler and whether
  suspension counts as a disconnection; these are fields of the same record.
\<close>

record 'w mcu =
  mcu_rd :: "reg \<Rightarrow> 'w \<Rightarrow> u8 \<times> 'w"
  mcu_wr :: "reg \<Rightarrow> u8 \<Rightarrow> 'w \<Rightarrow> 'w"
  mcu_frame :: "'w \<Rightarrow> u16 \<times> 'w"
  mcu_signature :: "u8 \<Rightarrow> u8"
  mcu_wdt_disable :: "'w \<Rightarrow> 'w"
  mcu_clock_prescale :: "u8 \<Rightarrow> 'w \<Rightarrow> 'w"
  series :: usb_series
  USB_Options :: u8
  USB_PLL_PSC :: u8
  limited_connect :: bool

text \<open>The bit numbers the device headers give to the flags.\<close>

definition TXINI :: nat where "TXINI = 0"
definition RXOUTI :: nat where "RXOUTI = 2"
definition RXSTPI :: nat where "RXSTPI = 3"
definition RWAL :: nat where "RWAL = 5"
definition FIFOCON :: nat where "FIFOCON = 7"
definition EPEN :: nat where "EPEN = 0"
definition RSTDT :: nat where "RSTDT = 3"
definition STALLRQC :: nat where "STALLRQC = 4"
definition STALLRQ :: nat where "STALLRQ = 5"
definition EPDIR :: nat where "EPDIR = 0"
definition EPTYPE0 :: nat where "EPTYPE0 = 6"
definition ALLOC :: nat where "ALLOC = 1"
definition EPBK0 :: nat where "EPBK0 = 2"
definition EPSIZE0 :: nat where "EPSIZE0 = 4"
definition CFGOK :: nat where "CFGOK = 7"
definition ADDEN :: nat where "ADDEN = 7"
definition RXSTPE :: nat where "RXSTPE = 3"
definition SUSPI :: nat where "SUSPI = 0"
definition SOFI :: nat where "SOFI = 2"
definition EORSTI :: nat where "EORSTI = 3"
definition WAKEUPI :: nat where "WAKEUPI = 4"
definition DETACH :: nat where "DETACH = 0"
definition RMWKUP :: nat where "RMWKUP = 1"
definition LSM :: nat where "LSM = 2"
definition VBUSTE :: nat where "VBUSTE = 0"
definition IDTE :: nat where "IDTE = 1"
definition OTGPADE :: nat where "OTGPADE = 4"
definition FRZCLK :: nat where "FRZCLK = 5"
definition USBE :: nat where "USBE = 7"
definition PLOCK :: nat where "PLOCK = 0"
definition PLLE :: nat where "PLLE = 1"

lemmas bit_numbers = TXINI_def RXOUTI_def RXSTPI_def RWAL_def FIFOCON_def EPEN_def RSTDT_def STALLRQC_def STALLRQ_def
  EPDIR_def EPTYPE0_def ALLOC_def EPBK0_def EPSIZE0_def CFGOK_def ADDEN_def RXSTPE_def SUSPI_def SOFI_def EORSTI_def
  WAKEUPI_def DETACH_def RMWKUP_def LSM_def VBUSTE_def IDTE_def OTGPADE_def FRZCLK_def USBE_def PLOCK_def PLLE_def

definition bitm :: "nat \<Rightarrow> u8" where
  "bitm b = push_bit b 1"

definition flag :: "u8 \<Rightarrow> nat \<Rightarrow> bool" where
  "flag v b \<longleftrightarrow> v AND bitm b \<noteq> 0"

definition set_flag :: "nat \<Rightarrow> u8 \<Rightarrow> u8" where
  "set_flag b v = v OR bitm b"

definition clr_flag :: "nat \<Rightarrow> u8 \<Rightarrow> u8" where
  "clr_flag b v = v AND NOT (bitm b)"

lemma bit_bitm: "bit (bitm b) n \<longleftrightarrow> n = b \<and> b < 8"
  by (auto simp: bitm_def bit_simps)

lemma flag_bit: "flag v b \<longleftrightarrow> bit v b"
proof
  assume "flag v b"
  then have "v AND bitm b \<noteq> 0" by (simp add: flag_def)
  then obtain n where "bit (v AND bitm b) n" by (auto simp: bit_eq_iff)
  then show "bit v b" by (auto simp: bit_and_iff bit_bitm)
next
  assume b: "bit v b"
  then have "b < 8" using bit_imp_le_length by fastforce
  with b have "bit (v AND bitm b) b" by (simp add: bit_and_iff bit_bitm)
  then have "v AND bitm b \<noteq> 0" by (intro notI) simp
  then show "flag v b" by (simp add: flag_def)
qed

lemma flag_simps [simp]:
  "\<not> flag 0 b"
  "flag (x OR y) b \<longleftrightarrow> flag x b \<or> flag y b"
  "flag (x AND y) b \<longleftrightarrow> flag x b \<and> flag y b"
  "b < 8 \<Longrightarrow> flag (NOT x) b \<longleftrightarrow> \<not> flag x b"
  "a < 8 \<Longrightarrow> flag (bitm a) b \<longleftrightarrow> a = b"
  "a < 8 \<Longrightarrow> flag (set_flag a v) b \<longleftrightarrow> a = b \<or> flag v b"
  by (auto simp: flag_bit set_flag_def bit_or_iff bit_and_iff bit_not_iff bit_bitm)

lemma flag_less: "flag v b \<Longrightarrow> b < 8"
  unfolding flag_bit using bit_imp_le_length by fastforce

lemma flag_clr_flag [simp]: "flag (clr_flag a v) b \<longleftrightarrow> a \<noteq> b \<and> flag v b"
  using flag_less by (auto simp: clr_flag_def flag_bit bit_and_iff bit_not_iff bit_bitm)

lemma flag_if [simp]: "flag (if c then x else y) b \<longleftrightarrow> (if c then flag x b else flag y b)"
  by simp

subsection \<open>Control requests and library variables\<close>

record USB_Request_Header =
  bmRequestType :: u8
  bRequest :: u8
  wValue :: u16
  wIndex :: u16
  wLength :: u16

text \<open>The packed struct as the eight bytes of a SETUP packet, on a little endian machine.\<close>

definition request_of :: "u8 list \<Rightarrow> USB_Request_Header" where
  "request_of bs = \<lparr>bmRequestType = bs ! 0, bRequest = bs ! 1, wValue = word16 (take 2 (drop 2 bs)),
     wIndex = word16 (take 2 (drop 4 bs)), wLength = word16 (take 2 (drop 6 bs))\<rparr>"

definition request_bytes :: "USB_Request_Header \<Rightarrow> u8 list" where
  "request_bytes r = [bmRequestType r, bRequest r] @ bytes16 (wValue r) @ bytes16 (wIndex r) @ bytes16 (wLength r)"

lemma request_of_bytes [simp]: "request_of (request_bytes r) = r"
  by (cases r) (simp add: request_of_def request_bytes_def)

record ('c, 'w) dev =
  USB_ControlRequest :: USB_Request_Header
  USB_Device_ConfigurationNumber :: u8
  USB_Device_CurrentlySelfPowered :: bool
  USB_Device_RemoteWakeupEnabled :: bool
  USB_IsInitialized :: bool
  app :: 'c
  world :: 'w

definition getr :: "'w mcu \<Rightarrow> reg \<Rightarrow> ('c, 'w) dev \<Rightarrow> u8 \<times> ('c, 'w) dev" where
  "getr m r s = (let (v, w) = mcu_rd m r (world s) in (v, s\<lparr>world := w\<rparr>))"

definition setr :: "'w mcu \<Rightarrow> reg \<Rightarrow> u8 \<Rightarrow> ('c, 'w) dev \<Rightarrow> ('c, 'w) dev" where
  "setr m r v s = s\<lparr>world := mcu_wr m r v (world s)\<rparr>"

text \<open>\<open>r = f(r)\<close>, the read and the write of an assignment such as \<open>r |= (1 << b)\<close>.\<close>

definition modr :: "'w mcu \<Rightarrow> reg \<Rightarrow> (u8 \<Rightarrow> u8) \<Rightarrow> ('c, 'w) dev \<Rightarrow> ('c, 'w) dev" where
  "modr m r f s = (let (v, s) = getr m r s in setr m r (f v) s)"

definition testr :: "'w mcu \<Rightarrow> reg \<Rightarrow> nat \<Rightarrow> ('c, 'w) dev \<Rightarrow> bool \<times> ('c, 'w) dev" where
  "testr m r b s = (let (v, s) = getr m r s in (flag v b, s))"

subsection \<open>Events\<close>

text \<open>
  The functions the library calls in the application: the events, which return \<open>None\<close> when they hang,
  and the descriptor callback, whose result is the size and the bytes at the address it returns.
\<close>

record ('c, 'w) events =
  EVENT_USB_Device_ControlRequest :: "('c, 'w) dev \<Rightarrow> ('c, 'w) dev option"
  EVENT_USB_Device_ConfigurationChanged :: "('c, 'w) dev \<Rightarrow> ('c, 'w) dev option"
  EVENT_USB_Device_Connect :: "('c, 'w) dev \<Rightarrow> ('c, 'w) dev option"
  EVENT_USB_Device_Disconnect :: "('c, 'w) dev \<Rightarrow> ('c, 'w) dev option"
  EVENT_USB_Device_Suspend :: "('c, 'w) dev \<Rightarrow> ('c, 'w) dev option"
  EVENT_USB_Device_WakeUp :: "('c, 'w) dev \<Rightarrow> ('c, 'w) dev option"
  EVENT_USB_Device_Reset :: "('c, 'w) dev \<Rightarrow> ('c, 'w) dev option"
  EVENT_USB_Device_StartOfFrame :: "('c, 'w) dev \<Rightarrow> ('c, 'w) dev option"
  CALLBACK_USB_GetDescriptor :: "u16 \<Rightarrow> u8 \<Rightarrow> u16 \<times> u8 list"

definition USB_Event_Stub :: "('c, 'w) dev \<Rightarrow> ('c, 'w) dev option" where
  "USB_Event_Stub s = Some s"

subsection \<open>Loops\<close>

text \<open>
  A loop of the source: its body either continues with new values of the loop's local variables
  (\<open>Inl\<close>) or leaves it with a result (\<open>Inr\<close>); \<open>None\<close> is a loop that never ends, or undefined behaviour.
\<close>

partial_function (option) floop :: "('l \<Rightarrow> 's \<Rightarrow> (('l + 'a) \<times> 's) option) \<Rightarrow> 'l \<Rightarrow> 's \<Rightarrow> ('a \<times> 's) option" where
  "floop body l s = Option.bind (body l s) (\<lambda>(r, s').
     case r of Inl l' \<Rightarrow> floop body l' s' | Inr a \<Rightarrow> Some (a, s'))"

lemma floop_exit: "body l s = Some (Inr a, s') \<Longrightarrow> floop body l s = Some (a, s')"
  by (subst floop.simps) simp

lemma floop_step: "body l s = Some (Inl l', s') \<Longrightarrow> floop body l s = floop body l' s'"
  by (subst floop.simps) simp

lemma floop_invariant:
  assumes step: "\<And>l s r s'. I l s \<Longrightarrow> body l s = Some (r, s') \<Longrightarrow> (case r of Inl l' \<Rightarrow> I l' s' | Inr a \<Rightarrow> Q a s')"
    and "I l s" and "floop body l s = Some (a, s')"
  shows "Q a s'"
proof -
  have "\<forall>I. I l s \<longrightarrow> (\<forall>l s r s'. I l s \<longrightarrow> body l s = Some (r, s') \<longrightarrow>
      (case r of Inl l' \<Rightarrow> I l' s' | Inr a \<Rightarrow> Q a s')) \<longrightarrow> Q (fst y) (snd y)"
    if "floop body l s = Some y" for y
    using that
  proof (induction rule: floop.raw_induct [rotated 1, consumes 1])
    case (1 floop body l s y)
    show ?case
    proof (intro allI impI)
      fix I
      assume "I l s" and step: "\<forall>l s r s'. I l s \<longrightarrow> body l s = Some (r, s') \<longrightarrow>
        (case r of Inl l' \<Rightarrow> I l' s' | Inr a \<Rightarrow> Q a s')"
      from 1(2) obtain r s' where b: "body l s = Some (r, s')"
        and y: "(case r of Inl l' \<Rightarrow> floop body l' s' | Inr a \<Rightarrow> Some (a, s')) = Some y"
        by (auto simp: bind_eq_Some_conv)
      with step \<open>I l s\<close> have r: "case r of Inl l' \<Rightarrow> I l' s' | Inr a \<Rightarrow> Q a s'" by blast
      show "Q (fst y) (snd y)"
      proof (cases r)
        case (Inl l')
        with y r have "floop body l' s' = Some y" and "I l' s'" by simp_all
        with 1(1) step show ?thesis by blast
      next
        case (Inr a)
        with y r show ?thesis by auto
      qed
    qed
  qed
  from spec [OF this [OF assms(3)], of I] assms(2) step show ?thesis by simp
qed

lemma floop_keeps:
  assumes "\<And>l s r s'. P s \<Longrightarrow> body l s = Some (r, s') \<Longrightarrow> P s'" and "floop body l s = Some (x, s')" and "P s"
  shows "P s'"
  using floop_invariant [of "\<lambda>_. P" body "\<lambda>_. P" l s x s'] assms by (auto split: sum.split)

lemma floop_total:
  assumes "wf R" and "I l s"
    and step: "\<And>l s. I l s \<Longrightarrow> \<exists>r s'. body l s = Some (r, s') \<and>
      (case r of Inl l' \<Rightarrow> I l' s' \<and> ((l', s'), l, s) \<in> R | Inr a \<Rightarrow> Q a s')"
  shows "\<exists>a s'. floop body l s = Some (a, s') \<and> Q a s'"
  using \<open>wf R\<close> \<open>I l s\<close>
proof (induction "(l, s)" arbitrary: l s rule: wf_induct_rule)
  case less
  from step [OF \<open>I l s\<close>] obtain r s' where b: "body l s = Some (r, s')"
    and r: "case r of Inl l' \<Rightarrow> I l' s' \<and> ((l', s'), l, s) \<in> R | Inr a \<Rightarrow> Q a s'" by blast
  show ?case
  proof (cases r)
    case (Inl l')
    with r less.hyps have "\<exists>a s''. floop body l' s' = Some (a, s'') \<and> Q a s''" by simp
    with b Inl show ?thesis by (simp add: floop_step)
  next
    case (Inr a)
    with b r show ?thesis by (simp add: floop_exit)
  qed
qed

end
