(* ===== verification/USB_Registers.thy ===== *)
theory USB_Registers
  imports USB_Hardware
begin

text \<open>
  The inline functions of \<open>Endpoint_AVR8.h\<close>, \<open>USBController_AVR8.h\<close>, \<open>USBInterrupt_AVR8.h\<close> and
  \<open>Device_AVR8.h\<close>, each a sequence of register accesses. All but the two loops at the end return at
  once, so they are plain functions on the state.
\<close>

subsection \<open>Endpoints\<close>

definition ENDPOINT_EPNUM_MASK :: u8 where [simp]: "ENDPOINT_EPNUM_MASK = 0x0F"
definition ENDPOINT_CONTROLEP :: u8 where [simp]: "ENDPOINT_CONTROLEP = 0"
definition ENDPOINT_DIR_IN :: u8 where "ENDPOINT_DIR_IN = 0x80"
definition ENDPOINT_DIR_OUT :: u8 where "ENDPOINT_DIR_OUT = 0x00"

definition ENDPOINT_TOTAL_ENDPOINTS :: "'w mcu \<Rightarrow> u8" where
  "ENDPOINT_TOTAL_ENDPOINTS m = (if series m = Series2 then 5 else 7)"

partial_function (option) epsize_loop :: "u16 \<Rightarrow> u8 \<Rightarrow> u16 \<Rightarrow> u8 option" where
  "epsize_loop Bytes MaskVal CheckBytes =
    (if CheckBytes < Bytes then epsize_loop Bytes (MaskVal + 1) (push_bit 1 CheckBytes) else Some MaskVal)"

definition Endpoint_BytesToEPSizeMask :: "u16 \<Rightarrow> u8 option" where
  "Endpoint_BytesToEPSizeMask Bytes = map_option (push_bit EPSIZE0) (epsize_loop Bytes 0 8)"

definition Endpoint_BytesInEndpoint :: "'w mcu \<Rightarrow> ('c, 'w) dev \<Rightarrow> u16 \<times> ('c, 'w) dev" where
  "Endpoint_BytesInEndpoint m s =
    (if series m = Series2 then let (v, s) = getr m UEBCLX s in (ucast v, s)
     else let (h, s) = getr m UEBCHX s; (l, s) = getr m UEBCLX s in (push_bit 8 (ucast h) OR ucast l, s))"

definition Endpoint_GetEndpointDirection :: "'w mcu \<Rightarrow> ('c, 'w) dev \<Rightarrow> u8 \<times> ('c, 'w) dev" where
  "Endpoint_GetEndpointDirection m s =
    (let (b, s) = testr m UECFG0X EPDIR s in (if b then ENDPOINT_DIR_IN else ENDPOINT_DIR_OUT, s))"

definition Endpoint_GetCurrentEndpoint :: "'w mcu \<Rightarrow> ('c, 'w) dev \<Rightarrow> u8 \<times> ('c, 'w) dev" where
  "Endpoint_GetCurrentEndpoint m s =
    (let (n, s) = getr m UENUM s; (d, s) = Endpoint_GetEndpointDirection m s in (n AND ENDPOINT_EPNUM_MASK OR d, s))"

definition Endpoint_SelectEndpoint :: "'w mcu \<Rightarrow> u8 \<Rightarrow> ('c, 'w) dev \<Rightarrow> ('c, 'w) dev" where
  "Endpoint_SelectEndpoint m Address s = setr m UENUM (Address AND ENDPOINT_EPNUM_MASK) s"

definition Endpoint_ResetEndpoint :: "'w mcu \<Rightarrow> u8 \<Rightarrow> ('c, 'w) dev \<Rightarrow> ('c, 'w) dev" where
  "Endpoint_ResetEndpoint m Address s =
    setr m UERST 0 (setr m UERST (push_bit (unat (Address AND ENDPOINT_EPNUM_MASK)) 1) s)"

definition Endpoint_EnableEndpoint :: "'w mcu \<Rightarrow> ('c, 'w) dev \<Rightarrow> ('c, 'w) dev" where
  "Endpoint_EnableEndpoint m s = modr m UECONX (set_flag EPEN) s"

definition Endpoint_DisableEndpoint :: "'w mcu \<Rightarrow> ('c, 'w) dev \<Rightarrow> ('c, 'w) dev" where
  "Endpoint_DisableEndpoint m s = modr m UECONX (clr_flag EPEN) s"

definition Endpoint_IsEnabled :: "'w mcu \<Rightarrow> ('c, 'w) dev \<Rightarrow> bool \<times> ('c, 'w) dev" where
  "Endpoint_IsEnabled m s = testr m UECONX EPEN s"

definition Endpoint_GetBusyBanks :: "'w mcu \<Rightarrow> ('c, 'w) dev \<Rightarrow> u8 \<times> ('c, 'w) dev" where
  "Endpoint_GetBusyBanks m s = (let (v, s) = getr m UESTA0X s in (v AND 0x03, s))"

definition Endpoint_IsReadWriteAllowed :: "'w mcu \<Rightarrow> ('c, 'w) dev \<Rightarrow> bool \<times> ('c, 'w) dev" where
  "Endpoint_IsReadWriteAllowed m s = testr m UEINTX RWAL s"

definition Endpoint_IsConfigured :: "'w mcu \<Rightarrow> ('c, 'w) dev \<Rightarrow> bool \<times> ('c, 'w) dev" where
  "Endpoint_IsConfigured m s = testr m UESTA0X CFGOK s"

definition Endpoint_GetEndpointInterrupts :: "'w mcu \<Rightarrow> ('c, 'w) dev \<Rightarrow> u8 \<times> ('c, 'w) dev" where
  "Endpoint_GetEndpointInterrupts m s = getr m UEINT s"

definition Endpoint_HasEndpointInterrupted :: "'w mcu \<Rightarrow> u8 \<Rightarrow> ('c, 'w) dev \<Rightarrow> bool \<times> ('c, 'w) dev" where
  "Endpoint_HasEndpointInterrupted m Address s =
    (let (v, s) = Endpoint_GetEndpointInterrupts m s in (flag v (unat (Address AND ENDPOINT_EPNUM_MASK)), s))"

definition Endpoint_IsINReady :: "'w mcu \<Rightarrow> ('c, 'w) dev \<Rightarrow> bool \<times> ('c, 'w) dev" where
  "Endpoint_IsINReady m s = testr m UEINTX TXINI s"

definition Endpoint_IsOUTReceived :: "'w mcu \<Rightarrow> ('c, 'w) dev \<Rightarrow> bool \<times> ('c, 'w) dev" where
  "Endpoint_IsOUTReceived m s = testr m UEINTX RXOUTI s"

definition Endpoint_IsSETUPReceived :: "'w mcu \<Rightarrow> ('c, 'w) dev \<Rightarrow> bool \<times> ('c, 'w) dev" where
  "Endpoint_IsSETUPReceived m s = testr m UEINTX RXSTPI s"

definition Endpoint_ClearSETUP :: "'w mcu \<Rightarrow> ('c, 'w) dev \<Rightarrow> ('c, 'w) dev" where
  "Endpoint_ClearSETUP m s = modr m UEINTX (clr_flag RXSTPI) s"

definition Endpoint_ClearIN :: "'w mcu \<Rightarrow> ('c, 'w) dev \<Rightarrow> ('c, 'w) dev" where
  "Endpoint_ClearIN m s = modr m UEINTX (\<lambda>v. v AND NOT (bitm TXINI OR bitm FIFOCON)) s"

definition Endpoint_ClearOUT :: "'w mcu \<Rightarrow> ('c, 'w) dev \<Rightarrow> ('c, 'w) dev" where
  "Endpoint_ClearOUT m s = modr m UEINTX (\<lambda>v. v AND NOT (bitm RXOUTI OR bitm FIFOCON)) s"

definition Endpoint_StallTransaction :: "'w mcu \<Rightarrow> ('c, 'w) dev \<Rightarrow> ('c, 'w) dev" where
  "Endpoint_StallTransaction m s = modr m UECONX (set_flag STALLRQ) s"

definition Endpoint_ClearStall :: "'w mcu \<Rightarrow> ('c, 'w) dev \<Rightarrow> ('c, 'w) dev" where
  "Endpoint_ClearStall m s = modr m UECONX (set_flag STALLRQC) s"

definition Endpoint_IsStalled :: "'w mcu \<Rightarrow> ('c, 'w) dev \<Rightarrow> bool \<times> ('c, 'w) dev" where
  "Endpoint_IsStalled m s = testr m UECONX STALLRQ s"

definition Endpoint_ResetDataToggle :: "'w mcu \<Rightarrow> ('c, 'w) dev \<Rightarrow> ('c, 'w) dev" where
  "Endpoint_ResetDataToggle m s = modr m UECONX (set_flag RSTDT) s"

definition Endpoint_SetEndpointDirection :: "'w mcu \<Rightarrow> u8 \<Rightarrow> ('c, 'w) dev \<Rightarrow> ('c, 'w) dev" where
  "Endpoint_SetEndpointDirection m DirectionMask s =
    modr m UECFG0X (\<lambda>v. v AND NOT (bitm EPDIR) OR (if DirectionMask \<noteq> 0 then bitm EPDIR else 0)) s"

definition Endpoint_Read_8 :: "'w mcu \<Rightarrow> ('c, 'w) dev \<Rightarrow> u8 \<times> ('c, 'w) dev" where
  "Endpoint_Read_8 m s = getr m UEDATX s"

definition Endpoint_Write_8 :: "'w mcu \<Rightarrow> u8 \<Rightarrow> ('c, 'w) dev \<Rightarrow> ('c, 'w) dev" where
  "Endpoint_Write_8 m Data s = setr m UEDATX Data s"

definition Endpoint_Discard_8 :: "'w mcu \<Rightarrow> ('c, 'w) dev \<Rightarrow> ('c, 'w) dev" where
  "Endpoint_Discard_8 m s = snd (getr m UEDATX s)"

definition Endpoint_Read_16_LE :: "'w mcu \<Rightarrow> ('c, 'w) dev \<Rightarrow> u16 \<times> ('c, 'w) dev" where
  "Endpoint_Read_16_LE m s = (let (b0, s) = getr m UEDATX s; (b1, s) = getr m UEDATX s in (word16 [b0, b1], s))"

definition Endpoint_Read_16_BE :: "'w mcu \<Rightarrow> ('c, 'w) dev \<Rightarrow> u16 \<times> ('c, 'w) dev" where
  "Endpoint_Read_16_BE m s = (let (b1, s) = getr m UEDATX s; (b0, s) = getr m UEDATX s in (word16 [b0, b1], s))"

definition Endpoint_Write_16_LE :: "'w mcu \<Rightarrow> u16 \<Rightarrow> ('c, 'w) dev \<Rightarrow> ('c, 'w) dev" where
  "Endpoint_Write_16_LE m Data s = setr m UEDATX (ucast (drop_bit 8 Data)) (setr m UEDATX (ucast (Data AND 0xFF)) s)"

definition Endpoint_Write_16_BE :: "'w mcu \<Rightarrow> u16 \<Rightarrow> ('c, 'w) dev \<Rightarrow> ('c, 'w) dev" where
  "Endpoint_Write_16_BE m Data s = setr m UEDATX (ucast (Data AND 0xFF)) (setr m UEDATX (ucast (drop_bit 8 Data)) s)"

definition Endpoint_Discard_16 :: "'w mcu \<Rightarrow> ('c, 'w) dev \<Rightarrow> ('c, 'w) dev" where
  "Endpoint_Discard_16 m s = snd (getr m UEDATX (snd (getr m UEDATX s)))"

definition Endpoint_Read_32_LE :: "'w mcu \<Rightarrow> ('c, 'w) dev \<Rightarrow> u32 \<times> ('c, 'w) dev" where
  "Endpoint_Read_32_LE m s =
    (let (b0, s) = getr m UEDATX s; (b1, s) = getr m UEDATX s; (b2, s) = getr m UEDATX s; (b3, s) = getr m UEDATX s
     in (word32 [b0, b1, b2, b3], s))"

definition Endpoint_Read_32_BE :: "'w mcu \<Rightarrow> ('c, 'w) dev \<Rightarrow> u32 \<times> ('c, 'w) dev" where
  "Endpoint_Read_32_BE m s =
    (let (b3, s) = getr m UEDATX s; (b2, s) = getr m UEDATX s; (b1, s) = getr m UEDATX s; (b0, s) = getr m UEDATX s
     in (word32 [b0, b1, b2, b3], s))"

definition Endpoint_Write_32_LE :: "'w mcu \<Rightarrow> u32 \<Rightarrow> ('c, 'w) dev \<Rightarrow> ('c, 'w) dev" where
  "Endpoint_Write_32_LE m Data s =
    setr m UEDATX (ucast (drop_bit 24 Data)) (setr m UEDATX (ucast (drop_bit 16 Data))
      (setr m UEDATX (ucast (drop_bit 8 Data)) (setr m UEDATX (ucast (Data AND 0xFF)) s)))"

definition Endpoint_Write_32_BE :: "'w mcu \<Rightarrow> u32 \<Rightarrow> ('c, 'w) dev \<Rightarrow> ('c, 'w) dev" where
  "Endpoint_Write_32_BE m Data s =
    setr m UEDATX (ucast (Data AND 0xFF)) (setr m UEDATX (ucast (drop_bit 8 Data))
      (setr m UEDATX (ucast (drop_bit 16 Data)) (setr m UEDATX (ucast (drop_bit 24 Data)) s)))"

definition Endpoint_Discard_32 :: "'w mcu \<Rightarrow> ('c, 'w) dev \<Rightarrow> ('c, 'w) dev" where
  "Endpoint_Discard_32 m s =
    snd (getr m UEDATX (snd (getr m UEDATX (snd (getr m UEDATX (snd (getr m UEDATX s)))))))"

text \<open>Two loops on registers: cancelling the packets that wait in the banks of an IN endpoint.\<close>

definition abort_wait :: "'w mcu \<Rightarrow> ('c, 'w) dev \<Rightarrow> (unit \<times> ('c, 'w) dev) option" where
  "abort_wait m s = floop (\<lambda>_ s. let (b, s) = testr m UEINTX RXOUTI s in
     Some (if b then Inl () else Inr (), s)) () s"

definition Endpoint_AbortPendingIN :: "'w mcu \<Rightarrow> ('c, 'w) dev \<Rightarrow> (unit \<times> ('c, 'w) dev) option" where
  "Endpoint_AbortPendingIN m s = floop (\<lambda>_ s. let (n, s) = Endpoint_GetBusyBanks m s in
     if n \<noteq> 0 then do { (_, s) \<leftarrow> abort_wait m (modr m UEINTX (set_flag RXOUTI) s); Some (Inl (), s) }
     else Some (Inr (), s)) () s"

lemmas endpoint_defs = Endpoint_BytesInEndpoint_def Endpoint_GetEndpointDirection_def Endpoint_GetCurrentEndpoint_def
  Endpoint_SelectEndpoint_def Endpoint_ResetEndpoint_def Endpoint_EnableEndpoint_def Endpoint_DisableEndpoint_def
  Endpoint_IsEnabled_def Endpoint_GetBusyBanks_def Endpoint_IsReadWriteAllowed_def Endpoint_IsConfigured_def
  Endpoint_GetEndpointInterrupts_def Endpoint_HasEndpointInterrupted_def Endpoint_IsINReady_def
  Endpoint_IsOUTReceived_def Endpoint_IsSETUPReceived_def Endpoint_ClearSETUP_def Endpoint_ClearIN_def
  Endpoint_ClearOUT_def Endpoint_StallTransaction_def Endpoint_ClearStall_def Endpoint_IsStalled_def
  Endpoint_ResetDataToggle_def Endpoint_SetEndpointDirection_def Endpoint_Read_8_def Endpoint_Discard_8_def
  Endpoint_Read_16_LE_def Endpoint_Read_16_BE_def Endpoint_Discard_16_def Endpoint_Read_32_LE_def
  Endpoint_Read_32_BE_def Endpoint_Discard_32_def

lemmas endpoint_write_defs = Endpoint_Write_8_def Endpoint_Write_16_LE_def Endpoint_Write_16_BE_def
  Endpoint_Write_32_LE_def Endpoint_Write_32_BE_def

subsection \<open>The controller\<close>

definition USB_OPT_REG_DISABLED :: u8 where "USB_OPT_REG_DISABLED = bitm 1"
definition USB_OPT_MANUAL_PLL :: u8 where "USB_OPT_MANUAL_PLL = bitm 2"
definition USB_OPT_REG_KEEP_ENABLED :: u8 where "USB_OPT_REG_KEEP_ENABLED = bitm 3"
definition USB_DEVICE_OPT_LOWSPEED :: u8 where "USB_DEVICE_OPT_LOWSPEED = bitm 0"

definition option_set :: "'w mcu \<Rightarrow> u8 \<Rightarrow> bool" where
  "option_set m opt \<longleftrightarrow> USB_Options m AND opt \<noteq> 0"

definition USB_VBUS_GetStatus :: "'w mcu \<Rightarrow> ('c, 'w) dev \<Rightarrow> bool \<times> ('c, 'w) dev" where
  "USB_VBUS_GetStatus m s = testr m USBSTA 0 s"

definition USB_Detach :: "'w mcu \<Rightarrow> ('c, 'w) dev \<Rightarrow> ('c, 'w) dev" where
  "USB_Detach m s = modr m UDCON (set_flag DETACH) s"

definition USB_Attach :: "'w mcu \<Rightarrow> ('c, 'w) dev \<Rightarrow> ('c, 'w) dev" where
  "USB_Attach m s = modr m UDCON (clr_flag DETACH) s"

definition USB_PLL_On :: "'w mcu \<Rightarrow> ('c, 'w) dev \<Rightarrow> ('c, 'w) dev" where
  "USB_PLL_On m s = setr m PLLCSR (USB_PLL_PSC m OR bitm PLLE) (setr m PLLCSR (USB_PLL_PSC m) s)"

definition USB_PLL_Off :: "'w mcu \<Rightarrow> ('c, 'w) dev \<Rightarrow> ('c, 'w) dev" where
  "USB_PLL_Off m s = setr m PLLCSR 0 s"

definition USB_PLL_IsReady :: "'w mcu \<Rightarrow> ('c, 'w) dev \<Rightarrow> bool \<times> ('c, 'w) dev" where
  "USB_PLL_IsReady m s = testr m PLLCSR PLOCK s"

definition USB_REG_On :: "'w mcu \<Rightarrow> ('c, 'w) dev \<Rightarrow> ('c, 'w) dev" where
  "USB_REG_On m s = (if series m \<noteq> Series2 then modr m UHWCON (set_flag 0) s else modr m REGCR (clr_flag 0) s)"

definition USB_REG_Off :: "'w mcu \<Rightarrow> ('c, 'w) dev \<Rightarrow> ('c, 'w) dev" where
  "USB_REG_Off m s = (if series m \<noteq> Series2 then modr m UHWCON (clr_flag 0) s else modr m REGCR (set_flag 0) s)"

definition USB_OTGPAD_On :: "'w mcu \<Rightarrow> ('c, 'w) dev \<Rightarrow> ('c, 'w) dev" where
  "USB_OTGPAD_On m s = modr m USBCON (set_flag OTGPADE) s"

definition USB_OTGPAD_Off :: "'w mcu \<Rightarrow> ('c, 'w) dev \<Rightarrow> ('c, 'w) dev" where
  "USB_OTGPAD_Off m s = modr m USBCON (clr_flag OTGPADE) s"

definition USB_CLK_Freeze :: "'w mcu \<Rightarrow> ('c, 'w) dev \<Rightarrow> ('c, 'w) dev" where
  "USB_CLK_Freeze m s = modr m USBCON (set_flag FRZCLK) s"

definition USB_CLK_Unfreeze :: "'w mcu \<Rightarrow> ('c, 'w) dev \<Rightarrow> ('c, 'w) dev" where
  "USB_CLK_Unfreeze m s = modr m USBCON (clr_flag FRZCLK) s"

definition USB_Controller_Enable :: "'w mcu \<Rightarrow> ('c, 'w) dev \<Rightarrow> ('c, 'w) dev" where
  "USB_Controller_Enable m s = modr m USBCON (set_flag USBE) s"

definition USB_Controller_Disable :: "'w mcu \<Rightarrow> ('c, 'w) dev \<Rightarrow> ('c, 'w) dev" where
  "USB_Controller_Disable m s = modr m USBCON (clr_flag USBE) s"

definition USB_Controller_Reset :: "'w mcu \<Rightarrow> ('c, 'w) dev \<Rightarrow> ('c, 'w) dev" where
  "USB_Controller_Reset m s = modr m USBCON (set_flag USBE) (modr m USBCON (clr_flag USBE) s)"

definition pll_wait :: "'w mcu \<Rightarrow> ('c, 'w) dev \<Rightarrow> (unit \<times> ('c, 'w) dev) option" where
  "pll_wait m s = floop (\<lambda>_ s. let (b, s) = USB_PLL_IsReady m s in Some (if b then Inr () else Inl (), s)) () s"

lemmas controller_defs = USB_VBUS_GetStatus_def USB_Detach_def USB_Attach_def USB_PLL_On_def USB_PLL_Off_def
  USB_PLL_IsReady_def USB_REG_On_def USB_REG_Off_def USB_OTGPAD_On_def USB_OTGPAD_Off_def USB_CLK_Freeze_def
  USB_CLK_Unfreeze_def USB_Controller_Enable_def USB_Controller_Disable_def USB_Controller_Reset_def

subsection \<open>Interrupt sources\<close>

datatype usb_interrupt = USB_INT_VBUSTI | USB_INT_IDTI | USB_INT_WAKEUPI | USB_INT_SUSPI | USB_INT_EORSTI
  | USB_INT_SOFI | USB_INT_RXSTPI | USB_INT_HSOFI | USB_INT_DCONNI | USB_INT_DDISCI | USB_INT_RSTI
  | USB_INT_BCERRI | USB_INT_VBERRI | USB_INT_SRPI

fun USB_INT_Enable :: "'w mcu \<Rightarrow> usb_interrupt \<Rightarrow> ('c, 'w) dev \<Rightarrow> ('c, 'w) dev" where
  "USB_INT_Enable m USB_INT_VBUSTI s = modr m USBCON (set_flag VBUSTE) s"
| "USB_INT_Enable m USB_INT_IDTI s = modr m USBCON (set_flag IDTE) s"
| "USB_INT_Enable m USB_INT_WAKEUPI s = modr m UDIEN (set_flag WAKEUPI) s"
| "USB_INT_Enable m USB_INT_SUSPI s = modr m UDIEN (set_flag SUSPI) s"
| "USB_INT_Enable m USB_INT_EORSTI s = modr m UDIEN (set_flag EORSTI) s"
| "USB_INT_Enable m USB_INT_SOFI s = modr m UDIEN (set_flag SOFI) s"
| "USB_INT_Enable m USB_INT_RXSTPI s = modr m UEIENX (set_flag RXSTPE) s"
| "USB_INT_Enable m USB_INT_HSOFI s = modr m UHIEN (set_flag 5) s"
| "USB_INT_Enable m USB_INT_DCONNI s = modr m UHIEN (set_flag 0) s"
| "USB_INT_Enable m USB_INT_DDISCI s = modr m UHIEN (set_flag 1) s"
| "USB_INT_Enable m USB_INT_RSTI s = modr m UHIEN (set_flag 2) s"
| "USB_INT_Enable m USB_INT_BCERRI s = modr m OTGIEN (set_flag 2) s"
| "USB_INT_Enable m USB_INT_VBERRI s = modr m OTGIEN (set_flag 1) s"
| "USB_INT_Enable m USB_INT_SRPI s = modr m OTGIEN (set_flag 0) s"

fun USB_INT_Disable :: "'w mcu \<Rightarrow> usb_interrupt \<Rightarrow> ('c, 'w) dev \<Rightarrow> ('c, 'w) dev" where
  "USB_INT_Disable m USB_INT_VBUSTI s = modr m USBCON (clr_flag VBUSTE) s"
| "USB_INT_Disable m USB_INT_IDTI s = modr m USBCON (clr_flag IDTE) s"
| "USB_INT_Disable m USB_INT_WAKEUPI s = modr m UDIEN (clr_flag WAKEUPI) s"
| "USB_INT_Disable m USB_INT_SUSPI s = modr m UDIEN (clr_flag SUSPI) s"
| "USB_INT_Disable m USB_INT_EORSTI s = modr m UDIEN (clr_flag EORSTI) s"
| "USB_INT_Disable m USB_INT_SOFI s = modr m UDIEN (clr_flag SOFI) s"
| "USB_INT_Disable m USB_INT_RXSTPI s = modr m UEIENX (clr_flag RXSTPE) s"
| "USB_INT_Disable m USB_INT_HSOFI s = modr m UHIEN (clr_flag 5) s"
| "USB_INT_Disable m USB_INT_DCONNI s = modr m UHIEN (clr_flag 0) s"
| "USB_INT_Disable m USB_INT_DDISCI s = modr m UHIEN (clr_flag 1) s"
| "USB_INT_Disable m USB_INT_RSTI s = modr m UHIEN (clr_flag 2) s"
| "USB_INT_Disable m USB_INT_BCERRI s = modr m OTGIEN (clr_flag 2) s"
| "USB_INT_Disable m USB_INT_VBERRI s = modr m OTGIEN (clr_flag 1) s"
| "USB_INT_Disable m USB_INT_SRPI s = modr m OTGIEN (clr_flag 0) s"

fun USB_INT_Clear :: "'w mcu \<Rightarrow> usb_interrupt \<Rightarrow> ('c, 'w) dev \<Rightarrow> ('c, 'w) dev" where
  "USB_INT_Clear m USB_INT_VBUSTI s = modr m USBINT (clr_flag 0) s"
| "USB_INT_Clear m USB_INT_IDTI s = modr m USBINT (clr_flag 1) s"
| "USB_INT_Clear m USB_INT_WAKEUPI s = modr m UDINT (clr_flag WAKEUPI) s"
| "USB_INT_Clear m USB_INT_SUSPI s = modr m UDINT (clr_flag SUSPI) s"
| "USB_INT_Clear m USB_INT_EORSTI s = modr m UDINT (clr_flag EORSTI) s"
| "USB_INT_Clear m USB_INT_SOFI s = modr m UDINT (clr_flag SOFI) s"
| "USB_INT_Clear m USB_INT_RXSTPI s = modr m UEINTX (clr_flag RXSTPI) s"
| "USB_INT_Clear m USB_INT_HSOFI s = modr m UHINT (clr_flag 5) s"
| "USB_INT_Clear m USB_INT_DCONNI s = modr m UHINT (clr_flag 0) s"
| "USB_INT_Clear m USB_INT_DDISCI s = modr m UHINT (clr_flag 1) s"
| "USB_INT_Clear m USB_INT_RSTI s = modr m UHINT (clr_flag 2) s"
| "USB_INT_Clear m USB_INT_BCERRI s = modr m OTGINT (clr_flag 2) s"
| "USB_INT_Clear m USB_INT_VBERRI s = modr m OTGINT (clr_flag 1) s"
| "USB_INT_Clear m USB_INT_SRPI s = modr m OTGINT (clr_flag 0) s"

fun USB_INT_IsEnabled :: "'w mcu \<Rightarrow> usb_interrupt \<Rightarrow> ('c, 'w) dev \<Rightarrow> bool \<times> ('c, 'w) dev" where
  "USB_INT_IsEnabled m USB_INT_VBUSTI s = testr m USBCON VBUSTE s"
| "USB_INT_IsEnabled m USB_INT_IDTI s = testr m USBCON IDTE s"
| "USB_INT_IsEnabled m USB_INT_WAKEUPI s = testr m UDIEN WAKEUPI s"
| "USB_INT_IsEnabled m USB_INT_SUSPI s = testr m UDIEN SUSPI s"
| "USB_INT_IsEnabled m USB_INT_EORSTI s = testr m UDIEN EORSTI s"
| "USB_INT_IsEnabled m USB_INT_SOFI s = testr m UDIEN SOFI s"
| "USB_INT_IsEnabled m USB_INT_RXSTPI s = testr m UEIENX RXSTPE s"
| "USB_INT_IsEnabled m USB_INT_HSOFI s = testr m UHIEN 5 s"
| "USB_INT_IsEnabled m USB_INT_DCONNI s = testr m UHIEN 0 s"
| "USB_INT_IsEnabled m USB_INT_DDISCI s = testr m UHIEN 1 s"
| "USB_INT_IsEnabled m USB_INT_RSTI s = testr m UHIEN 2 s"
| "USB_INT_IsEnabled m USB_INT_BCERRI s = testr m OTGIEN 2 s"
| "USB_INT_IsEnabled m USB_INT_VBERRI s = testr m OTGIEN 1 s"
| "USB_INT_IsEnabled m USB_INT_SRPI s = testr m OTGIEN 0 s"

fun USB_INT_HasOccurred :: "'w mcu \<Rightarrow> usb_interrupt \<Rightarrow> ('c, 'w) dev \<Rightarrow> bool \<times> ('c, 'w) dev" where
  "USB_INT_HasOccurred m USB_INT_VBUSTI s = testr m USBINT 0 s"
| "USB_INT_HasOccurred m USB_INT_IDTI s = testr m USBINT 1 s"
| "USB_INT_HasOccurred m USB_INT_WAKEUPI s = testr m UDINT WAKEUPI s"
| "USB_INT_HasOccurred m USB_INT_SUSPI s = testr m UDINT SUSPI s"
| "USB_INT_HasOccurred m USB_INT_EORSTI s = testr m UDINT EORSTI s"
| "USB_INT_HasOccurred m USB_INT_SOFI s = testr m UDINT SOFI s"
| "USB_INT_HasOccurred m USB_INT_RXSTPI s = testr m UEINTX RXSTPI s"
| "USB_INT_HasOccurred m USB_INT_HSOFI s = testr m UHINT 5 s"
| "USB_INT_HasOccurred m USB_INT_DCONNI s = testr m UHINT 0 s"
| "USB_INT_HasOccurred m USB_INT_DDISCI s = testr m UHINT 1 s"
| "USB_INT_HasOccurred m USB_INT_RSTI s = testr m UHINT 2 s"
| "USB_INT_HasOccurred m USB_INT_BCERRI s = testr m OTGINT 2 s"
| "USB_INT_HasOccurred m USB_INT_VBERRI s = testr m OTGINT 1 s"
| "USB_INT_HasOccurred m USB_INT_SRPI s = testr m OTGINT 0 s"

subsection \<open>The device address, frames, the serial number\<close>

definition USB_Device_GetFrameNumber :: "'w mcu \<Rightarrow> ('c, 'w) dev \<Rightarrow> u16 \<times> ('c, 'w) dev" where
  "USB_Device_GetFrameNumber m s = (let (v, w) = mcu_frame m (world s) in (v, s\<lparr>world := w\<rparr>))"

definition USB_Device_EnableSOFEvents :: "'w mcu \<Rightarrow> ('c, 'w) dev \<Rightarrow> ('c, 'w) dev" where
  "USB_Device_EnableSOFEvents m s = USB_INT_Enable m USB_INT_SOFI s"

definition USB_Device_DisableSOFEvents :: "'w mcu \<Rightarrow> ('c, 'w) dev \<Rightarrow> ('c, 'w) dev" where
  "USB_Device_DisableSOFEvents m s = USB_INT_Disable m USB_INT_SOFI s"

definition USB_Device_SetLowSpeed :: "'w mcu \<Rightarrow> ('c, 'w) dev \<Rightarrow> ('c, 'w) dev" where
  "USB_Device_SetLowSpeed m s = modr m UDCON (set_flag LSM) s"

definition USB_Device_SetFullSpeed :: "'w mcu \<Rightarrow> ('c, 'w) dev \<Rightarrow> ('c, 'w) dev" where
  "USB_Device_SetFullSpeed m s = modr m UDCON (clr_flag LSM) s"

definition USB_Device_SetDeviceAddress :: "'w mcu \<Rightarrow> u8 \<Rightarrow> ('c, 'w) dev \<Rightarrow> ('c, 'w) dev" where
  "USB_Device_SetDeviceAddress m Address s = modr m UDADDR (\<lambda>v. v AND bitm ADDEN OR (Address AND 0x7F)) s"

definition USB_Device_EnableDeviceAddress :: "'w mcu \<Rightarrow> u8 \<Rightarrow> ('c, 'w) dev \<Rightarrow> ('c, 'w) dev" where
  "USB_Device_EnableDeviceAddress m Address s = modr m UDADDR (set_flag ADDEN) s"

definition USB_Device_IsAddressSet :: "'w mcu \<Rightarrow> ('c, 'w) dev \<Rightarrow> bool \<times> ('c, 'w) dev" where
  "USB_Device_IsAddressSet m s = testr m UDADDR ADDEN s"

definition GetGlobalInterruptMask :: "'w mcu \<Rightarrow> ('c, 'w) dev \<Rightarrow> u8 \<times> ('c, 'w) dev" where
  "GetGlobalInterruptMask m s = getr m SREG s"

definition SetGlobalInterruptMask :: "'w mcu \<Rightarrow> u8 \<Rightarrow> ('c, 'w) dev \<Rightarrow> ('c, 'w) dev" where
  "SetGlobalInterruptMask m GlobalIntState s = setr m SREG GlobalIntState s"

definition GlobalInterruptEnable :: "'w mcu \<Rightarrow> ('c, 'w) dev \<Rightarrow> ('c, 'w) dev" where
  "GlobalInterruptEnable m s = modr m SREG (set_flag 7) s"

definition GlobalInterruptDisable :: "'w mcu \<Rightarrow> ('c, 'w) dev \<Rightarrow> ('c, 'w) dev" where
  "GlobalInterruptDisable m s = modr m SREG (clr_flag 7) s"

definition INTERNAL_SERIAL_LENGTH_BITS :: nat where "INTERNAL_SERIAL_LENGTH_BITS = 80"
definition INTERNAL_SERIAL_START_ADDRESS :: u8 where "INTERNAL_SERIAL_START_ADDRESS = 0x0E"

fun serial_chars :: "'w mcu \<Rightarrow> nat \<Rightarrow> u8 \<Rightarrow> nat \<Rightarrow> u16 list" where
  "serial_chars m n SigReadAddress 0 = []"
| "serial_chars m n SigReadAddress (Suc k) =
    (let SerialByte = mcu_signature m SigReadAddress;
         SerialByte = (if odd n then drop_bit 4 SerialByte else SerialByte);
         SigReadAddress = (if odd n then SigReadAddress + 1 else SigReadAddress);
         SerialByte = SerialByte AND 0x0F
     in (if SerialByte \<ge> 10 then 65 - 10 + ucast SerialByte else 48 + ucast SerialByte)
        # serial_chars m (Suc n) SigReadAddress k)"

definition USB_Device_GetSerialString :: "'w mcu \<Rightarrow> ('c, 'w) dev \<Rightarrow> u16 list \<times> ('c, 'w) dev" where
  "USB_Device_GetSerialString m s =
    (let (CurrentGlobalInt, s) = GetGlobalInterruptMask m s; s = GlobalInterruptDisable m s;
         UnicodeString = serial_chars m 0 INTERNAL_SERIAL_START_ADDRESS (INTERNAL_SERIAL_LENGTH_BITS div 4)
     in (UnicodeString, SetGlobalInterruptMask m CurrentGlobalInt s))"

lemmas device_defs = USB_Device_GetFrameNumber_def USB_Device_EnableSOFEvents_def USB_Device_DisableSOFEvents_def
  USB_Device_SetLowSpeed_def USB_Device_SetFullSpeed_def USB_Device_SetDeviceAddress_def
  USB_Device_EnableDeviceAddress_def USB_Device_IsAddressSet_def GetGlobalInterruptMask_def
  SetGlobalInterruptMask_def GlobalInterruptEnable_def GlobalInterruptDisable_def USB_Device_GetSerialString_def

definition remote_wakeup_wait :: "'w mcu \<Rightarrow> ('c, 'w) dev \<Rightarrow> (unit \<times> ('c, 'w) dev) option" where
  "remote_wakeup_wait m s = floop (\<lambda>_ s. let (b, s) = testr m UDCON RMWKUP s in
     Some (if b then Inl () else Inr (), s)) () s"

definition USB_Device_SendRemoteWakeup :: "'w mcu \<Rightarrow> ('c, 'w) dev \<Rightarrow> (unit \<times> ('c, 'w) dev) option" where
  "USB_Device_SendRemoteWakeup m s = do {
     (_, s) \<leftarrow> (if \<not> option_set m USB_OPT_MANUAL_PLL then pll_wait m (USB_PLL_On m s) else Some ((), s));
     remote_wakeup_wait m (modr m UDCON (set_flag RMWKUP) (USB_CLK_Unfreeze m s)) }"

end
