(* ===== verification/USB_Endpoint.thy ===== *)
theory USB_Endpoint
  imports USB_Registers
begin

text \<open>
  Endpoint management and the transfer functions: \<open>Endpoint_AVR8.c\<close>, \<open>EndpointStream_AVR8.c\<close> and the
  three templates it instantiates. A buffer is the list of bytes at its address in RAM, flash or EEPROM,
  a pointer into it an integer offset; an access outside the list is undefined (\<open>None\<close>).
\<close>

subsection \<open>Codes\<close>

definition DEVICE_STATE_Unattached :: u8 where "DEVICE_STATE_Unattached = 0"
definition DEVICE_STATE_Powered :: u8 where "DEVICE_STATE_Powered = 1"
definition DEVICE_STATE_Default :: u8 where "DEVICE_STATE_Default = 2"
definition DEVICE_STATE_Addressed :: u8 where "DEVICE_STATE_Addressed = 3"
definition DEVICE_STATE_Configured :: u8 where "DEVICE_STATE_Configured = 4"
definition DEVICE_STATE_Suspended :: u8 where "DEVICE_STATE_Suspended = 5"

lemmas device_states = DEVICE_STATE_Unattached_def DEVICE_STATE_Powered_def DEVICE_STATE_Default_def
  DEVICE_STATE_Addressed_def DEVICE_STATE_Configured_def DEVICE_STATE_Suspended_def

definition ENDPOINT_READYWAIT_NoError :: u8 where [simp]: "ENDPOINT_READYWAIT_NoError = 0"
definition ENDPOINT_READYWAIT_EndpointStalled :: u8 where [simp]: "ENDPOINT_READYWAIT_EndpointStalled = 1"
definition ENDPOINT_READYWAIT_DeviceDisconnected :: u8 where [simp]: "ENDPOINT_READYWAIT_DeviceDisconnected = 2"
definition ENDPOINT_READYWAIT_BusSuspended :: u8 where [simp]: "ENDPOINT_READYWAIT_BusSuspended = 3"
definition ENDPOINT_READYWAIT_Timeout :: u8 where [simp]: "ENDPOINT_READYWAIT_Timeout = 4"

definition ENDPOINT_RWSTREAM_NoError :: u8 where [simp]: "ENDPOINT_RWSTREAM_NoError = 0"
definition ENDPOINT_RWSTREAM_DeviceDisconnected :: u8 where [simp]: "ENDPOINT_RWSTREAM_DeviceDisconnected = 2"
definition ENDPOINT_RWSTREAM_IncompleteTransfer :: u8 where [simp]: "ENDPOINT_RWSTREAM_IncompleteTransfer = 5"

definition ENDPOINT_RWCSTREAM_NoError :: u8 where [simp]: "ENDPOINT_RWCSTREAM_NoError = 0"
definition ENDPOINT_RWCSTREAM_HostAborted :: u8 where [simp]: "ENDPOINT_RWCSTREAM_HostAborted = 1"
definition ENDPOINT_RWCSTREAM_DeviceDisconnected :: u8 where [simp]: "ENDPOINT_RWCSTREAM_DeviceDisconnected = 2"
definition ENDPOINT_RWCSTREAM_BusSuspended :: u8 where [simp]: "ENDPOINT_RWCSTREAM_BusSuspended = 3"

definition USB_STREAM_TIMEOUT_MS :: u8 where "USB_STREAM_TIMEOUT_MS = 100"
definition USB_Device_ControlEndpointSize :: u16 where "USB_Device_ControlEndpointSize = 8"

subsection \<open>Configuration\<close>

record USB_Endpoint_Table =
  Address :: u8
  Size :: u16
  Type :: u8
  Banks :: u8

text \<open>
  Reconfiguring an endpoint moves the memory of the endpoints above it, so they are released and
  allocated again in ascending order.
\<close>

fun configure_from :: "'w mcu \<Rightarrow> u8 \<Rightarrow> u8 \<Rightarrow> u8 \<Rightarrow> u8 list \<Rightarrow> ('c, 'w) dev \<Rightarrow> bool \<times> ('c, 'w) dev" where
  "configure_from m Number UECFG0XData UECFG1XData [] s = (True, Endpoint_SelectEndpoint m Number s)"
| "configure_from m Number UECFG0XData UECFG1XData (EPNum # EPNums) s =
    (let s = Endpoint_SelectEndpoint m EPNum s;
         (UECFG0XTemp, UECFG1XTemp, UEIENXTemp, s) =
           (if EPNum = Number then (UECFG0XData, UECFG1XData, 0, s)
            else let (c0, s) = getr m UECFG0X s; (c1, s) = getr m UECFG1X s; (ie, s) = getr m UEIENX s in (c0, c1, ie, s))
     in if \<not> flag UECFG1XTemp ALLOC then configure_from m Number UECFG0XData UECFG1XData EPNums s
        else
          let s = modr m UECFG1X (clr_flag ALLOC) (Endpoint_DisableEndpoint m s);
              s = Endpoint_EnableEndpoint m s;
              s = setr m UEIENX UEIENXTemp (setr m UECFG1X UECFG1XTemp (setr m UECFG0X UECFG0XTemp s));
              (ok, s) = Endpoint_IsConfigured m s
          in if \<not> ok then (False, s) else configure_from m Number UECFG0XData UECFG1XData EPNums s)"

definition Endpoint_ConfigureEndpoint_Prv :: "'w mcu \<Rightarrow> u8 \<Rightarrow> u8 \<Rightarrow> u8 \<Rightarrow> ('c, 'w) dev \<Rightarrow> bool \<times> ('c, 'w) dev" where
  "Endpoint_ConfigureEndpoint_Prv m Number UECFG0XData UECFG1XData s =
    configure_from m Number UECFG0XData UECFG1XData
      (map of_nat [unat Number ..< unat (ENDPOINT_TOTAL_ENDPOINTS m)]) s"

definition Endpoint_ConfigureEndpoint ::
    "'w mcu \<Rightarrow> u8 \<Rightarrow> u8 \<Rightarrow> u16 \<Rightarrow> u8 \<Rightarrow> ('c, 'w) dev \<Rightarrow> (bool \<times> ('c, 'w) dev) option" where
  "Endpoint_ConfigureEndpoint m Addr Typ Siz Bnks s =
    (let Number = Addr AND ENDPOINT_EPNUM_MASK in
     if Number \<ge> ENDPOINT_TOTAL_ENDPOINTS m then Some (False, s)
     else do {
       szmask \<leftarrow> Endpoint_BytesToEPSizeMask Siz;
       Some (Endpoint_ConfigureEndpoint_Prv m Number
         (push_bit EPTYPE0 Typ OR (if Addr AND ENDPOINT_DIR_IN \<noteq> 0 then bitm EPDIR else 0))
         (bitm ALLOC OR (if Bnks > 1 then bitm EPBK0 else 0) OR szmask) s) })"

fun Endpoint_ConfigureEndpointTable ::
    "'w mcu \<Rightarrow> USB_Endpoint_Table list \<Rightarrow> ('c, 'w) dev \<Rightarrow> (bool \<times> ('c, 'w) dev) option" where
  "Endpoint_ConfigureEndpointTable m [] s = Some (True, s)"
| "Endpoint_ConfigureEndpointTable m (t # Table) s =
    (if Address t = 0 then Endpoint_ConfigureEndpointTable m Table s
     else do {
       (ok, s) \<leftarrow> Endpoint_ConfigureEndpoint m (Address t) (Type t) (Size t) (Banks t) s;
       if ok then Endpoint_ConfigureEndpointTable m Table s else Some (False, s) })"

fun clear_endpoints :: "'w mcu \<Rightarrow> u8 list \<Rightarrow> ('c, 'w) dev \<Rightarrow> ('c, 'w) dev" where
  "clear_endpoints m [] s = s"
| "clear_endpoints m (EPNum # EPNums) s = clear_endpoints m EPNums
    (Endpoint_DisableEndpoint m (setr m UECFG1X 0 (setr m UEINTX 0 (setr m UEIENX 0 (Endpoint_SelectEndpoint m EPNum s)))))"

definition Endpoint_ClearEndpoints :: "'w mcu \<Rightarrow> ('c, 'w) dev \<Rightarrow> ('c, 'w) dev" where
  "Endpoint_ClearEndpoints m s =
    clear_endpoints m (map of_nat [0 ..< unat (ENDPOINT_TOTAL_ENDPOINTS m)]) (setr m UEINT 0 s)"

subsection \<open>Waiting\<close>

text \<open>
  The two forms of waiting on a flag: forever, and until the device is unattached (then the result is
  false and the caller returns).
\<close>

definition wait_for :: "(('c, 'w) dev \<Rightarrow> bool \<times> ('c, 'w) dev) \<Rightarrow> ('c, 'w) dev \<Rightarrow> (unit \<times> ('c, 'w) dev) option" where
  "wait_for ready s = floop (\<lambda>_ s. let (b, s) = ready s in Some (if b then Inr () else Inl (), s)) () s"

definition wait_attached ::
    "'w mcu \<Rightarrow> (('c, 'w) dev \<Rightarrow> bool \<times> ('c, 'w) dev) \<Rightarrow> ('c, 'w) dev \<Rightarrow> (bool \<times> ('c, 'w) dev) option" where
  "wait_attached m ready s = floop (\<lambda>_ s. let (b, s) = ready s in
     if b then Some (Inr True, s)
     else let (st, s) = getr m USB_DeviceState s in
       Some (if st = DEVICE_STATE_Unattached then Inr False else Inl (), s)) () s"

definition Endpoint_ClearStatusStage :: "'w mcu \<Rightarrow> ('c, 'w) dev \<Rightarrow> (unit \<times> ('c, 'w) dev) option" where
  "Endpoint_ClearStatusStage m s =
    (if flag (bmRequestType (USB_ControlRequest s)) 7
     then do {
       (ok, s) \<leftarrow> wait_attached m (Endpoint_IsOUTReceived m) s;
       Some ((), if ok then Endpoint_ClearOUT m s else s) }
     else do {
       (ok, s) \<leftarrow> wait_attached m (Endpoint_IsINReady m) s;
       Some ((), if ok then Endpoint_ClearIN m s else s) })"

definition ready_poll :: "'w mcu \<Rightarrow> ('c, 'w) dev \<Rightarrow> bool \<times> ('c, 'w) dev" where
  "ready_poll m s = (let (d, s) = Endpoint_GetEndpointDirection m s in
     if d = ENDPOINT_DIR_IN then Endpoint_IsINReady m s else Endpoint_IsOUTReceived m s)"

definition ready_body ::
    "'w mcu \<Rightarrow> u8 \<times> u16 \<Rightarrow> ('c, 'w) dev \<Rightarrow> ((u8 \<times> u16 + u8) \<times> ('c, 'w) dev) option" where
  "ready_body m l s = (case l of (TimeoutMSRem, PreviousFrameNumber) \<Rightarrow>
     let (ready, s) = ready_poll m s in
     if ready then Some (Inr ENDPOINT_READYWAIT_NoError, s)
     else let (st, s) = getr m USB_DeviceState s in
     if st = DEVICE_STATE_Unattached then Some (Inr ENDPOINT_READYWAIT_DeviceDisconnected, s)
     else if st = DEVICE_STATE_Suspended then Some (Inr ENDPOINT_READYWAIT_BusSuspended, s)
     else let (stalled, s) = Endpoint_IsStalled m s in
     if stalled then Some (Inr ENDPOINT_READYWAIT_EndpointStalled, s)
     else let (CurrentFrameNumber, s) = USB_Device_GetFrameNumber m s in
     if CurrentFrameNumber \<noteq> PreviousFrameNumber
     then if TimeoutMSRem = 0 then Some (Inr ENDPOINT_READYWAIT_Timeout, s)
          else Some (Inl (TimeoutMSRem - 1, CurrentFrameNumber), s)
     else Some (Inl (TimeoutMSRem, PreviousFrameNumber), s))"

definition Endpoint_WaitUntilReady :: "'w mcu \<Rightarrow> ('c, 'w) dev \<Rightarrow> (u8 \<times> ('c, 'w) dev) option" where
  "Endpoint_WaitUntilReady m s =
    (let (PreviousFrameNumber, s) = USB_Device_GetFrameNumber m s in
     floop (ready_body m) (USB_STREAM_TIMEOUT_MS, PreviousFrameNumber) s)"

subsection \<open>Streams\<close>

text \<open>
  The read and write template. Its parameters are the macros of the source: how the endpoint's bank is
  released, the direction in which the buffer is walked (\<open>1\<close> or \<open>-1\<close>) and the transfer of one byte
  between the buffer and the endpoint. \<open>BytesProcessed\<close> is \<open>None\<close> for a null pointer; the result holds
  the error code, the new value behind the pointer and the buffer.
\<close>

type_synonym ('c, 'w) transfer = "int \<Rightarrow> u8 list \<Rightarrow> ('c, 'w) dev \<Rightarrow> (u8 list \<times> ('c, 'w) dev) option"

definition write_byte :: "'w mcu \<Rightarrow> ('c, 'w) transfer" where
  "write_byte m pos buf s =
    (if 0 \<le> pos \<and> nat pos < length buf then Some (buf, Endpoint_Write_8 m (buf ! nat pos) s) else None)"

definition read_byte :: "'w mcu \<Rightarrow> ('c, 'w) transfer" where
  "read_byte m pos buf s = (let (v, s) = Endpoint_Read_8 m s in
     if 0 \<le> pos \<and> nat pos < length buf then Some (buf[nat pos := v], s) else None)"

definition buffer_offset :: "int \<Rightarrow> u16 \<Rightarrow> int" where
  "buffer_offset dir Length = (if dir = 1 then 0 else uint Length - 1)"

definition rw_body ::
    "'w mcu \<Rightarrow> (('c, 'w) dev \<Rightarrow> ('c, 'w) dev) \<Rightarrow> int \<Rightarrow> ('c, 'w) transfer \<Rightarrow> u16 option \<Rightarrow>
     u16 \<times> int \<times> u16 \<times> u8 list \<Rightarrow> ('c, 'w) dev \<Rightarrow>
     ((u16 \<times> int \<times> u16 \<times> u8 list + u8 \<times> u16 option \<times> u8 list) \<times> ('c, 'w) dev) option" where
  "rw_body m clear dir transfer BytesProcessed l s = (case l of (Length, pos, BytesInTransfer, buf) \<Rightarrow>
     if Length = 0 then Some (Inr (ENDPOINT_RWSTREAM_NoError, BytesProcessed, buf), s)
     else let (rw, s) = Endpoint_IsReadWriteAllowed m s in
     if \<not> rw then let s = clear s in
       case BytesProcessed of
         Some bp \<Rightarrow> Some (Inr (ENDPOINT_RWSTREAM_IncompleteTransfer, Some (bp + BytesInTransfer), buf), s)
       | None \<Rightarrow> do {
           (e, s) \<leftarrow> Endpoint_WaitUntilReady m s;
           Some (if e \<noteq> 0 then Inr (e, None, buf) else Inl (Length, pos, BytesInTransfer, buf), s) }
     else do {
       (buf, s) \<leftarrow> transfer pos buf s;
       Some (Inl (Length - 1, pos + dir, BytesInTransfer + 1, buf), s) })"

definition template_rw ::
    "'w mcu \<Rightarrow> (('c, 'w) dev \<Rightarrow> ('c, 'w) dev) \<Rightarrow> int \<Rightarrow> ('c, 'w) transfer \<Rightarrow> u8 list \<Rightarrow> u16 \<Rightarrow> u16 option \<Rightarrow>
     ('c, 'w) dev \<Rightarrow> ((u8 \<times> u16 option \<times> u8 list) \<times> ('c, 'w) dev) option" where
  "template_rw m clear dir transfer buf Length BytesProcessed s = do {
     (e, s) \<leftarrow> Endpoint_WaitUntilReady m s;
     if e \<noteq> 0 then Some ((e, BytesProcessed, buf), s)
     else case BytesProcessed of
       None \<Rightarrow> floop (rw_body m clear dir transfer BytesProcessed) (Length, buffer_offset dir Length, 0, buf) s
     | Some bp \<Rightarrow> floop (rw_body m clear dir transfer BytesProcessed)
         (Length - bp, buffer_offset dir Length + dir * uint bp, 0, buf) s }"

definition Endpoint_Write_Stream_LE where
  "Endpoint_Write_Stream_LE m = template_rw m (Endpoint_ClearIN m) 1 (write_byte m)"

definition Endpoint_Write_Stream_BE where
  "Endpoint_Write_Stream_BE m = template_rw m (Endpoint_ClearIN m) (- 1) (write_byte m)"

definition Endpoint_Read_Stream_LE where
  "Endpoint_Read_Stream_LE m = template_rw m (Endpoint_ClearOUT m) 1 (read_byte m)"

definition Endpoint_Read_Stream_BE where
  "Endpoint_Read_Stream_BE m = template_rw m (Endpoint_ClearOUT m) (- 1) (read_byte m)"

definition Endpoint_Write_PStream_LE where
  "Endpoint_Write_PStream_LE m = template_rw m (Endpoint_ClearIN m) 1 (write_byte m)"

definition Endpoint_Write_PStream_BE where
  "Endpoint_Write_PStream_BE m = template_rw m (Endpoint_ClearIN m) (- 1) (write_byte m)"

definition Endpoint_Write_EStream_LE where
  "Endpoint_Write_EStream_LE m = template_rw m (Endpoint_ClearIN m) 1 (write_byte m)"

definition Endpoint_Write_EStream_BE where
  "Endpoint_Write_EStream_BE m = template_rw m (Endpoint_ClearIN m) (- 1) (write_byte m)"

definition Endpoint_Read_EStream_LE where
  "Endpoint_Read_EStream_LE m = template_rw m (Endpoint_ClearOUT m) 1 (read_byte m)"

definition Endpoint_Read_EStream_BE where
  "Endpoint_Read_EStream_BE m = template_rw m (Endpoint_ClearOUT m) (- 1) (read_byte m)"

text \<open>Discarding bytes and sending zeros: the same loop without a buffer.\<close>

definition null_body ::
    "'w mcu \<Rightarrow> (('c, 'w) dev \<Rightarrow> ('c, 'w) dev) \<Rightarrow> (('c, 'w) dev \<Rightarrow> ('c, 'w) dev) \<Rightarrow> u16 option \<Rightarrow>
     u16 \<times> u16 \<Rightarrow> ('c, 'w) dev \<Rightarrow> ((u16 \<times> u16 + u8 \<times> u16 option) \<times> ('c, 'w) dev) option" where
  "null_body m clear transfer BytesProcessed l s = (case l of (Length, BytesInTransfer) \<Rightarrow>
     if Length = 0 then Some (Inr (ENDPOINT_RWSTREAM_NoError, BytesProcessed), s)
     else let (rw, s) = Endpoint_IsReadWriteAllowed m s in
     if \<not> rw then let s = clear s in
       case BytesProcessed of
         Some bp \<Rightarrow> Some (Inr (ENDPOINT_RWSTREAM_IncompleteTransfer, Some (bp + BytesInTransfer)), s)
       | None \<Rightarrow> do {
           (e, s) \<leftarrow> Endpoint_WaitUntilReady m s;
           Some (if e \<noteq> 0 then Inr (e, None) else Inl (Length, BytesInTransfer), s) }
     else Some (Inl (Length - 1, BytesInTransfer + 1), transfer s))"

definition Endpoint_Discard_Stream ::
    "'w mcu \<Rightarrow> u16 \<Rightarrow> u16 option \<Rightarrow> ('c, 'w) dev \<Rightarrow> ((u8 \<times> u16 option) \<times> ('c, 'w) dev) option" where
  "Endpoint_Discard_Stream m Length BytesProcessed s = do {
     (e, s) \<leftarrow> Endpoint_WaitUntilReady m s;
     if e \<noteq> 0 then Some ((e, BytesProcessed), s)
     else floop (null_body m (Endpoint_ClearOUT m) (Endpoint_Discard_8 m) BytesProcessed)
       (case BytesProcessed of None \<Rightarrow> Length | Some bp \<Rightarrow> Length - bp, 0) s }"

definition Endpoint_Null_Stream ::
    "'w mcu \<Rightarrow> u16 \<Rightarrow> u16 option \<Rightarrow> ('c, 'w) dev \<Rightarrow> ((u8 \<times> u16 option) \<times> ('c, 'w) dev) option" where
  "Endpoint_Null_Stream m Length BytesProcessed s = do {
     (e, s) \<leftarrow> Endpoint_WaitUntilReady m s;
     if e \<noteq> 0 then Some ((e, BytesProcessed), s)
     else floop (null_body m (Endpoint_ClearIN m) (Endpoint_Write_8 m 0) BytesProcessed)
       (case BytesProcessed of None \<Rightarrow> Length | Some bp \<Rightarrow> Length - bp, 0) s }"

subsection \<open>Control streams\<close>

text \<open>The wait for the status stage at the end of both control templates.\<close>

definition status_body ::
    "'w mcu \<Rightarrow> (('c, 'w) dev \<Rightarrow> bool \<times> ('c, 'w) dev) \<Rightarrow> unit \<Rightarrow> ('c, 'w) dev \<Rightarrow> ((unit + u8) \<times> ('c, 'w) dev) option" where
  "status_body m ready l s = (let (b, s) = ready s in
     if b then Some (Inr ENDPOINT_RWCSTREAM_NoError, s)
     else let (st, s) = getr m USB_DeviceState s in
       Some (if st = DEVICE_STATE_Unattached then Inr ENDPOINT_RWCSTREAM_DeviceDisconnected
             else if st = DEVICE_STATE_Suspended then Inr ENDPOINT_RWCSTREAM_BusSuspended else Inl (), s))"

definition fill_body ::
    "int \<Rightarrow> ('c, 'w) transfer \<Rightarrow> u8 list \<Rightarrow> u16 \<times> int \<times> u16 \<Rightarrow> ('c, 'w) dev \<Rightarrow>
     ((u16 \<times> int \<times> u16 + u16 \<times> int \<times> u16) \<times> ('c, 'w) dev) option" where
  "fill_body dir transfer buf l s = (case l of (Length, pos, BytesInEndpoint) \<Rightarrow>
     if Length \<noteq> 0 \<and> BytesInEndpoint < USB_Device_ControlEndpointSize
     then do { (_, s) \<leftarrow> transfer pos buf s; Some (Inl (Length - 1, pos + dir, BytesInEndpoint + 1), s) }
     else Some (Inr (Length, pos, BytesInEndpoint), s))"

definition cw_body ::
    "'w mcu \<Rightarrow> int \<Rightarrow> ('c, 'w) transfer \<Rightarrow> u8 list \<Rightarrow> u16 \<times> int \<times> bool \<Rightarrow> ('c, 'w) dev \<Rightarrow>
     ((u16 \<times> int \<times> bool + u8 option) \<times> ('c, 'w) dev) option" where
  "cw_body m dir transfer buf l s = (case l of (Length, pos, LastPacketFull) \<Rightarrow>
     if \<not> (Length \<noteq> 0 \<or> LastPacketFull) then Some (Inr None, s)
     else let (st, s) = getr m USB_DeviceState s in
     if st = DEVICE_STATE_Unattached then Some (Inr (Some ENDPOINT_RWCSTREAM_DeviceDisconnected), s)
     else if st = DEVICE_STATE_Suspended then Some (Inr (Some ENDPOINT_RWCSTREAM_BusSuspended), s)
     else let (setup, s) = Endpoint_IsSETUPReceived m s in
     if setup then Some (Inr (Some ENDPOINT_RWCSTREAM_HostAborted), s)
     else let (out, s) = Endpoint_IsOUTReceived m s in
     if out then Some (Inr None, s)
     else let (inready, s) = Endpoint_IsINReady m s in
     if inready then do {
       let (BytesInEndpoint, s) = Endpoint_BytesInEndpoint m s;
       ((Length, pos, BytesInEndpoint), s) \<leftarrow> floop (fill_body dir transfer buf) (Length, pos, BytesInEndpoint) s;
       Some (Inl (Length, pos, BytesInEndpoint = USB_Device_ControlEndpointSize), Endpoint_ClearIN m s) }
     else Some (Inl (Length, pos, LastPacketFull), s))"

definition template_control_w ::
    "'w mcu \<Rightarrow> int \<Rightarrow> ('c, 'w) transfer \<Rightarrow> u8 list \<Rightarrow> u16 \<Rightarrow> ('c, 'w) dev \<Rightarrow> (u8 \<times> ('c, 'w) dev) option" where
  "template_control_w m dir transfer buf Length s = (
     let pos = buffer_offset dir Length;
         (Length, s) = (if Length > wLength (USB_ControlRequest s) then (wLength (USB_ControlRequest s), s)
                        else if Length = 0 then (Length, Endpoint_ClearIN m s) else (Length, s))
     in do {
       (r, s) \<leftarrow> floop (cw_body m dir transfer buf) (Length, pos, False) s;
       case r of Some e \<Rightarrow> Some (e, s) | None \<Rightarrow> floop (status_body m (Endpoint_IsOUTReceived m)) () s })"

definition drain_body ::
    "'w mcu \<Rightarrow> int \<Rightarrow> ('c, 'w) transfer \<Rightarrow> u16 \<times> int \<times> u8 list \<Rightarrow> ('c, 'w) dev \<Rightarrow>
     ((u16 \<times> int \<times> u8 list + u16 \<times> int \<times> u8 list) \<times> ('c, 'w) dev) option" where
  "drain_body m dir transfer l s = (case l of (Length, pos, buf) \<Rightarrow>
     if Length = 0 then Some (Inr l, s)
     else let (n, s) = Endpoint_BytesInEndpoint m s in
     if n = 0 then Some (Inr l, s)
     else do { (buf, s) \<leftarrow> transfer pos buf s; Some (Inl (Length - 1, pos + dir, buf), s) })"

definition cr_body ::
    "'w mcu \<Rightarrow> int \<Rightarrow> ('c, 'w) transfer \<Rightarrow> u16 \<times> int \<times> u8 list \<Rightarrow> ('c, 'w) dev \<Rightarrow>
     ((u16 \<times> int \<times> u8 list + u8 option \<times> u8 list) \<times> ('c, 'w) dev) option" where
  "cr_body m dir transfer l s = (case l of (Length, pos, buf) \<Rightarrow>
     if Length = 0 then Some (Inr (None, buf), s)
     else let (st, s) = getr m USB_DeviceState s in
     if st = DEVICE_STATE_Unattached then Some (Inr (Some ENDPOINT_RWCSTREAM_DeviceDisconnected, buf), s)
     else if st = DEVICE_STATE_Suspended then Some (Inr (Some ENDPOINT_RWCSTREAM_BusSuspended, buf), s)
     else let (setup, s) = Endpoint_IsSETUPReceived m s in
     if setup then Some (Inr (Some ENDPOINT_RWCSTREAM_HostAborted, buf), s)
     else let (out, s) = Endpoint_IsOUTReceived m s in
     if out then do {
       (l, s) \<leftarrow> floop (drain_body m dir transfer) l s;
       Some (Inl l, Endpoint_ClearOUT m s) }
     else Some (Inl l, s))"

definition template_control_r ::
    "'w mcu \<Rightarrow> int \<Rightarrow> ('c, 'w) transfer \<Rightarrow> u8 list \<Rightarrow> u16 \<Rightarrow> ('c, 'w) dev \<Rightarrow> ((u8 \<times> u8 list) \<times> ('c, 'w) dev) option" where
  "template_control_r m dir transfer buf Length s = (
     let s = (if Length = 0 then Endpoint_ClearOUT m s else s)
     in do {
       ((r, buf), s) \<leftarrow> floop (cr_body m dir transfer) (Length, buffer_offset dir Length, buf) s;
       case r of Some e \<Rightarrow> Some ((e, buf), s)
       | None \<Rightarrow> do { (e, s) \<leftarrow> floop (status_body m (Endpoint_IsINReady m)) () s; Some ((e, buf), s) } })"

definition Endpoint_Write_Control_Stream_LE where
  "Endpoint_Write_Control_Stream_LE m = template_control_w m 1 (write_byte m)"

definition Endpoint_Write_Control_Stream_BE where
  "Endpoint_Write_Control_Stream_BE m = template_control_w m (- 1) (write_byte m)"

definition Endpoint_Read_Control_Stream_LE where
  "Endpoint_Read_Control_Stream_LE m = template_control_r m 1 (read_byte m)"

definition Endpoint_Read_Control_Stream_BE where
  "Endpoint_Read_Control_Stream_BE m = template_control_r m (- 1) (read_byte m)"

definition Endpoint_Write_Control_PStream_LE where
  "Endpoint_Write_Control_PStream_LE m = template_control_w m 1 (write_byte m)"

definition Endpoint_Write_Control_PStream_BE where
  "Endpoint_Write_Control_PStream_BE m = template_control_w m (- 1) (write_byte m)"

definition Endpoint_Write_Control_EStream_LE where
  "Endpoint_Write_Control_EStream_LE m = template_control_w m 1 (write_byte m)"

definition Endpoint_Write_Control_EStream_BE where
  "Endpoint_Write_Control_EStream_BE m = template_control_w m (- 1) (write_byte m)"

definition Endpoint_Read_Control_EStream_LE where
  "Endpoint_Read_Control_EStream_LE m = template_control_r m 1 (read_byte m)"

definition Endpoint_Read_Control_EStream_BE where
  "Endpoint_Read_Control_EStream_BE m = template_control_r m (- 1) (read_byte m)"

end
