(* ===== verification/USB_Device.thy ===== *)
theory USB_Device
  imports USB_Endpoint
begin

text \<open>
  Control requests and the life of the device: \<open>DeviceStandardReq.c\<close>, \<open>USBTask.c\<close>,
  \<open>USBController_AVR8.c\<close> and \<open>USBInterrupt_AVR8.c\<close>, in the device-only configuration of the firmware
  (\<open>USB_DEVICE_ONLY\<close>, \<open>FIXED_CONTROL_ENDPOINT_SIZE\<close> 8, \<open>FIXED_NUM_CONFIGURATIONS\<close> 1,
  \<open>USE_FLASH_DESCRIPTORS\<close>, \<open>INTERRUPT_CONTROL_ENDPOINT\<close>). The events of the application are the
  argument \<open>ev\<close>.
\<close>

subsection \<open>Request codes\<close>

definition REQDIR_HOSTTODEVICE :: u8 where [simp]: "REQDIR_HOSTTODEVICE = 0x00"
definition REQDIR_DEVICETOHOST :: u8 where [simp]: "REQDIR_DEVICETOHOST = 0x80"
definition REQTYPE_STANDARD :: u8 where [simp]: "REQTYPE_STANDARD = 0x00"
definition REQTYPE_CLASS :: u8 where [simp]: "REQTYPE_CLASS = 0x20"
definition REQREC_DEVICE :: u8 where [simp]: "REQREC_DEVICE = 0x00"
definition REQREC_INTERFACE :: u8 where [simp]: "REQREC_INTERFACE = 0x01"
definition REQREC_ENDPOINT :: u8 where [simp]: "REQREC_ENDPOINT = 0x02"
definition CONTROL_REQTYPE_RECIPIENT :: u8 where [simp]: "CONTROL_REQTYPE_RECIPIENT = 0x1F"
definition REQ_GetStatus :: u8 where [simp]: "REQ_GetStatus = 0"
definition REQ_ClearFeature :: u8 where [simp]: "REQ_ClearFeature = 1"
definition REQ_SetFeature :: u8 where [simp]: "REQ_SetFeature = 3"
definition REQ_SetAddress :: u8 where [simp]: "REQ_SetAddress = 5"
definition REQ_GetDescriptor :: u8 where [simp]: "REQ_GetDescriptor = 6"
definition REQ_GetConfiguration :: u8 where [simp]: "REQ_GetConfiguration = 8"
definition REQ_SetConfiguration :: u8 where [simp]: "REQ_SetConfiguration = 9"
definition FEATURE_SEL_EndpointHalt :: u8 where [simp]: "FEATURE_SEL_EndpointHalt = 0"
definition FEATURE_SEL_DeviceRemoteWakeup :: u8 where [simp]: "FEATURE_SEL_DeviceRemoteWakeup = 1"
definition FEATURE_SELFPOWERED_ENABLED :: u16 where [simp]: "FEATURE_SELFPOWERED_ENABLED = 1"
definition FEATURE_REMOTE_WAKEUP_ENABLED :: u16 where [simp]: "FEATURE_REMOTE_WAKEUP_ENABLED = 2"
definition DTYPE_Device :: u8 where [simp]: "DTYPE_Device = 0x01"
definition DTYPE_Configuration :: u8 where [simp]: "DTYPE_Configuration = 0x02"
definition DTYPE_String :: u8 where [simp]: "DTYPE_String = 0x03"
definition DTYPE_Interface :: u8 where [simp]: "DTYPE_Interface = 0x04"
definition DTYPE_Endpoint :: u8 where [simp]: "DTYPE_Endpoint = 0x05"
definition DTYPE_CSInterface :: u8 where [simp]: "DTYPE_CSInterface = 0x24"
definition NO_DESCRIPTOR :: u16 where [simp]: "NO_DESCRIPTOR = 0"
definition USE_INTERNAL_SERIAL :: u8 where [simp]: "USE_INTERNAL_SERIAL = 0xDC"
definition FIXED_NUM_CONFIGURATIONS :: u8 where [simp]: "FIXED_NUM_CONFIGURATIONS = 1"

subsection \<open>Standard requests\<close>

definition USB_Device_SetAddress :: "'w mcu \<Rightarrow> ('c, 'w) dev \<Rightarrow> ('c, 'w) dev option" where
  "USB_Device_SetAddress m s = do {
     let DeviceAddress = (ucast (wValue (USB_ControlRequest s) AND 0x7F) :: u8);
     let s = Endpoint_ClearSETUP m (USB_Device_SetDeviceAddress m DeviceAddress s);
     (_, s) \<leftarrow> Endpoint_ClearStatusStage m s;
     (_, s) \<leftarrow> wait_for (Endpoint_IsINReady m) s;
     let s = USB_Device_EnableDeviceAddress m DeviceAddress s;
     Some (setr m USB_DeviceState
       (if DeviceAddress \<noteq> 0 then DEVICE_STATE_Addressed else DEVICE_STATE_Default) s) }"

definition USB_Device_SetConfiguration :: "'w mcu \<Rightarrow> ('c, 'w) events \<Rightarrow> ('c, 'w) dev \<Rightarrow> ('c, 'w) dev option" where
  "USB_Device_SetConfiguration m ev s =
    (if (ucast (wValue (USB_ControlRequest s)) :: u8) > FIXED_NUM_CONFIGURATIONS then Some s
     else do {
       let s = Endpoint_ClearSETUP m s;
       let s = s\<lparr>USB_Device_ConfigurationNumber := ucast (wValue (USB_ControlRequest s))\<rparr>;
       (_, s) \<leftarrow> Endpoint_ClearStatusStage m s;
       let s = (if USB_Device_ConfigurationNumber s \<noteq> 0 then setr m USB_DeviceState DEVICE_STATE_Configured s
                else let (a, s) = USB_Device_IsAddressSet m s in
                  setr m USB_DeviceState (if a then DEVICE_STATE_Configured else DEVICE_STATE_Powered) s);
       EVENT_USB_Device_ConfigurationChanged ev s })"

definition USB_Device_GetConfiguration :: "'w mcu \<Rightarrow> ('c, 'w) dev \<Rightarrow> ('c, 'w) dev option" where
  "USB_Device_GetConfiguration m s = do {
     let s = Endpoint_ClearSETUP m s;
     let s = Endpoint_ClearIN m (Endpoint_Write_8 m (USB_Device_ConfigurationNumber s) s);
     (_, s) \<leftarrow> Endpoint_ClearStatusStage m s;
     Some s }"

definition USB_Device_GetInternalSerialDescriptor :: "'w mcu \<Rightarrow> ('c, 'w) dev \<Rightarrow> ('c, 'w) dev option" where
  "USB_Device_GetInternalSerialDescriptor m s = do {
     let (UnicodeString, s) = USB_Device_GetSerialString m s;
     let SignatureDescriptor =
       [of_nat (2 + 2 * (INTERNAL_SERIAL_LENGTH_BITS div 4)), DTYPE_String] @ concat (map bytes16 UnicodeString);
     let s = Endpoint_ClearSETUP m s;
     (_, s) \<leftarrow> Endpoint_Write_Control_Stream_LE m SignatureDescriptor (of_nat (length SignatureDescriptor)) s;
     Some (Endpoint_ClearOUT m s) }"

definition USB_Device_GetDescriptor :: "'w mcu \<Rightarrow> ('c, 'w) events \<Rightarrow> ('c, 'w) dev \<Rightarrow> ('c, 'w) dev option" where
  "USB_Device_GetDescriptor m ev s =
    (if wValue (USB_ControlRequest s) = push_bit 8 (ucast DTYPE_String) OR ucast USE_INTERNAL_SERIAL
     then USB_Device_GetInternalSerialDescriptor m s
     else let (DescriptorSize, DescriptorPointer) = CALLBACK_USB_GetDescriptor ev
            (wValue (USB_ControlRequest s)) (ucast (wIndex (USB_ControlRequest s))) in
     if DescriptorSize = NO_DESCRIPTOR then Some s
     else do {
       let s = Endpoint_ClearSETUP m s;
       (_, s) \<leftarrow> Endpoint_Write_Control_PStream_LE m DescriptorPointer DescriptorSize s;
       Some (Endpoint_ClearOUT m s) })"

definition USB_Device_GetStatus :: "'w mcu \<Rightarrow> ('c, 'w) dev \<Rightarrow> ('c, 'w) dev option" where
  "USB_Device_GetStatus m s = do {
     let (known, CurrentStatus, s) =
       (if bmRequestType (USB_ControlRequest s) = REQDIR_DEVICETOHOST OR REQTYPE_STANDARD OR REQREC_DEVICE
        then (True, (if USB_Device_CurrentlySelfPowered s then FEATURE_SELFPOWERED_ENABLED else 0) OR
                    (if USB_Device_RemoteWakeupEnabled s then FEATURE_REMOTE_WAKEUP_ENABLED else 0), s)
        else if bmRequestType (USB_ControlRequest s) = REQDIR_DEVICETOHOST OR REQTYPE_STANDARD OR REQREC_ENDPOINT
        then let s = Endpoint_SelectEndpoint m (ucast (wIndex (USB_ControlRequest s)) AND ENDPOINT_EPNUM_MASK) s;
                 (stalled, s) = Endpoint_IsStalled m s
             in (True, if stalled then 1 else 0, Endpoint_SelectEndpoint m ENDPOINT_CONTROLEP s)
        else (False, 0, s));
     if \<not> known then Some s
     else do {
       let s = Endpoint_ClearSETUP m s;
       let s = Endpoint_ClearIN m (Endpoint_Write_16_LE m CurrentStatus s);
       (_, s) \<leftarrow> Endpoint_ClearStatusStage m s;
       Some s } }"

definition halt_endpoint :: "'w mcu \<Rightarrow> ('c, 'w) dev \<Rightarrow> ('c, 'w) dev" where
  "halt_endpoint m s =
    (let EndpointIndex = (ucast (wIndex (USB_ControlRequest s)) :: u8) AND ENDPOINT_EPNUM_MASK;
         s = Endpoint_SelectEndpoint m EndpointIndex s; (en, s) = Endpoint_IsEnabled m s
     in if \<not> en then s
        else if bRequest (USB_ControlRequest s) = REQ_SetFeature then Endpoint_StallTransaction m s
        else Endpoint_ResetDataToggle m (Endpoint_ResetEndpoint m EndpointIndex (Endpoint_ClearStall m s)))"

definition USB_Device_ClearSetFeature :: "'w mcu \<Rightarrow> ('c, 'w) dev \<Rightarrow> ('c, 'w) dev option" where
  "USB_Device_ClearSetFeature m s = do {
     let recipient = bmRequestType (USB_ControlRequest s) AND CONTROL_REQTYPE_RECIPIENT;
     let feature = (ucast (wValue (USB_ControlRequest s)) :: u8);
     let (handled, s) =
       (if recipient = REQREC_DEVICE then
          if feature = FEATURE_SEL_DeviceRemoteWakeup
          then (True, s\<lparr>USB_Device_RemoteWakeupEnabled := bRequest (USB_ControlRequest s) = REQ_SetFeature\<rparr>)
          else (False, s)
        else if recipient = REQREC_ENDPOINT then
          if feature = FEATURE_SEL_EndpointHalt then
            if (ucast (wIndex (USB_ControlRequest s)) :: u8) AND ENDPOINT_EPNUM_MASK = ENDPOINT_CONTROLEP
            then (False, s) else (True, halt_endpoint m s)
          else (True, s)
        else (False, s));
     if \<not> handled then Some s
     else do {
       let s = Endpoint_ClearSETUP m (Endpoint_SelectEndpoint m ENDPOINT_CONTROLEP s);
       (_, s) \<leftarrow> Endpoint_ClearStatusStage m s;
       Some s } }"

text \<open>Eight reads fill the request header; the struct overlays them.\<close>

fun read_bytes :: "'w mcu \<Rightarrow> nat \<Rightarrow> ('c, 'w) dev \<Rightarrow> u8 list \<times> ('c, 'w) dev" where
  "read_bytes m 0 s = ([], s)"
| "read_bytes m (Suc n) s = (let (b, s) = Endpoint_Read_8 m s; (bs, s) = read_bytes m n s in (b # bs, s))"

definition read_request :: "'w mcu \<Rightarrow> ('c, 'w) dev \<Rightarrow> ('c, 'w) dev" where
  "read_request m s = (let (bs, s) = read_bytes m 8 s in s\<lparr>USB_ControlRequest := request_of bs\<rparr>)"

definition standard_request :: "'w mcu \<Rightarrow> ('c, 'w) events \<Rightarrow> ('c, 'w) dev \<Rightarrow> ('c, 'w) dev option" where
  "standard_request m ev s =
    (let bmRequestType = bmRequestType (USB_ControlRequest s); bRequest = bRequest (USB_ControlRequest s) in
     if bRequest = REQ_GetStatus then
       if bmRequestType = REQDIR_DEVICETOHOST OR REQTYPE_STANDARD OR REQREC_DEVICE \<or>
          bmRequestType = REQDIR_DEVICETOHOST OR REQTYPE_STANDARD OR REQREC_ENDPOINT
       then USB_Device_GetStatus m s else Some s
     else if bRequest = REQ_ClearFeature \<or> bRequest = REQ_SetFeature then
       if bmRequestType = REQDIR_HOSTTODEVICE OR REQTYPE_STANDARD OR REQREC_DEVICE \<or>
          bmRequestType = REQDIR_HOSTTODEVICE OR REQTYPE_STANDARD OR REQREC_ENDPOINT
       then USB_Device_ClearSetFeature m s else Some s
     else if bRequest = REQ_SetAddress then
       if bmRequestType = REQDIR_HOSTTODEVICE OR REQTYPE_STANDARD OR REQREC_DEVICE
       then USB_Device_SetAddress m s else Some s
     else if bRequest = REQ_GetDescriptor then
       if bmRequestType = REQDIR_DEVICETOHOST OR REQTYPE_STANDARD OR REQREC_DEVICE \<or>
          bmRequestType = REQDIR_DEVICETOHOST OR REQTYPE_STANDARD OR REQREC_INTERFACE
       then USB_Device_GetDescriptor m ev s else Some s
     else if bRequest = REQ_GetConfiguration then
       if bmRequestType = REQDIR_DEVICETOHOST OR REQTYPE_STANDARD OR REQREC_DEVICE
       then USB_Device_GetConfiguration m s else Some s
     else if bRequest = REQ_SetConfiguration then
       if bmRequestType = REQDIR_HOSTTODEVICE OR REQTYPE_STANDARD OR REQREC_DEVICE
       then USB_Device_SetConfiguration m ev s else Some s
     else Some s)"

definition USB_Device_ProcessControlRequest :: "'w mcu \<Rightarrow> ('c, 'w) events \<Rightarrow> ('c, 'w) dev \<Rightarrow> ('c, 'w) dev option" where
  "USB_Device_ProcessControlRequest m ev s = do {
     s \<leftarrow> EVENT_USB_Device_ControlRequest ev (read_request m s);
     let (setup, s) = Endpoint_IsSETUPReceived m s;
     s \<leftarrow> (if setup then standard_request m ev s else Some s);
     let (setup, s) = Endpoint_IsSETUPReceived m s;
     Some (if setup then Endpoint_StallTransaction m (Endpoint_ClearSETUP m s) else s) }"

subsection \<open>The device task\<close>

definition USB_DeviceTask :: "'w mcu \<Rightarrow> ('c, 'w) events \<Rightarrow> ('c, 'w) dev \<Rightarrow> ('c, 'w) dev option" where
  "USB_DeviceTask m ev s = do {
     let (st, s) = getr m USB_DeviceState s;
     if st = DEVICE_STATE_Unattached then Some s
     else do {
       let (PrevEndpoint, s) = Endpoint_GetCurrentEndpoint m s;
       let (setup, s) = Endpoint_IsSETUPReceived m (Endpoint_SelectEndpoint m ENDPOINT_CONTROLEP s);
       s \<leftarrow> (if setup then USB_Device_ProcessControlRequest m ev s else Some s);
       Some (Endpoint_SelectEndpoint m PrevEndpoint s) } }"

definition USB_USBTask :: "'w mcu \<Rightarrow> ('c, 'w) events \<Rightarrow> ('c, 'w) dev \<Rightarrow> ('c, 'w) dev option" where
  "USB_USBTask m ev s = USB_DeviceTask m ev s"

subsection \<open>Starting and stopping the controller\<close>

definition USB_INT_DisableAllInterrupts :: "'w mcu \<Rightarrow> ('c, 'w) dev \<Rightarrow> ('c, 'w) dev" where
  "USB_INT_DisableAllInterrupts m s = (let s = (case series m of
       Series6 \<Rightarrow> modr m USBCON (\<lambda>v. v AND NOT (bitm VBUSTE OR bitm IDTE)) s
     | Series7 \<Rightarrow> modr m USBCON (\<lambda>v. v AND NOT (bitm VBUSTE OR bitm IDTE)) s
     | Series4 \<Rightarrow> modr m USBCON (clr_flag VBUSTE) s | Series2 \<Rightarrow> s) in setr m UDIEN 0 s)"

definition USB_INT_ClearAllInterrupts :: "'w mcu \<Rightarrow> ('c, 'w) dev \<Rightarrow> ('c, 'w) dev" where
  "USB_INT_ClearAllInterrupts m s = setr m UDINT 0 (if series m \<noteq> Series2 then setr m USBINT 0 s else s)"

definition EP_TYPE_CONTROL :: u8 where [simp]: "EP_TYPE_CONTROL = 0"
definition EP_TYPE_BULK :: u8 where [simp]: "EP_TYPE_BULK = 2"
definition EP_TYPE_INTERRUPT :: u8 where [simp]: "EP_TYPE_INTERRUPT = 3"

definition USB_Init_Device :: "'w mcu \<Rightarrow> ('c, 'w) dev \<Rightarrow> ('c, 'w) dev option" where
  "USB_Init_Device m s = do {
     let s = setr m USB_DeviceState DEVICE_STATE_Unattached s;
     let s = s\<lparr>USB_Device_ConfigurationNumber := 0, USB_Device_RemoteWakeupEnabled := False,
               USB_Device_CurrentlySelfPowered := False\<rparr>;
     let s = (if series m \<noteq> Series2 then
         let s = (if option_set m USB_DEVICE_OPT_LOWSPEED then USB_Device_SetLowSpeed m s
                  else USB_Device_SetFullSpeed m s) in USB_INT_Enable m USB_INT_VBUSTI s else s);
     (_, s) \<leftarrow> Endpoint_ConfigureEndpoint m ENDPOINT_CONTROLEP EP_TYPE_CONTROL USB_Device_ControlEndpointSize 1 s;
     let s = USB_INT_Enable m USB_INT_EORSTI (USB_INT_Enable m USB_INT_SUSPI (USB_INT_Clear m USB_INT_SUSPI s));
     Some (USB_Attach m s) }"

definition USB_ResetInterface :: "'w mcu \<Rightarrow> ('c, 'w) dev \<Rightarrow> ('c, 'w) dev option" where
  "USB_ResetInterface m s = do {
     let s = USB_INT_ClearAllInterrupts m (USB_INT_DisableAllInterrupts m s);
     let s = USB_CLK_Unfreeze m (USB_Controller_Reset m s);
     let s = (if series m = Series6 \<or> series m = Series7 then modr m UHWCON (set_flag 7) s else s);
     (_, s) \<leftarrow> (if \<not> option_set m USB_OPT_MANUAL_PLL then
         if series m = Series2 then pll_wait m (USB_PLL_On m s) else Some ((), USB_PLL_Off m s)
       else Some ((), s));
     s \<leftarrow> USB_Init_Device m s;
     Some (if series m \<noteq> Series2 then USB_OTGPAD_On m s else s) }"

definition USB_Init :: "'w mcu \<Rightarrow> ('c, 'w) dev \<Rightarrow> ('c, 'w) dev option" where
  "USB_Init m s = do {
     let s = (if series m \<noteq> Series2 then USB_OTGPAD_Off m s else s);
     let s = (if \<not> option_set m USB_OPT_REG_DISABLED then USB_REG_On m s else USB_REG_Off m s);
     let s = (if \<not> option_set m USB_OPT_MANUAL_PLL \<and> series m = Series4 then setr m PLLFRQ (bitm 2) s else s);
     USB_ResetInterface m (s\<lparr>USB_IsInitialized := True\<rparr>) }"

definition USB_Disable :: "'w mcu \<Rightarrow> ('c, 'w) dev \<Rightarrow> ('c, 'w) dev" where
  "USB_Disable m s = (
     let s = USB_INT_ClearAllInterrupts m (USB_INT_DisableAllInterrupts m s);
         s = USB_Controller_Disable m (USB_Detach m s);
         s = (if \<not> option_set m USB_OPT_MANUAL_PLL then USB_PLL_Off m s else s);
         s = (if \<not> option_set m USB_OPT_REG_KEEP_ENABLED then USB_REG_Off m s else s);
         s = (if series m \<noteq> Series2 then USB_OTGPAD_Off m s else s)
     in s\<lparr>USB_IsInitialized := False\<rparr>)"

subsection \<open>Interrupt handlers\<close>

definition pending :: "'w mcu \<Rightarrow> usb_interrupt \<Rightarrow> ('c, 'w) dev \<Rightarrow> bool \<times> ('c, 'w) dev" where
  "pending m i s = (let (occurred, s) = USB_INT_HasOccurred m i s in
     if occurred then USB_INT_IsEnabled m i s else (False, s))"

definition gen_sof :: "'w mcu \<Rightarrow> ('c, 'w) events \<Rightarrow> ('c, 'w) dev \<Rightarrow> ('c, 'w) dev option" where
  "gen_sof m ev s = (let (p, s) = pending m USB_INT_SOFI s in
     if p then EVENT_USB_Device_StartOfFrame ev (USB_INT_Clear m USB_INT_SOFI s) else Some s)"

definition gen_vbus :: "'w mcu \<Rightarrow> ('c, 'w) events \<Rightarrow> ('c, 'w) dev \<Rightarrow> ('c, 'w) dev option" where
  "gen_vbus m ev s =
    (if series m = Series2 then Some s
     else let (p, s) = pending m USB_INT_VBUSTI s in
     if \<not> p then Some s
     else let (vbus, s) = USB_VBUS_GetStatus m (USB_INT_Clear m USB_INT_VBUSTI s) in
     if vbus then do {
       (_, s) \<leftarrow> (if \<not> option_set m USB_OPT_MANUAL_PLL then pll_wait m (USB_PLL_On m s) else Some ((), s));
       EVENT_USB_Device_Connect ev (setr m USB_DeviceState DEVICE_STATE_Powered s) }
     else do {
       let s = (if \<not> option_set m USB_OPT_MANUAL_PLL then USB_PLL_Off m s else s);
       EVENT_USB_Device_Disconnect ev (setr m USB_DeviceState DEVICE_STATE_Unattached s) })"

definition gen_suspend :: "'w mcu \<Rightarrow> ('c, 'w) events \<Rightarrow> ('c, 'w) dev \<Rightarrow> ('c, 'w) dev option" where
  "gen_suspend m ev s = (let (p, s) = pending m USB_INT_SUSPI s in
     if \<not> p then Some s
     else do {
       let s = USB_INT_Enable m USB_INT_WAKEUPI (USB_INT_Disable m USB_INT_SUSPI s);
       let s = USB_CLK_Freeze m s;
       let s = (if \<not> option_set m USB_OPT_MANUAL_PLL then USB_PLL_Off m s else s);
       if series m = Series2 \<and> limited_connect m
       then EVENT_USB_Device_Disconnect ev (setr m USB_DeviceState DEVICE_STATE_Unattached s)
       else EVENT_USB_Device_Suspend ev (setr m USB_DeviceState DEVICE_STATE_Suspended s) })"

definition gen_wakeup :: "'w mcu \<Rightarrow> ('c, 'w) events \<Rightarrow> ('c, 'w) dev \<Rightarrow> ('c, 'w) dev option" where
  "gen_wakeup m ev s = (let (p, s) = pending m USB_INT_WAKEUPI s in
     if \<not> p then Some s
     else do {
       (_, s) \<leftarrow> (if \<not> option_set m USB_OPT_MANUAL_PLL then pll_wait m (USB_PLL_On m s) else Some ((), s));
       let s = USB_INT_Clear m USB_INT_WAKEUPI (USB_CLK_Unfreeze m s);
       let s = USB_INT_Enable m USB_INT_SUSPI (USB_INT_Disable m USB_INT_WAKEUPI s);
       let s = (if USB_Device_ConfigurationNumber s \<noteq> 0 then setr m USB_DeviceState DEVICE_STATE_Configured s
                else let (a, s) = USB_Device_IsAddressSet m s in
                  setr m USB_DeviceState (if a then DEVICE_STATE_Addressed else DEVICE_STATE_Powered) s);
       if series m = Series2 \<and> limited_connect m then EVENT_USB_Device_Connect ev s
       else EVENT_USB_Device_WakeUp ev s })"

definition gen_reset :: "'w mcu \<Rightarrow> ('c, 'w) events \<Rightarrow> ('c, 'w) dev \<Rightarrow> ('c, 'w) dev option" where
  "gen_reset m ev s = (let (p, s) = pending m USB_INT_EORSTI s in
     if \<not> p then Some s
     else do {
       let s = USB_INT_Clear m USB_INT_EORSTI s;
       let s = (setr m USB_DeviceState DEVICE_STATE_Default s)\<lparr>USB_Device_ConfigurationNumber := 0\<rparr>;
       let s = USB_INT_Disable m USB_INT_SUSPI (USB_INT_Clear m USB_INT_SUSPI s);
       let s = USB_INT_Enable m USB_INT_WAKEUPI s;
       (_, s) \<leftarrow> Endpoint_ConfigureEndpoint m ENDPOINT_CONTROLEP EP_TYPE_CONTROL USB_Device_ControlEndpointSize 1 s;
       EVENT_USB_Device_Reset ev (USB_INT_Enable m USB_INT_RXSTPI s) })"

definition USB_GEN_vect :: "'w mcu \<Rightarrow> ('c, 'w) events \<Rightarrow> ('c, 'w) dev \<Rightarrow> ('c, 'w) dev option" where
  "USB_GEN_vect m ev s = do {
     s \<leftarrow> gen_sof m ev s;
     s \<leftarrow> gen_vbus m ev s;
     s \<leftarrow> gen_suspend m ev s;
     s \<leftarrow> gen_wakeup m ev s;
     gen_reset m ev s }"

definition USB_COM_vect :: "'w mcu \<Rightarrow> ('c, 'w) events \<Rightarrow> ('c, 'w) dev \<Rightarrow> ('c, 'w) dev option" where
  "USB_COM_vect m ev s = do {
     let (PrevSelectedEndpoint, s) = Endpoint_GetCurrentEndpoint m s;
     let s = USB_INT_Disable m USB_INT_RXSTPI (Endpoint_SelectEndpoint m ENDPOINT_CONTROLEP s);
     s \<leftarrow> USB_Device_ProcessControlRequest m ev (GlobalInterruptEnable m s);
     let s = USB_INT_Enable m USB_INT_RXSTPI (Endpoint_SelectEndpoint m ENDPOINT_CONTROLEP s);
     Some (Endpoint_SelectEndpoint m PrevSelectedEndpoint s) }"

end
