(* ===== verification/CDC_Device.thy ===== *)
theory CDC_Device
  imports USB_Device
begin

text \<open>
  The virtual serial port class driver, \<open>CDCClassDevice.c\<close>. The functions take the interface structure
  the source passes by pointer; those that write it return its new value.
\<close>

record CDC_LineEncoding =
  BaudRateBPS :: u32
  CharFormat :: u8
  ParityType :: u8
  DataBits :: u8

record USB_ClassInfo_CDC_Device =
  ControlInterfaceNumber :: u8
  DataINEndpoint :: USB_Endpoint_Table
  DataOUTEndpoint :: USB_Endpoint_Table
  NotificationEndpoint :: USB_Endpoint_Table
  HostToDevice :: u16
  DeviceToHost :: u16
  LineEncoding :: CDC_LineEncoding

definition zero_encoding :: CDC_LineEncoding where
  "zero_encoding = \<lparr>BaudRateBPS = 0, CharFormat = 0, ParityType = 0, DataBits = 0\<rparr>"

record ('c, 'w) cdc_events =
  EVENT_CDC_Device_LineEncodingChanged ::
    "USB_ClassInfo_CDC_Device \<Rightarrow> ('c, 'w) dev \<Rightarrow> (USB_ClassInfo_CDC_Device \<times> ('c, 'w) dev) option"
  EVENT_CDC_Device_ControLineStateChanged ::
    "USB_ClassInfo_CDC_Device \<Rightarrow> ('c, 'w) dev \<Rightarrow> (USB_ClassInfo_CDC_Device \<times> ('c, 'w) dev) option"
  EVENT_CDC_Device_BreakSent ::
    "USB_ClassInfo_CDC_Device \<Rightarrow> u8 \<Rightarrow> ('c, 'w) dev \<Rightarrow> (USB_ClassInfo_CDC_Device \<times> ('c, 'w) dev) option"

definition CDC_Device_Event_Stub :: "('c, 'w) cdc_events" where
  "CDC_Device_Event_Stub = \<lparr>EVENT_CDC_Device_LineEncodingChanged = (\<lambda>c s. Some (c, s)),
     EVENT_CDC_Device_ControLineStateChanged = (\<lambda>c s. Some (c, s)),
     EVENT_CDC_Device_BreakSent = (\<lambda>c d s. Some (c, s))\<rparr>"

definition CDC_REQ_SetLineEncoding :: u8 where [simp]: "CDC_REQ_SetLineEncoding = 0x20"
definition CDC_REQ_GetLineEncoding :: u8 where [simp]: "CDC_REQ_GetLineEncoding = 0x21"
definition CDC_REQ_SetControlLineState :: u8 where [simp]: "CDC_REQ_SetControlLineState = 0x22"
definition CDC_REQ_SendBreak :: u8 where [simp]: "CDC_REQ_SendBreak = 0x23"
definition CDC_NOTIF_SerialState :: u8 where [simp]: "CDC_NOTIF_SerialState = 0x20"

subsection \<open>Class requests\<close>

definition cdc_get_line_encoding ::
    "'w mcu \<Rightarrow> USB_ClassInfo_CDC_Device \<Rightarrow> ('c, 'w) dev \<Rightarrow> (USB_ClassInfo_CDC_Device \<times> ('c, 'w) dev) option" where
  "cdc_get_line_encoding m c s = do {
     (_, s) \<leftarrow> wait_for (Endpoint_IsINReady m) (Endpoint_ClearSETUP m s);
     let s = Endpoint_Write_32_LE m (BaudRateBPS (LineEncoding c)) s;
     let s = Endpoint_Write_8 m (CharFormat (LineEncoding c)) s;
     let s = Endpoint_Write_8 m (ParityType (LineEncoding c)) s;
     let s = Endpoint_Write_8 m (DataBits (LineEncoding c)) s;
     (_, s) \<leftarrow> Endpoint_ClearStatusStage m (Endpoint_ClearIN m s);
     Some (c, s) }"

definition cdc_set_line_encoding ::
    "'w mcu \<Rightarrow> ('c, 'w) cdc_events \<Rightarrow> USB_ClassInfo_CDC_Device \<Rightarrow> ('c, 'w) dev \<Rightarrow>
     (USB_ClassInfo_CDC_Device \<times> ('c, 'w) dev) option" where
  "cdc_set_line_encoding m cev c s = do {
     (attached, s) \<leftarrow> wait_attached m (Endpoint_IsOUTReceived m) (Endpoint_ClearSETUP m s);
     if \<not> attached then Some (c, s)
     else do {
       let (baud, s) = Endpoint_Read_32_LE m s;
       let (fmt, s) = Endpoint_Read_8 m s;
       let (parity, s) = Endpoint_Read_8 m s;
       let (bits, s) = Endpoint_Read_8 m s;
       let c = c\<lparr>LineEncoding := \<lparr>BaudRateBPS = baud, CharFormat = fmt, ParityType = parity, DataBits = bits\<rparr>\<rparr>;
       (_, s) \<leftarrow> Endpoint_ClearStatusStage m (Endpoint_ClearOUT m s);
       EVENT_CDC_Device_LineEncodingChanged cev c s } }"

definition CDC_Device_ProcessControlRequest ::
    "'w mcu \<Rightarrow> ('c, 'w) cdc_events \<Rightarrow> USB_ClassInfo_CDC_Device \<Rightarrow> ('c, 'w) dev \<Rightarrow>
     (USB_ClassInfo_CDC_Device \<times> ('c, 'w) dev) option" where
  "CDC_Device_ProcessControlRequest m cev c s =
    (let (setup, s) = Endpoint_IsSETUPReceived m s; r = USB_ControlRequest s in
     if \<not> setup then Some (c, s)
     else if wIndex r \<noteq> ucast (ControlInterfaceNumber c) then Some (c, s)
     else if bRequest r = CDC_REQ_GetLineEncoding then
       if bmRequestType r = REQDIR_DEVICETOHOST OR REQTYPE_CLASS OR REQREC_INTERFACE
       then cdc_get_line_encoding m c s else Some (c, s)
     else if bRequest r = CDC_REQ_SetLineEncoding then
       if bmRequestType r = REQDIR_HOSTTODEVICE OR REQTYPE_CLASS OR REQREC_INTERFACE
       then cdc_set_line_encoding m cev c s else Some (c, s)
     else if bRequest r = CDC_REQ_SetControlLineState then
       if bmRequestType r = REQDIR_HOSTTODEVICE OR REQTYPE_CLASS OR REQREC_INTERFACE
       then do {
         (_, s) \<leftarrow> Endpoint_ClearStatusStage m (Endpoint_ClearSETUP m s);
         EVENT_CDC_Device_ControLineStateChanged cev (c\<lparr>HostToDevice := wValue (USB_ControlRequest s)\<rparr>) s }
       else Some (c, s)
     else if bRequest r = CDC_REQ_SendBreak then
       if bmRequestType r = REQDIR_HOSTTODEVICE OR REQTYPE_CLASS OR REQREC_INTERFACE
       then do {
         (_, s) \<leftarrow> Endpoint_ClearStatusStage m (Endpoint_ClearSETUP m s);
         EVENT_CDC_Device_BreakSent cev c (ucast (wValue (USB_ControlRequest s))) s }
       else Some (c, s)
     else Some (c, s))"

definition CDC_Device_ConfigureEndpoints ::
    "'w mcu \<Rightarrow> USB_ClassInfo_CDC_Device \<Rightarrow> ('c, 'w) dev \<Rightarrow>
     (bool \<times> USB_ClassInfo_CDC_Device \<times> ('c, 'w) dev) option" where
  "CDC_Device_ConfigureEndpoints m c s = do {
     let c = c\<lparr>HostToDevice := 0, DeviceToHost := 0, LineEncoding := zero_encoding\<rparr>;
     let c = c\<lparr>DataINEndpoint := (DataINEndpoint c)\<lparr>Type := EP_TYPE_BULK\<rparr>,
               DataOUTEndpoint := (DataOUTEndpoint c)\<lparr>Type := EP_TYPE_BULK\<rparr>,
               NotificationEndpoint := (NotificationEndpoint c)\<lparr>Type := EP_TYPE_INTERRUPT\<rparr>\<rparr>;
     (ok, s) \<leftarrow> Endpoint_ConfigureEndpointTable m [DataINEndpoint c] s;
     if \<not> ok then Some (False, c, s)
     else do {
       (ok, s) \<leftarrow> Endpoint_ConfigureEndpointTable m [DataOUTEndpoint c] s;
       if \<not> ok then Some (False, c, s)
       else do {
         (ok, s) \<leftarrow> Endpoint_ConfigureEndpointTable m [NotificationEndpoint c] s;
         Some (ok, c, s) } } }"

subsection \<open>Data transfer\<close>

definition cdc_usable :: "'w mcu \<Rightarrow> USB_ClassInfo_CDC_Device \<Rightarrow> ('c, 'w) dev \<Rightarrow> bool \<times> ('c, 'w) dev" where
  "cdc_usable m c s = (let (st, s) = getr m USB_DeviceState s in
     (\<not> (st \<noteq> DEVICE_STATE_Configured \<or> BaudRateBPS (LineEncoding c) = 0), s))"

definition CDC_Device_Flush ::
    "'w mcu \<Rightarrow> USB_ClassInfo_CDC_Device \<Rightarrow> ('c, 'w) dev \<Rightarrow> (u8 \<times> ('c, 'w) dev) option" where
  "CDC_Device_Flush m c s =
    (let (usable, s) = cdc_usable m c s in
     if \<not> usable then Some (ENDPOINT_RWSTREAM_DeviceDisconnected, s)
     else let s = Endpoint_SelectEndpoint m (Address (DataINEndpoint c)) s; (n, s) = Endpoint_BytesInEndpoint m s in
     if n = 0 then Some (ENDPOINT_READYWAIT_NoError, s)
     else let (rw, s) = Endpoint_IsReadWriteAllowed m s; s = Endpoint_ClearIN m s in
     if \<not> rw then do {
       (ErrorCode, s) \<leftarrow> Endpoint_WaitUntilReady m s;
       if ErrorCode \<noteq> ENDPOINT_READYWAIT_NoError then Some (ErrorCode, s)
       else Some (ENDPOINT_READYWAIT_NoError, Endpoint_ClearIN m s) }
     else Some (ENDPOINT_READYWAIT_NoError, s))"

definition CDC_Device_USBTask ::
    "'w mcu \<Rightarrow> USB_ClassInfo_CDC_Device \<Rightarrow> ('c, 'w) dev \<Rightarrow> ('c, 'w) dev option" where
  "CDC_Device_USBTask m c s =
    (let (usable, s) = cdc_usable m c s in
     if \<not> usable then Some s
     else let (b, s) = Endpoint_IsINReady m (Endpoint_SelectEndpoint m (Address (DataINEndpoint c)) s) in
     if b then do { (_, s) \<leftarrow> CDC_Device_Flush m c s; Some s } else Some s)"

definition CDC_Device_SendData ::
    "'w mcu \<Rightarrow> USB_ClassInfo_CDC_Device \<Rightarrow> u8 list \<Rightarrow> u16 \<Rightarrow> ('c, 'w) dev \<Rightarrow> (u8 \<times> ('c, 'w) dev) option" where
  "CDC_Device_SendData m c buffer len s =
    (let (usable, s) = cdc_usable m c s in
     if \<not> usable then Some (ENDPOINT_RWSTREAM_DeviceDisconnected, s)
     else do {
       ((e, _, _), s) \<leftarrow> Endpoint_Write_Stream_LE m buffer len None
         (Endpoint_SelectEndpoint m (Address (DataINEndpoint c)) s);
       Some (e, s) })"

definition CDC_Device_SendString ::
    "'w mcu \<Rightarrow> USB_ClassInfo_CDC_Device \<Rightarrow> u8 list \<Rightarrow> ('c, 'w) dev \<Rightarrow> (u8 \<times> ('c, 'w) dev) option" where
  "CDC_Device_SendString m c str s =
    (let (usable, s) = cdc_usable m c s in
     if \<not> usable then Some (ENDPOINT_RWSTREAM_DeviceDisconnected, s)
     else do {
       ((e, _, _), s) \<leftarrow> Endpoint_Write_Stream_LE m str (of_nat (length (takeWhile (\<lambda>ch. ch \<noteq> 0) str))) None
         (Endpoint_SelectEndpoint m (Address (DataINEndpoint c)) s);
       Some (e, s) })"

definition CDC_Device_SendByte ::
    "'w mcu \<Rightarrow> USB_ClassInfo_CDC_Device \<Rightarrow> u8 \<Rightarrow> ('c, 'w) dev \<Rightarrow> (u8 \<times> ('c, 'w) dev) option" where
  "CDC_Device_SendByte m c Data s =
    (let (usable, s) = cdc_usable m c s in
     if \<not> usable then Some (ENDPOINT_RWSTREAM_DeviceDisconnected, s)
     else let (rw, s) = Endpoint_IsReadWriteAllowed m (Endpoint_SelectEndpoint m (Address (DataINEndpoint c)) s) in
     if \<not> rw then do {
       (ErrorCode, s) \<leftarrow> Endpoint_WaitUntilReady m (Endpoint_ClearIN m s);
       if ErrorCode \<noteq> ENDPOINT_READYWAIT_NoError then Some (ErrorCode, s)
       else Some (ENDPOINT_READYWAIT_NoError, Endpoint_Write_8 m Data s) }
     else Some (ENDPOINT_READYWAIT_NoError, Endpoint_Write_8 m Data s))"

definition CDC_Device_BytesReceived ::
    "'w mcu \<Rightarrow> USB_ClassInfo_CDC_Device \<Rightarrow> ('c, 'w) dev \<Rightarrow> u16 \<times> ('c, 'w) dev" where
  "CDC_Device_BytesReceived m c s =
    (let (usable, s) = cdc_usable m c s in
     if \<not> usable then (0, s)
     else let (out, s) = Endpoint_IsOUTReceived m (Endpoint_SelectEndpoint m (Address (DataOUTEndpoint c)) s) in
     if out then
       let (n, s) = Endpoint_BytesInEndpoint m s in
       if n = 0 then (0, Endpoint_ClearOUT m s) else Endpoint_BytesInEndpoint m s
     else (0, s))"

definition CDC_Device_ReceiveByte ::
    "'w mcu \<Rightarrow> USB_ClassInfo_CDC_Device \<Rightarrow> ('c, 'w) dev \<Rightarrow> int \<times> ('c, 'w) dev" where
  "CDC_Device_ReceiveByte m c s =
    (let (usable, s) = cdc_usable m c s in
     if \<not> usable then (- 1, s)
     else let (out, s) = Endpoint_IsOUTReceived m (Endpoint_SelectEndpoint m (Address (DataOUTEndpoint c)) s) in
     if out then
       let (n, s) = Endpoint_BytesInEndpoint m s;
           (ReceivedByte, s) = (if n \<noteq> 0 then let (v, s) = Endpoint_Read_8 m s in (uint v, s) else (- 1, s));
           (n, s) = Endpoint_BytesInEndpoint m s
       in (ReceivedByte, if n = 0 then Endpoint_ClearOUT m s else s)
     else (- 1, s))"

definition CDC_Device_SendControlLineStateChange ::
    "'w mcu \<Rightarrow> USB_ClassInfo_CDC_Device \<Rightarrow> ('c, 'w) dev \<Rightarrow> ('c, 'w) dev option" where
  "CDC_Device_SendControlLineStateChange m c s =
    (let (usable, s) = cdc_usable m c s in
     if \<not> usable then Some s
     else do {
       let s = Endpoint_SelectEndpoint m (Address (NotificationEndpoint c)) s;
       let Notification = \<lparr>bmRequestType = REQDIR_DEVICETOHOST OR REQTYPE_CLASS OR REQREC_INTERFACE,
         bRequest = CDC_NOTIF_SerialState, wValue = 0, wIndex = 0, wLength = 2\<rparr>;
       (_, s) \<leftarrow> Endpoint_Write_Stream_LE m (request_bytes Notification) 8 None s;
       (_, s) \<leftarrow> Endpoint_Write_Stream_LE m (bytes16 (DeviceToHost c)) 2 None s;
       Some (Endpoint_ClearIN m s) })"

subsection \<open>Character streams\<close>

text \<open>
  The C library's stream: the functions it calls to write and to read a character. The interface behind
  the stream's pointer is looked up when a function runs, with the argument \<open>iface\<close>.
\<close>

record ('c, 'w) FILE =
  put :: "u8 \<Rightarrow> ('c, 'w) dev \<Rightarrow> (int \<times> ('c, 'w) dev) option"
  get :: "('c, 'w) dev \<Rightarrow> (int \<times> ('c, 'w) dev) option"

definition FDEV_ERR :: int where "FDEV_ERR = - 1"
definition FDEV_EOF :: int where "FDEV_EOF = - 2"

definition CDC_Device_putchar ::
    "'w mcu \<Rightarrow> (('c, 'w) dev \<Rightarrow> USB_ClassInfo_CDC_Device) \<Rightarrow> u8 \<Rightarrow> ('c, 'w) dev \<Rightarrow> (int \<times> ('c, 'w) dev) option" where
  "CDC_Device_putchar m iface ch s = do {
     (e, s) \<leftarrow> CDC_Device_SendByte m (iface s) ch s;
     Some (if e \<noteq> 0 then FDEV_ERR else 0, s) }"

definition CDC_Device_getchar ::
    "'w mcu \<Rightarrow> (('c, 'w) dev \<Rightarrow> USB_ClassInfo_CDC_Device) \<Rightarrow> ('c, 'w) dev \<Rightarrow> (int \<times> ('c, 'w) dev) option" where
  "CDC_Device_getchar m iface s =
    (let (ReceivedByte, s) = CDC_Device_ReceiveByte m (iface s) s in
     Some (if ReceivedByte < 0 then FDEV_EOF else ReceivedByte, s))"

definition CDC_Device_getchar_Blocking ::
    "'w mcu \<Rightarrow> ('c, 'w) events \<Rightarrow> (('c, 'w) dev \<Rightarrow> USB_ClassInfo_CDC_Device) \<Rightarrow> ('c, 'w) dev \<Rightarrow>
     (int \<times> ('c, 'w) dev) option" where
  "CDC_Device_getchar_Blocking m ev iface s = floop (\<lambda>_ s.
     let (ReceivedByte, s) = CDC_Device_ReceiveByte m (iface s) s in
     if \<not> ReceivedByte < 0 then Some (Inr ReceivedByte, s)
     else let (st, s) = getr m USB_DeviceState s in
     if st = DEVICE_STATE_Unattached then Some (Inr FDEV_EOF, s)
     else do {
       s \<leftarrow> CDC_Device_USBTask m (iface s) s;
       s \<leftarrow> USB_USBTask m ev s;
       Some (Inl (), s) }) () s"

definition CDC_Device_CreateStream ::
    "'w mcu \<Rightarrow> (('c, 'w) dev \<Rightarrow> USB_ClassInfo_CDC_Device) \<Rightarrow> ('c, 'w) FILE" where
  "CDC_Device_CreateStream m iface = \<lparr>put = CDC_Device_putchar m iface, get = CDC_Device_getchar m iface\<rparr>"

definition CDC_Device_CreateBlockingStream ::
    "'w mcu \<Rightarrow> ('c, 'w) events \<Rightarrow> (('c, 'w) dev \<Rightarrow> USB_ClassInfo_CDC_Device) \<Rightarrow> ('c, 'w) FILE" where
  "CDC_Device_CreateBlockingStream m ev iface =
    \<lparr>put = CDC_Device_putchar m iface, get = CDC_Device_getchar_Blocking m ev iface\<rparr>"

text \<open>\<open>fputc\<close> of the C library: the character on success, \<open>EOF\<close> when the stream reports an error.\<close>

definition fputc :: "u8 \<Rightarrow> ('c, 'w) FILE \<Rightarrow> ('c, 'w) dev \<Rightarrow> (int \<times> ('c, 'w) dev) option" where
  "fputc ch stream s = do { (r, s) \<leftarrow> put stream ch s; Some (if r = 0 then uint ch else - 1, s) }"

end
