(* ===== verification/RNG_Firmware.thy ===== *)
theory RNG_Firmware
  imports CDC_Device
begin

text \<open>
  The firmware of the noise source, \<open>firmware/RNG\<close>: its descriptors, the descriptor callback, the
  event handlers and the main program.
\<close>

subsection \<open>Descriptor structures\<close>

text \<open>The packed structures as the bytes they occupy, their fields in order.\<close>

definition USB_Descriptor_Header :: "u8 \<Rightarrow> u8 \<Rightarrow> u8 list" where
  "USB_Descriptor_Header Siz Typ = [Siz, Typ]"

definition USB_Descriptor_Device ::
    "u8 list \<Rightarrow> u16 \<Rightarrow> u8 \<Rightarrow> u8 \<Rightarrow> u8 \<Rightarrow> u8 \<Rightarrow> u16 \<Rightarrow> u16 \<Rightarrow> u16 \<Rightarrow> u8 \<Rightarrow> u8 \<Rightarrow> u8 \<Rightarrow> u8 \<Rightarrow> u8 list" where
  "USB_Descriptor_Device Header USBSpecification Class SubClass Protocol Endpoint0Size VendorID ProductID
     ReleaseNumber ManufacturerStrIndex ProductStrIndex SerialNumStrIndex NumberOfConfigurations =
   Header @ bytes16 USBSpecification @ [Class, SubClass, Protocol, Endpoint0Size] @ bytes16 VendorID @
     bytes16 ProductID @ bytes16 ReleaseNumber @
     [ManufacturerStrIndex, ProductStrIndex, SerialNumStrIndex, NumberOfConfigurations]"

definition USB_Descriptor_Configuration_Header ::
    "u8 list \<Rightarrow> u16 \<Rightarrow> u8 \<Rightarrow> u8 \<Rightarrow> u8 \<Rightarrow> u8 \<Rightarrow> u8 \<Rightarrow> u8 list" where
  "USB_Descriptor_Configuration_Header Header TotalConfigurationSize TotalInterfaces ConfigurationNumber
     ConfigurationStrIndex ConfigAttributes MaxPowerConsumption =
   Header @ bytes16 TotalConfigurationSize @
     [TotalInterfaces, ConfigurationNumber, ConfigurationStrIndex, ConfigAttributes, MaxPowerConsumption]"

definition USB_Descriptor_Interface :: "u8 list \<Rightarrow> u8 \<Rightarrow> u8 \<Rightarrow> u8 \<Rightarrow> u8 \<Rightarrow> u8 \<Rightarrow> u8 \<Rightarrow> u8 \<Rightarrow> u8 list" where
  "USB_Descriptor_Interface Header InterfaceNumber AlternateSetting TotalEndpoints Class SubClass Protocol
     InterfaceStrIndex =
   Header @ [InterfaceNumber, AlternateSetting, TotalEndpoints, Class, SubClass, Protocol, InterfaceStrIndex]"

definition USB_Descriptor_Endpoint :: "u8 list \<Rightarrow> u8 \<Rightarrow> u8 \<Rightarrow> u16 \<Rightarrow> u8 \<Rightarrow> u8 list" where
  "USB_Descriptor_Endpoint Header EndpointAddress Attributes EndpointSize PollingIntervalMS =
   Header @ [EndpointAddress, Attributes] @ bytes16 EndpointSize @ [PollingIntervalMS]"

definition USB_CDC_Descriptor_FunctionalHeader :: "u8 list \<Rightarrow> u8 \<Rightarrow> u16 \<Rightarrow> u8 list" where
  "USB_CDC_Descriptor_FunctionalHeader Header Subtype CDCSpecification = Header @ [Subtype] @ bytes16 CDCSpecification"

definition USB_CDC_Descriptor_FunctionalACM :: "u8 list \<Rightarrow> u8 \<Rightarrow> u8 \<Rightarrow> u8 list" where
  "USB_CDC_Descriptor_FunctionalACM Header Subtype Capabilities = Header @ [Subtype, Capabilities]"

definition USB_CDC_Descriptor_FunctionalUnion :: "u8 list \<Rightarrow> u8 \<Rightarrow> u8 \<Rightarrow> u8 \<Rightarrow> u8 list" where
  "USB_CDC_Descriptor_FunctionalUnion Header Subtype MasterInterfaceNumber SlaveInterfaceNumber =
   Header @ [Subtype, MasterInterfaceNumber, SlaveInterfaceNumber]"

lemmas descriptor_structs = USB_Descriptor_Header_def USB_Descriptor_Device_def
  USB_Descriptor_Configuration_Header_def USB_Descriptor_Interface_def USB_Descriptor_Endpoint_def
  USB_CDC_Descriptor_FunctionalHeader_def USB_CDC_Descriptor_FunctionalACM_def USB_CDC_Descriptor_FunctionalUnion_def

definition VERSION_BCD :: "u16 \<Rightarrow> u16 \<Rightarrow> u16 \<Rightarrow> u16" where
  "VERSION_BCD Major Minor Revision =
    push_bit 8 (Major AND 0xFF) OR push_bit 4 (Minor AND 0x0F) OR (Revision AND 0x0F)"

definition USB_CONFIG_POWER_MA :: "u8 \<Rightarrow> u8" where
  "USB_CONFIG_POWER_MA mA = drop_bit 1 mA"

text \<open>A string descriptor counts its characters without the terminator, which follows in memory.\<close>

definition USB_STRING_DESCRIPTOR :: "u16 list \<Rightarrow> u8 list" where
  "USB_STRING_DESCRIPTOR str =
    USB_Descriptor_Header (of_nat (2 + 2 * length str)) DTYPE_String @ concat (map bytes16 (str @ [0]))"

definition USB_STRING_DESCRIPTOR_ARRAY :: "u16 \<Rightarrow> u8 list" where
  "USB_STRING_DESCRIPTOR_ARRAY lang = USB_Descriptor_Header (2 + 2) DTYPE_String @ bytes16 lang"

subsection \<open>The descriptors\<close>

definition CDC_NOTIFICATION_EPADDR :: u8 where "CDC_NOTIFICATION_EPADDR = ENDPOINT_DIR_IN OR 2"
definition CDC_TX_EPADDR :: u8 where "CDC_TX_EPADDR = ENDPOINT_DIR_IN OR 3"
definition CDC_RX_EPADDR :: u8 where "CDC_RX_EPADDR = ENDPOINT_DIR_OUT OR 4"
definition CDC_NOTIFICATION_EPSIZE :: u16 where "CDC_NOTIFICATION_EPSIZE = 8"
definition CDC_TXRX_EPSIZE :: u16 where "CDC_TXRX_EPSIZE = 16"
definition INTERFACE_ID_CDC_CCI :: u8 where "INTERFACE_ID_CDC_CCI = 0"
definition INTERFACE_ID_CDC_DCI :: u8 where "INTERFACE_ID_CDC_DCI = 1"
definition STRING_ID_Language :: u8 where "STRING_ID_Language = 0"
definition STRING_ID_Manufacturer :: u8 where "STRING_ID_Manufacturer = 1"
definition STRING_ID_Product :: u8 where "STRING_ID_Product = 2"

lemmas rng_constants = CDC_NOTIFICATION_EPADDR_def CDC_TX_EPADDR_def CDC_RX_EPADDR_def CDC_NOTIFICATION_EPSIZE_def
  CDC_TXRX_EPSIZE_def INTERFACE_ID_CDC_CCI_def INTERFACE_ID_CDC_DCI_def STRING_ID_Language_def
  STRING_ID_Manufacturer_def STRING_ID_Product_def ENDPOINT_DIR_IN_def ENDPOINT_DIR_OUT_def

definition DeviceDescriptor :: "u8 list" where
  "DeviceDescriptor = USB_Descriptor_Device (USB_Descriptor_Header 18 DTYPE_Device)
     (VERSION_BCD 1 1 0) 0x02 0x00 0x00 8 0x03EB 0x2044 (VERSION_BCD 0 0 1)
     STRING_ID_Manufacturer STRING_ID_Product USE_INTERNAL_SERIAL FIXED_NUM_CONFIGURATIONS"

definition config_subdescriptors :: "u8 list list" where
  "config_subdescriptors = [
     USB_Descriptor_Configuration_Header (USB_Descriptor_Header 9 DTYPE_Configuration) 62 2 1 0
       (0x80 OR 0x40) (USB_CONFIG_POWER_MA 100),
     USB_Descriptor_Interface (USB_Descriptor_Header 9 DTYPE_Interface) INTERFACE_ID_CDC_CCI 0 1 0x02 0x02 0x01 0,
     USB_CDC_Descriptor_FunctionalHeader (USB_Descriptor_Header 5 DTYPE_CSInterface) 0x00 (VERSION_BCD 1 1 0),
     USB_CDC_Descriptor_FunctionalACM (USB_Descriptor_Header 4 DTYPE_CSInterface) 0x02 0x06,
     USB_CDC_Descriptor_FunctionalUnion (USB_Descriptor_Header 5 DTYPE_CSInterface) 0x06
       INTERFACE_ID_CDC_CCI INTERFACE_ID_CDC_DCI,
     USB_Descriptor_Endpoint (USB_Descriptor_Header 7 DTYPE_Endpoint) CDC_NOTIFICATION_EPADDR EP_TYPE_INTERRUPT
       CDC_NOTIFICATION_EPSIZE 0xFF,
     USB_Descriptor_Interface (USB_Descriptor_Header 9 DTYPE_Interface) INTERFACE_ID_CDC_DCI 0 2 0x0A 0x00 0x00 0,
     USB_Descriptor_Endpoint (USB_Descriptor_Header 7 DTYPE_Endpoint) CDC_RX_EPADDR EP_TYPE_BULK CDC_TXRX_EPSIZE 0x05,
     USB_Descriptor_Endpoint (USB_Descriptor_Header 7 DTYPE_Endpoint) CDC_TX_EPADDR EP_TYPE_BULK CDC_TXRX_EPSIZE 0x05]"

definition ConfigurationDescriptor :: "u8 list" where
  "ConfigurationDescriptor = concat config_subdescriptors"

definition LanguageString :: "u8 list" where
  "LanguageString = USB_STRING_DESCRIPTOR_ARRAY 0x0409"

definition ManufacturerString :: "u8 list" where
  "ManufacturerString = USB_STRING_DESCRIPTOR (map (of_nat \<circ> of_char) ''K7NVH'')"

definition ProductString :: "u8 list" where
  "ProductString = USB_STRING_DESCRIPTOR (map (of_nat \<circ> of_char) ''RNG V1.1'')"

definition RNG_GetDescriptor :: "u16 \<Rightarrow> u8 \<Rightarrow> u16 \<times> u8 list" where
  "RNG_GetDescriptor wVal wInd =
    (let DescriptorType = (ucast (drop_bit 8 wVal) :: u8); DescriptorNumber = (ucast (wVal AND 0xFF) :: u8) in
     if DescriptorType = DTYPE_Device then (18, DeviceDescriptor)
     else if DescriptorType = DTYPE_Configuration then (62, ConfigurationDescriptor)
     else if DescriptorType = DTYPE_String then
       if DescriptorNumber = STRING_ID_Language then (ucast (LanguageString ! 0), LanguageString)
       else if DescriptorNumber = STRING_ID_Manufacturer then (ucast (ManufacturerString ! 0), ManufacturerString)
       else if DescriptorNumber = STRING_ID_Product then (ucast (ProductString ! 0), ProductString)
       else (NO_DESCRIPTOR, [])
     else (NO_DESCRIPTOR, []))"

subsection \<open>The program\<close>

record rng =
  BYTE_IN :: u8
  ident :: u8
  ident_count :: u16
  sample_count :: u16
  VirtualSerial_CDC_Interface :: USB_ClassInfo_CDC_Device

definition rng_interface :: USB_ClassInfo_CDC_Device where
  "rng_interface = \<lparr>ControlInterfaceNumber = INTERFACE_ID_CDC_CCI,
     DataINEndpoint = \<lparr>Address = CDC_TX_EPADDR, Size = CDC_TXRX_EPSIZE, Type = 0, Banks = 1\<rparr>,
     DataOUTEndpoint = \<lparr>Address = CDC_RX_EPADDR, Size = CDC_TXRX_EPSIZE, Type = 0, Banks = 1\<rparr>,
     NotificationEndpoint = \<lparr>Address = CDC_NOTIFICATION_EPADDR, Size = CDC_NOTIFICATION_EPSIZE, Type = 0, Banks = 1\<rparr>,
     HostToDevice = 0, DeviceToHost = 0, LineEncoding = zero_encoding\<rparr>"

definition rng_start :: rng where
  "rng_start = \<lparr>BYTE_IN = 0, ident = 0, ident_count = 0, sample_count = 0,
     VirtualSerial_CDC_Interface = rng_interface\<rparr>"

type_synonym 'w rng_dev = "(rng, 'w) dev"

definition rng_iface :: "'w rng_dev \<Rightarrow> USB_ClassInfo_CDC_Device" where
  "rng_iface s = VirtualSerial_CDC_Interface (app s)"

definition set_iface :: "USB_ClassInfo_CDC_Device \<Rightarrow> 'w rng_dev \<Rightarrow> 'w rng_dev" where
  "set_iface c s = s\<lparr>app := (app s)\<lparr>VirtualSerial_CDC_Interface := c\<rparr>\<rparr>"

definition rng_Connect :: "'w mcu \<Rightarrow> 'w rng_dev \<Rightarrow> 'w rng_dev option" where
  "rng_Connect m s = Some (modr m PORTD (\<lambda>v. v OR 0b00100000) s)"

definition rng_Disconnect :: "'w mcu \<Rightarrow> 'w rng_dev \<Rightarrow> 'w rng_dev option" where
  "rng_Disconnect m s = Some (modr m PORTD (\<lambda>v. v AND 0b11011111) s)"

definition rng_ConfigurationChanged :: "'w mcu \<Rightarrow> 'w rng_dev \<Rightarrow> 'w rng_dev option" where
  "rng_ConfigurationChanged m s = do {
     (ok, c, s) \<leftarrow> CDC_Device_ConfigureEndpoints m (rng_iface s) s;
     Some (set_iface c s) }"

definition rng_ControlRequest :: "'w mcu \<Rightarrow> 'w rng_dev \<Rightarrow> 'w rng_dev option" where
  "rng_ControlRequest m s = do {
     (c, s) \<leftarrow> CDC_Device_ProcessControlRequest m CDC_Device_Event_Stub (rng_iface s) s;
     Some (set_iface c s) }"

definition rng_events :: "'w mcu \<Rightarrow> (rng, 'w) events" where
  "rng_events m = \<lparr>EVENT_USB_Device_ControlRequest = rng_ControlRequest m,
     EVENT_USB_Device_ConfigurationChanged = rng_ConfigurationChanged m,
     EVENT_USB_Device_Connect = rng_Connect m, EVENT_USB_Device_Disconnect = rng_Disconnect m,
     EVENT_USB_Device_Suspend = USB_Event_Stub, EVENT_USB_Device_WakeUp = USB_Event_Stub,
     EVENT_USB_Device_Reset = USB_Event_Stub, EVENT_USB_Device_StartOfFrame = USB_Event_Stub,
     CALLBACK_USB_GetDescriptor = RNG_GetDescriptor\<rparr>"

text \<open>Up to the loop: watchdog, clock, pins, USB, stream, interrupts.\<close>

definition rng_setup :: "'w mcu \<Rightarrow> 'w rng_dev \<Rightarrow> 'w rng_dev option" where
  "rng_setup m s = do {
     let s = modr m MCUSR (clr_flag 3) s;
     let s = s\<lparr>world := mcu_clock_prescale m 0 (mcu_wdt_disable m (world s))\<rparr>;
     let s = setr m PORTD 0b00000000 (setr m DDRD 0b00110000 s);
     let s = modr m DDRC (\<lambda>v. v AND 0b11111011) s;
     s \<leftarrow> USB_Init m s;
     Some (GlobalInterruptEnable m s) }"

definition USBSerialStream :: "'w mcu \<Rightarrow> (rng, 'w) FILE" where
  "USBSerialStream m = CDC_Device_CreateStream m rng_iface"

text \<open>
  The stages of the loop body. \<open>char\<close> is unsigned in this build (\<open>-funsigned-char\<close>), so the stored byte
  is never negative. The result of \<open>rng_iteration\<close> is false when the program jumps to the boot loader.
\<close>

definition rng_sample :: "'w mcu \<Rightarrow> 'w rng_dev \<Rightarrow> 'w rng_dev option" where
  "rng_sample m s = do {
     let (v, s) = getr m PINC s;
     (_, s) \<leftarrow> fputc (drop_bit 2 (v AND 0b00000100) + 48) (USBSerialStream m) s;
     Some s }"

definition rng_blink :: "'w mcu \<Rightarrow> 'w rng_dev \<Rightarrow> 'w rng_dev" where
  "rng_blink m s =
    (let s = (if sample_count (app s) = 0 then modr m PORTD (\<lambda>v. v XOR 0b00010000) s else s)
     in s\<lparr>app := (app s)\<lparr>sample_count := sample_count (app s) + 1\<rparr>\<rparr>)"

definition rng_receive :: "'w mcu \<Rightarrow> 'w rng_dev \<Rightarrow> bool \<times> 'w rng_dev" where
  "rng_receive m s =
    (let (b, s) = CDC_Device_ReceiveByte m (rng_iface s) s;
         s = s\<lparr>app := (app s)\<lparr>BYTE_IN := word_of_int b\<rparr>\<rparr>
     in if uint (BYTE_IN (app s)) \<ge> 0 then
          if BYTE_IN (app s) = 30 then (False, s)
          else if BYTE_IN (app s) = 63 then
            (True, s\<lparr>app := (app s)\<lparr>ident := if ident (app s) \<noteq> 0 then 0 else 1\<rparr>\<rparr>)
          else (True, s)
        else (True, s))"

definition rng_ident :: "'w mcu \<Rightarrow> 'w rng_dev \<Rightarrow> 'w rng_dev" where
  "rng_ident m s =
    (if ident (app s) \<noteq> 0 then
       let s = (if ident_count (app s) = 0 then modr m PORTD (\<lambda>v. v XOR 0b00100000) s else s)
       in s\<lparr>app := (app s)\<lparr>ident_count := ident_count (app s) + 1\<rparr>\<rparr>
     else s)"

definition rng_iteration :: "'w mcu \<Rightarrow> 'w rng_dev \<Rightarrow> (bool \<times> 'w rng_dev) option" where
  "rng_iteration m s = do {
     s \<leftarrow> rng_sample m s;
     let (go, s) = rng_receive m (rng_blink m s);
     if \<not> go then Some (False, s)
     else do {
       let s = rng_ident m s;
       s \<leftarrow> CDC_Device_USBTask m (rng_iface s) s;
       s \<leftarrow> USB_USBTask m (rng_events m) s;
       Some (True, s) } }"

text \<open>The first \<open>n\<close> iterations of the endless loop, or fewer when the boot loader is entered.\<close>

fun rng_loop :: "'w mcu \<Rightarrow> nat \<Rightarrow> 'w rng_dev \<Rightarrow> (bool \<times> 'w rng_dev) option" where
  "rng_loop m 0 s = Some (True, s)"
| "rng_loop m (Suc n) s = do { (go, s) \<leftarrow> rng_iteration m s; if go then rng_loop m n s else Some (False, s) }"

definition rng_main :: "'w mcu \<Rightarrow> nat \<Rightarrow> 'w rng_dev \<Rightarrow> (bool \<times> 'w rng_dev) option" where
  "rng_main m n s = do { s \<leftarrow> rng_setup m s; rng_loop m n s }"

subsection \<open>Interrupts\<close>

text \<open>
  The loop with the two interrupt handlers of the library, which run between any two of its stages.
\<close>

datatype stage = Sampling | Receiving | Identifying | Serving | Tasking

inductive firmware_step :: "'w mcu \<Rightarrow> stage \<times> 'w rng_dev \<Rightarrow> stage \<times> 'w rng_dev \<Rightarrow> bool" for m where
  samples: "rng_sample m s = Some s' \<Longrightarrow> firmware_step m (Sampling, s) (Receiving, rng_blink m s')"
| receives: "rng_receive m s = (True, s') \<Longrightarrow> firmware_step m (Receiving, s) (Identifying, s')"
| identifies: "firmware_step m (Identifying, s) (Serving, rng_ident m s)"
| serves: "CDC_Device_USBTask m (rng_iface s) s = Some s' \<Longrightarrow> firmware_step m (Serving, s) (Tasking, s')"
| tasks: "USB_USBTask m (rng_events m) s = Some s' \<Longrightarrow> firmware_step m (Tasking, s) (Sampling, s')"
| general: "USB_GEN_vect m (rng_events m) s = Some s' \<Longrightarrow> firmware_step m (p, s) (p, s')"
| endpoint: "USB_COM_vect m (rng_events m) s = Some s' \<Longrightarrow> firmware_step m (p, s) (p, s')"

lemma iteration_steps:
  assumes "rng_iteration m s = Some (True, s')"
  shows "(firmware_step m)\<^sup>*\<^sup>* (Sampling, s) (Sampling, s')"
proof -
  from assms obtain s1 where 1: "rng_sample m s = Some s1" by (auto simp: rng_iteration_def bind_eq_Some_conv)
  obtain go s2 where r: "rng_receive m (rng_blink m s1) = (go, s2)" by fastforce
  with assms 1 have 2: "rng_receive m (rng_blink m s1) = (True, s2)"
    by (auto simp: rng_iteration_def Let_def split: if_splits)
  with assms 1 obtain s3 where 3: "CDC_Device_USBTask m (rng_iface (rng_ident m s2)) (rng_ident m s2) = Some s3"
    and 4: "USB_USBTask m (rng_events m) s3 = Some s'"
    by (auto simp: rng_iteration_def bind_eq_Some_conv Let_def)
  have "(firmware_step m)\<^sup>*\<^sup>* (Sampling, s) (Receiving, rng_blink m s1)"
    using firmware_step.samples [OF 1] by (rule r_into_rtranclp)
  also note firmware_step.receives [OF 2]
  also note firmware_step.identifies
  also note firmware_step.serves [OF 3]
  also note firmware_step.tasks [OF 4]
  finally show ?thesis .
qed

lemma loop_steps: "rng_loop m n s = Some (True, s') \<Longrightarrow> (firmware_step m)\<^sup>*\<^sup>* (Sampling, s) (Sampling, s')"
proof (induction n arbitrary: s)
  case (Suc n)
  then obtain t where "rng_iteration m s = Some (True, t)" and "rng_loop m n t = Some (True, s')"
    by (auto simp: bind_eq_Some_conv split: if_splits)
  with Suc.IH iteration_steps show ?case by (blast intro: rtranclp_trans)
qed simp

end
