(* ===== verification/ConfigDescriptors.thy ===== *)
theory ConfigDescriptors
  imports LUFA_Common
begin

text \<open>
  Walking a configuration descriptor, \<open>ConfigDescriptors.c\<close> and the inline function of its header. The
  memory that holds the descriptor is a list of bytes, a pointer into it a position; a read outside of
  it is undefined (\<open>None\<close>). Both variables of the source are passed by pointer: the functions return the
  remaining length and the position.
\<close>

definition descriptor_size :: "u8 list \<Rightarrow> nat \<Rightarrow> u8 option" where
  "descriptor_size mem pos = (if pos < length mem then Some (mem ! pos) else None)"

definition descriptor_type :: "u8 list \<Rightarrow> nat \<Rightarrow> u8 option" where
  "descriptor_type mem pos = (if pos + 1 < length mem then Some (mem ! (pos + 1)) else None)"

definition USB_GetNextDescriptor :: "u8 list \<Rightarrow> u16 \<times> nat \<Rightarrow> (u16 \<times> nat) option" where
  "USB_GetNextDescriptor mem p = (case p of (BytesRem, CurrConfigLoc) \<Rightarrow> do {
     sz \<leftarrow> descriptor_size mem CurrConfigLoc;
     let CurrDescriptorSize = (ucast sz :: u16);
     let CurrDescriptorSize = (if BytesRem < CurrDescriptorSize then BytesRem else CurrDescriptorSize);
     Some (BytesRem - CurrDescriptorSize, CurrConfigLoc + unat CurrDescriptorSize) })"

partial_function (option) USB_GetNextDescriptorOfType :: "u8 list \<Rightarrow> u8 \<Rightarrow> u16 \<times> nat \<Rightarrow> (u16 \<times> nat) option" where
  "USB_GetNextDescriptorOfType mem Type p =
    (if fst p = 0 then Some p
     else Option.bind (USB_GetNextDescriptor mem p) (\<lambda>p.
       Option.bind (descriptor_type mem (snd p)) (\<lambda>t.
         if t = Type then Some p else USB_GetNextDescriptorOfType mem Type p)))"

partial_function (option) USB_GetNextDescriptorOfTypeBefore ::
    "u8 list \<Rightarrow> u8 \<Rightarrow> u8 \<Rightarrow> u16 \<times> nat \<Rightarrow> (u16 \<times> nat) option" where
  "USB_GetNextDescriptorOfTypeBefore mem Type BeforeType p =
    (if fst p = 0 then Some p
     else Option.bind (USB_GetNextDescriptor mem p) (\<lambda>p.
       Option.bind (descriptor_type mem (snd p)) (\<lambda>t.
         if t = Type then Some p
         else if t = BeforeType then Some (0, snd p)
         else USB_GetNextDescriptorOfTypeBefore mem Type BeforeType p)))"

definition USB_GetNextDescriptorOfTypeAfter ::
    "u8 list \<Rightarrow> u8 \<Rightarrow> u8 \<Rightarrow> u16 \<times> nat \<Rightarrow> (u16 \<times> nat) option" where
  "USB_GetNextDescriptorOfTypeAfter mem Type AfterType p = do {
     p \<leftarrow> USB_GetNextDescriptorOfType mem AfterType p;
     if fst p \<noteq> 0 then USB_GetNextDescriptorOfType mem Type p else Some p }"

text \<open>The comparator is a function of the application; it sees the memory from the descriptor on.\<close>

definition DESCRIPTOR_SEARCH_Found :: u8 where "DESCRIPTOR_SEARCH_Found = 0"
definition DESCRIPTOR_SEARCH_Fail :: u8 where "DESCRIPTOR_SEARCH_Fail = 1"
definition DESCRIPTOR_SEARCH_NotFound :: u8 where "DESCRIPTOR_SEARCH_NotFound = 2"
definition DESCRIPTOR_SEARCH_COMP_EndOfDescriptor :: u8 where "DESCRIPTOR_SEARCH_COMP_EndOfDescriptor = 2"

partial_function (option) USB_GetNextDescriptorComp ::
    "u8 list \<Rightarrow> (u8 list \<Rightarrow> u8 option) \<Rightarrow> u16 \<times> nat \<Rightarrow> (u8 \<times> u16 \<times> nat) option" where
  "USB_GetNextDescriptorComp mem ComparatorRoutine p =
    (if fst p = 0 then Some (DESCRIPTOR_SEARCH_COMP_EndOfDescriptor, p)
     else Option.bind (USB_GetNextDescriptor mem p) (\<lambda>p'.
       Option.bind (ComparatorRoutine (drop (snd p') mem)) (\<lambda>ErrorCode.
         if ErrorCode \<noteq> DESCRIPTOR_SEARCH_NotFound
         then Some (ErrorCode, if ErrorCode = DESCRIPTOR_SEARCH_Fail then p else p')
         else USB_GetNextDescriptorComp mem ComparatorRoutine p')))"

subsection \<open>Well-formed configuration descriptors\<close>

definition wf_descriptor :: "u8 list \<Rightarrow> bool" where
  "wf_descriptor d \<longleftrightarrow> 2 \<le> length d \<and> length d < 256 \<and> d ! 0 = of_nat (length d)"

definition total_size :: "u8 list list \<Rightarrow> nat" where
  "total_size ds = length (concat ds)"

text \<open>Where the search must stop: the remaining descriptors from the first one of the type on.\<close>

definition find_type :: "u8 \<Rightarrow> u8 list list \<Rightarrow> u8 list list" where
  "find_type T ds = dropWhile (\<lambda>d. d ! 1 \<noteq> T) ds"

lemma total_size_simps [simp]: "total_size [] = 0" "total_size (d # ds) = length d + total_size ds"
  by (simp_all add: total_size_def)

lemma unat_small16: "n < 65536 \<Longrightarrow> unat (of_nat n :: u16) = n"
  by (simp add: unat_of_nat)

lemma unat_ucast_8_16: "unat (ucast (x :: u8) :: u16) = unat x"
proof -
  have "unat x < 256" using unsigned_less [of x, where ?'a = nat] by simp
  then show ?thesis by (simp add: unsigned_ucast_eq take_bit_nat_eq_self)
qed

lemma next_descriptor:
  assumes "wf_descriptor d" and "total_size (d # ds) < 65536"
  shows "USB_GetNextDescriptor (pre @ concat (d # ds) @ slack) (of_nat (total_size (d # ds)), length pre) =
    Some (of_nat (total_size ds), length (pre @ d))"
proof -
  from assms have len: "unat (of_nat (length d) :: u8) = length d" by (simp add: wf_descriptor_def unat_of_nat)
  have "ucast (of_nat (length d) :: u8) = (of_nat (length d) :: u16)"
    by (rule word_unat_eq_iff [THEN iffD2]) (use assms in \<open>simp add: unat_ucast_8_16 len unat_small16 wf_descriptor_def\<close>)
  moreover have "\<not> (of_nat (total_size (d # ds)) :: u16) < of_nat (length d)"
    using assms by (simp add: word_less_nat_alt unat_small16 del: of_nat_add)
  moreover have "descriptor_size (pre @ concat (d # ds) @ slack) (length pre) = Some (of_nat (length d))"
    using assms by (auto simp: descriptor_size_def wf_descriptor_def nth_append)
  ultimately show ?thesis using assms by (simp add: USB_GetNextDescriptor_def unat_small16 Let_def)
qed

lemma next_type: "2 \<le> length d \<Longrightarrow> descriptor_type (pre @ d @ rest) (length pre) = Some (d ! 1)"
  by (simp add: descriptor_type_def nth_append)

lemma of_type_stop: "USB_GetNextDescriptorOfType mem T (0, pos) = Some (0, pos)"
  by (subst USB_GetNextDescriptorOfType.simps) simp

lemma remaining_nonzero:
  assumes "wf_descriptor d" and "total_size (d # ds) < 65536"
  shows "(of_nat (total_size (d # ds)) :: u16) \<noteq> 0"
proof
  assume "(of_nat (total_size (d # ds)) :: u16) = 0"
  then have "unat (of_nat (total_size (d # ds)) :: u16) = 0" by simp
  with assms show False by (simp add: unat_small16 wf_descriptor_def del: of_nat_add)
qed

lemma of_type_search:
  assumes "list_all wf_descriptor (d # ds)" and "total_size (d # ds) < 65536"
  shows "USB_GetNextDescriptorOfType (pre @ concat (d # ds) @ slack) T (of_nat (total_size (d # ds)), length pre) =
    (if find_type T ds = [] \<and> length slack < 2 then None
     else Some (of_nat (total_size (find_type T ds)),
       length pre + total_size (d # ds) - total_size (find_type T ds)))"
  using assms
proof (induction ds arbitrary: d pre)
  case Nil
  then have next1: "USB_GetNextDescriptor (pre @ d @ slack) (of_nat (length d), length pre) =
      Some (0, length (pre @ d))" and nz: "(of_nat (length d) :: u16) \<noteq> 0"
    using next_descriptor [of d "[]" pre slack] remaining_nonzero [of d "[]"] by simp_all
  show ?case
  proof (cases "length slack < 2")
    case True
    then have "descriptor_type (pre @ d @ slack) (length pre + length d) = None" by (simp add: descriptor_type_def)
    with True next1 nz show ?thesis
      by (subst USB_GetNextDescriptorOfType.simps) (simp add: find_type_def)
  next
    case False
    then have "descriptor_type (pre @ d @ slack) (length pre + length d) = Some (slack ! 1)"
      using next_type [of slack "pre @ d" "[]"] by simp
    with False next1 nz show ?thesis
      by (subst USB_GetNextDescriptorOfType.simps) (simp add: find_type_def of_type_stop)
  qed
next
  case (Cons e ds)
  let ?mem = "pre @ concat (d # e # ds) @ slack"
  have next1: "USB_GetNextDescriptor ?mem (of_nat (total_size (d # e # ds)), length pre) =
      Some (of_nat (total_size (e # ds)), length (pre @ d))"
    using next_descriptor [of d "e # ds" pre slack] Cons.prems by simp
  have nz: "(of_nat (total_size (d # e # ds)) :: u16) \<noteq> 0"
    using remaining_nonzero [of d "e # ds"] Cons.prems by simp
  have ty: "descriptor_type ?mem (length (pre @ d)) = Some (e ! 1)"
    using next_type [of e "pre @ d" "concat ds @ slack"] Cons.prems by (simp add: wf_descriptor_def)
  have IH: "USB_GetNextDescriptorOfType ?mem T (of_nat (total_size (e # ds)), length (pre @ d)) =
    (if find_type T ds = [] \<and> length slack < 2 then None
     else Some (of_nat (total_size (find_type T ds)),
       length (pre @ d) + total_size (e # ds) - total_size (find_type T ds)))"
    using Cons.IH [of e "pre @ d"] Cons.prems by simp
  show ?case
  proof (cases "e ! 1 = T")
    case True
    then have "find_type T (e # ds) = e # ds" by (simp add: find_type_def)
    then show ?thesis using next1 nz ty True
      by (subst USB_GetNextDescriptorOfType.simps) (simp del: of_nat_add)
  next
    case False
    then have "find_type T (e # ds) = find_type T ds" by (simp add: find_type_def)
    then show ?thesis using next1 nz ty False IH
      by (subst USB_GetNextDescriptorOfType.simps) (simp del: of_nat_add add: ac_simps)
  qed
qed

lemma zero_size_loops:
  assumes "USB_GetNextDescriptorOfType mem T p = Some q" and "fst p \<noteq> 0" and "mem ! snd p = 0"
    and "mem ! (snd p + 1) \<noteq> T"
  shows False
  using assms
proof (induction rule: USB_GetNextDescriptorOfType.raw_induct [rotated 1, consumes 1])
  case (1 rec mem T p q)
  then have "USB_GetNextDescriptor mem p = Some p"
    by (cases p) (auto simp: USB_GetNextDescriptor_def descriptor_size_def bind_eq_Some_conv split: if_splits)
  with 1(2-) have "rec mem T p = Some q" by (auto simp: bind_eq_Some_conv descriptor_type_def split: if_splits)
  with 1(1,3-) show ?case by blast
qed

text \<open>
  C28: in a configuration of well-formed descriptors, with two readable bytes behind it, the search for a
  descriptor type stops at the first descriptor of that type behind the current one, and when there is
  none it uses the whole configuration up.
\<close>

theorem descriptor_search_finds:
  assumes "list_all wf_descriptor (d # ds)" and "total_size (d # ds) < 65536" and "2 \<le> length slack"
  shows "USB_GetNextDescriptorOfType (pre @ concat (d # ds) @ slack) T (of_nat (total_size (d # ds)), length pre) =
    Some (of_nat (total_size (find_type T ds)),
      length pre + total_size (d # ds) - total_size (find_type T ds))"
  using of_type_search [OF assms(1,2), of pre slack T] assms(3) by simp

theorem descriptor_search_finds_witness:
  "USB_GetNextDescriptorOfType ([3, 4, 0] @ [4, 7, 1, 1] @ [2, 5] @ [0, 0]) 5 (9, 0) = Some (2, 7)"
proof -
  have "list_all wf_descriptor [[3, 4, 0], [4, 7, 1, 1], [2, 5]]" by (simp add: wf_descriptor_def)
  from descriptor_search_finds [of "[3, 4, 0]" "[[4, 7, 1, 1], [2, 5]]" "[0, 0]" "[]" 5] this
  show ?thesis by (simp add: find_type_def)
qed

text \<open>
  C31: when no descriptor of the type follows, the search reads the type byte behind the end of the
  configuration: unless the memory holds two more bytes there, that read is outside of it.
\<close>

theorem descriptor_search_overreads:
  assumes "list_all wf_descriptor (d # ds)" and "total_size (d # ds) < 65536" and "find_type T ds = []"
    and "length slack < 2"
  shows "USB_GetNextDescriptorOfType (pre @ concat (d # ds) @ slack) T (of_nat (total_size (d # ds)), length pre) = None"
  using of_type_search [OF assms(1,2), of pre slack T] assms(3,4) by simp

theorem descriptor_search_overreads_witness:
  "USB_GetNextDescriptorOfType [3, 4, 0, 2, 5] 7 (5, 0) = None"
proof -
  have "list_all wf_descriptor [[3, 4, 0], [2, 5]]" by (simp add: wf_descriptor_def)
  from descriptor_search_overreads [of "[3, 4, 0]" "[[2, 5]]" 7 "[]" "[]"] this
  show ?thesis by (simp add: find_type_def)
qed

end
