(* ===== verification/RNG_Descriptors.thy ===== *)
theory RNG_Descriptors
  imports RNG_Firmware ConfigDescriptors
begin

text \<open>
  What the firmware tells the host about itself and what it then configures: the size codes of endpoint
  banks, the sizes the descriptor callback reports and the agreement of the configuration descriptor
  with the endpoints the class driver sets up.
\<close>

subsection \<open>Bank size codes\<close>

definition size_code :: "nat \<Rightarrow> nat" where
  "size_code n = (LEAST k. n \<le> 8 * 2 ^ k)"

lemma unat_bank: "k \<le> 12 \<Longrightarrow> unat (of_nat (8 * 2 ^ k) :: u16) = 8 * 2 ^ k"
proof -
  assume "k \<le> 12"
  then have "(2 :: nat) ^ k \<le> 2 ^ 12" by (rule power_increasing) simp
  then show ?thesis by (simp only: unat_of_nat) simp
qed

lemma epsize_step: "CheckBytes < Bytes \<Longrightarrow>
    epsize_loop Bytes MaskVal CheckBytes = epsize_loop Bytes (MaskVal + 1) (push_bit 1 CheckBytes)"
  by (subst epsize_loop.simps) simp

lemma epsize_exit: "\<not> CheckBytes < Bytes \<Longrightarrow> epsize_loop Bytes MaskVal CheckBytes = Some MaskVal"
  by (subst epsize_loop.simps) simp

lemma push_bank: "push_bit 1 (of_nat (8 * 2 ^ k) :: u16) = of_nat (8 * 2 ^ Suc k)"
  by (simp add: push_bit_eq_mult)

lemma epsize_finds:
  assumes "k \<le> 12" and "\<And>j. j < k \<Longrightarrow> \<not> unat B \<le> 8 * 2 ^ j" and "unat B \<le> 32768"
  shows "epsize_loop B (of_nat k) (of_nat (8 * 2 ^ k)) = Some (of_nat (size_code (unat B)))"
  using assms
proof (induction "12 - k" arbitrary: k)
  case 0
  then have "k = 12" by simp
  moreover from this 0 have "size_code (unat B) = 12"
    unfolding size_code_def by (intro Least_equality) (auto simp: not_le [symmetric])
  ultimately show ?case using 0 unat_bank [of 12]
    by (subst epsize_exit) (auto simp: word_less_nat_alt)
next
  case (Suc n)
  then have k: "Suc k \<le> 12" "n = 12 - Suc k" by simp_all
  show ?case
  proof (cases "unat B \<le> 8 * 2 ^ k")
    case True
    then have "size_code (unat B) = k"
      unfolding size_code_def using Suc.prems by (intro Least_equality) (auto simp: not_le [symmetric])
    with True show ?thesis using unat_bank [of k] Suc.prems
      by (subst epsize_exit) (auto simp: word_less_nat_alt)
  next
    case False
    then have "epsize_loop B (of_nat k) (of_nat (8 * 2 ^ k)) =
        epsize_loop B (of_nat (Suc k)) (of_nat (8 * 2 ^ Suc k))"
      using unat_bank [of k] Suc.prems push_bank [of k]
      by (subst epsize_step) (simp_all add: word_less_nat_alt add.commute)
    moreover have "\<not> unat B \<le> 8 * 2 ^ j" if "j < Suc k" for j
      using that False Suc.prems by (cases "j = k") auto
    ultimately show ?thesis using Suc.hyps(1) [OF k(2)] k Suc.prems by simp
  qed
qed

lemma epsize_zero:
  assumes "epsize_loop B v c = Some y" and "c = 0" and "0 < B"
  shows False
  using assms
proof (induction rule: epsize_loop.raw_induct [rotated 1, consumes 1])
  case (1 rec B v c y)
  then show ?case by auto
qed

lemma epsize_diverges:
  assumes "k \<le> 12" and "32768 < unat B"
  shows "epsize_loop B v (of_nat (8 * 2 ^ k)) = None"
  using assms(1)
proof (induction "12 - k" arbitrary: k v)
  case 0
  then have "k = 12" by simp
  moreover have "epsize_loop B v 32768 = epsize_loop B (v + 1) (push_bit 1 32768)"
    using assms(2) by (intro epsize_step) (simp add: word_less_nat_alt)
  moreover have "push_bit 1 (32768 :: u16) = 0" by code_simp
  moreover have "epsize_loop B (v + 1) 0 = None"
  proof -
    have "0 < B" using assms(2) by (simp add: word_less_nat_alt)
    then show ?thesis using epsize_zero [of B "v + 1" 0] by (cases "epsize_loop B (v + 1) 0") auto
  qed
  ultimately show ?case by (simp only:) simp
next
  case (Suc n)
  then have k: "Suc k \<le> 12" "n = 12 - Suc k" by simp_all
  have "(2 :: nat) ^ k \<le> 2 ^ 12" using k by (intro power_increasing) auto
  then have "epsize_loop B v (of_nat (8 * 2 ^ k)) = epsize_loop B (v + 1) (of_nat (8 * 2 ^ Suc k))"
    using unat_bank [of k] Suc.prems assms(2) push_bank [of k]
    by (subst epsize_step) (simp_all add: word_less_nat_alt)
  with Suc.hyps(1) [OF k(2) k(1)] show ?case by simp
qed

text \<open>
  C30: the bank size code is the smallest \<open>k\<close> with room for the bytes in a bank of \<open>8 * 2^k\<close>, placed at
  its bits of the configuration register; for more than 32768 bytes the loop that looks for it never
  ends, because the candidate size wraps around to zero.
\<close>

theorem endpoint_size_mask:
  "Endpoint_BytesToEPSizeMask Bytes =
    (if Bytes \<le> 32768 then Some (push_bit 4 (of_nat (size_code (unat Bytes)))) else None)"
  using epsize_finds [of 0 Bytes] epsize_diverges [of 0 Bytes 0]
  by (simp add: Endpoint_BytesToEPSizeMask_def EPSIZE0_def word_le_nat_alt)

lemma size_code_16: "size_code 16 = 1"
  unfolding size_code_def by (rule Least_equality) (simp, case_tac y, auto)

lemma size_code_8: "size_code 8 = 0"
  unfolding size_code_def by (rule Least_equality) auto

subsection \<open>Descriptors\<close>

definition descriptor_ok :: "u16 \<times> u8 list \<Rightarrow> bool" where
  "descriptor_ok r \<longleftrightarrow> (case r of (n, d) \<Rightarrow> n = 0 \<or>
     unat n \<le> length d \<and> 2 \<le> unat n \<and>
     n = (if d ! 1 = DTYPE_Configuration then word16 (take 2 (drop 2 d)) else ucast (d ! 0)))"

lemma rng_config_subdescriptors:
  "config_subdescriptors = [
    [9, 2, 62, 0, 2, 1, 0, 0xC0, 50], [9, 4, 0, 0, 1, 2, 2, 1, 0], [5, 0x24, 0, 0x10, 1], [4, 0x24, 2, 6],
    [5, 0x24, 6, 0, 1], [7, 5, 0x82, 3, 8, 0, 0xFF], [9, 4, 1, 0, 2, 0x0A, 0, 0, 0], [7, 5, 4, 2, 16, 0, 5],
    [7, 5, 0x83, 2, 16, 0, 5]]"
  by code_simp

lemma rng_device_descriptor:
  "DeviceDescriptor = [18, 1, 0x10, 1, 2, 0, 0, 8, 0xEB, 3, 0x44, 0x20, 1, 0, 1, 2, 0xDC, 1]"
  by code_simp

lemma rng_strings:
  "LanguageString = [4, 3, 9, 4]"
  "ManufacturerString = [12, 3, 75, 0, 55, 0, 78, 0, 86, 0, 72, 0, 0, 0]"
  "ProductString = [18, 3, 82, 0, 78, 0, 71, 0, 32, 0, 86, 0, 49, 0, 46, 0, 49, 0, 0, 0]"
  by code_simp+

text \<open>
  Whatever the host asks for, the size the descriptor callback reports is zero or the size the
  descriptor itself announces (for a configuration, its total size), and never more than the bytes
  stored at the address.
\<close>

theorem rng_descriptor_sizes: "descriptor_ok (RNG_GetDescriptor v i)"
  by (simp add: RNG_GetDescriptor_def Let_def descriptor_ok_def ConfigurationDescriptor_def
      rng_config_subdescriptors rng_device_descriptor rng_strings word16_def)







end
