(* ===== verification/USB_Bus.thy ===== *)
theory USB_Bus
  imports CDC_Device "HOL-Library.Sublist"
begin

text \<open>
  What the firmware relies on in the USB controller, as an interface: which accesses change the
  selected endpoint, which bytes an endpoint hands to the host, and what a sample is. The stream of
  an endpoint is what it has handed over and what waits in its current bank, in order. Nothing is assumed
  about the host: any access may empty a bank, deliver a packet or lose what was waiting, so a stream is
  only known to lose bytes, except for the byte a write to the data register adds to the selected
  endpoint.
\<close>

locale usb_bus =
  fixes m :: "'w mcu" and sel :: "'w \<Rightarrow> u8" and stream :: "u8 \<Rightarrow> 'w \<Rightarrow> u8 list" and samples :: "'w \<Rightarrow> bool list"
  assumes rd_sel: "sel (snd (mcu_rd m r w)) = sel w"
    and wr_sel: "r \<noteq> UENUM \<Longrightarrow> sel (mcu_wr m r v w) = sel w"
    and wr_UENUM: "v < 5 \<Longrightarrow> sel (mcu_wr m UENUM v w) = v"
    and rd_UENUM: "fst (mcu_rd m UENUM w) = sel w"
    and sel_less: "sel w < 8"
    and rd_stream: "subseq (stream e (snd (mcu_rd m r w))) (stream e w)"
    and wr_stream: "r \<noteq> UEDATX \<or> sel w \<noteq> e \<Longrightarrow> subseq (stream e (mcu_wr m r v w)) (stream e w)"
    and wr_data: "subseq (stream (sel w) (mcu_wr m UEDATX v w)) (stream (sel w) w @ [v])"
    and rd_samples: "r \<noteq> PINC \<Longrightarrow> samples (snd (mcu_rd m r w)) = samples w"
    and rd_PINC: "samples (snd (mcu_rd m PINC w)) = samples w @ [flag (fst (mcu_rd m PINC w)) 2]"
    and wr_samples: "samples (mcu_wr m r v w) = samples w"
    and frame_quiet: "sel (snd (mcu_frame m w)) = sel w" "subseq (stream e (snd (mcu_frame m w))) (stream e w)"
      "samples (snd (mcu_frame m w)) = samples w"
    and wdt_quiet: "sel (mcu_wdt_disable m w) = sel w" "subseq (stream e (mcu_wdt_disable m w)) (stream e w)"
      "samples (mcu_wdt_disable m w) = samples w"
    and clock_quiet: "sel (mcu_clock_prescale m v w) = sel w" "subseq (stream e (mcu_clock_prescale m v w)) (stream e w)"
      "samples (mcu_clock_prescale m v w) = samples w"
begin

text \<open>
  The proofs follow the state through the code with two predicates relative to a world \<open>w\<close>: since
  then the data stream only lost bytes, no sample was taken and the application's variables are still
  \<open>a\<close> (\<open>loose\<close>), and moreover endpoint \<open>e\<close> is selected (\<open>steady\<close>).
\<close>

definition loose :: "'w \<Rightarrow> 'c \<Rightarrow> ('c, 'w) dev \<Rightarrow> bool" where
  "loose w a s \<longleftrightarrow> subseq (stream 3 (world s)) (stream 3 w) \<and> samples (world s) = samples w \<and> app s = a"

definition steady :: "'w \<Rightarrow> u8 \<Rightarrow> 'c \<Rightarrow> ('c, 'w) dev \<Rightarrow> bool" where
  "steady w e a s \<longleftrightarrow> loose w a s \<and> sel (world s) = e"

lemma loose_refl [simp]: "loose (world s) (app s) s"
  by (simp add: loose_def)

lemma steady_refl [simp]: "steady (world s) (sel (world s)) (app s) s"
  by (simp add: steady_def)

lemma steady_loose: "steady w e a s \<Longrightarrow> loose w a s"
  by (simp add: steady_def)

subsection \<open>Register accesses\<close>

lemma loose_getr [simp]: "loose w a s \<Longrightarrow> r \<noteq> PINC \<Longrightarrow> loose w a (snd (getr m r s))"
  using subseq_order.order_trans [OF rd_stream [of 3 r "world s"]] by (auto simp: loose_def getr_def rd_samples split_beta)

lemma loose_setr [simp]: "loose w a s \<Longrightarrow> r \<noteq> UEDATX \<Longrightarrow> loose w a (setr m r v s)"
  using subseq_order.order_trans [OF wr_stream [of r "world s" 3 v]] by (auto simp: loose_def setr_def wr_samples)

lemma loose_modr [simp]: "loose w a s \<Longrightarrow> r \<noteq> UEDATX \<Longrightarrow> r \<noteq> PINC \<Longrightarrow> loose w a (modr m r f s)"
  by (simp add: modr_def split_beta)

lemma loose_testr [simp]: "loose w a s \<Longrightarrow> r \<noteq> PINC \<Longrightarrow> loose w a (snd (testr m r b s))"
  by (simp add: testr_def split_beta)

lemma loose_frame [simp]: "loose w a s \<Longrightarrow> loose w a (snd (USB_Device_GetFrameNumber m s))"
  using subseq_order.order_trans [OF frame_quiet(2) [of 3 "world s"]]
  by (auto simp: loose_def USB_Device_GetFrameNumber_def frame_quiet split_beta)

lemma sel_getr [simp]: "sel (world (snd (getr m r s))) = sel (world s)"
  by (simp add: getr_def rd_sel split_beta)

lemma steady_getr [simp]: "steady w e a s \<Longrightarrow> r \<noteq> PINC \<Longrightarrow> steady w e a (snd (getr m r s))"
  by (simp add: steady_def)

lemma steady_setr [simp]:
  "steady w e a s \<Longrightarrow> r \<noteq> UENUM \<Longrightarrow> r \<noteq> UEDATX \<or> e \<noteq> 3 \<Longrightarrow> steady w e a (setr m r v s)"
  using subseq_order.order_trans [OF wr_stream [of r "world s" 3 v]]
  by (auto simp: steady_def loose_def setr_def wr_samples wr_sel)

lemma steady_modr [simp]:
  "steady w e a s \<Longrightarrow> r \<noteq> UENUM \<Longrightarrow> r \<noteq> UEDATX \<Longrightarrow> r \<noteq> PINC \<Longrightarrow> steady w e a (modr m r f s)"
  by (simp add: modr_def split_beta)

lemma steady_testr [simp]: "steady w e a s \<Longrightarrow> r \<noteq> PINC \<Longrightarrow> steady w e a (snd (testr m r b s))"
  by (simp add: testr_def split_beta)

lemma steady_frame [simp]: "steady w e a s \<Longrightarrow> steady w e a (snd (USB_Device_GetFrameNumber m s))"
  using loose_frame [of w a s] by (auto simp: steady_def USB_Device_GetFrameNumber_def frame_quiet split_beta)

lemma loose_select [simp]: "loose w a s \<Longrightarrow> loose w a (Endpoint_SelectEndpoint m v s)"
  by (simp add: Endpoint_SelectEndpoint_def)

lemma steady_select [simp]:
  "loose w a s \<Longrightarrow> v AND 0x0F < 5 \<Longrightarrow> e = v AND 0x0F \<Longrightarrow> steady w e a (Endpoint_SelectEndpoint m v s)"
  by (simp add: Endpoint_SelectEndpoint_def steady_def) (simp add: setr_def wr_UENUM)

lemma loose_update [simp]:
  "loose w a (s\<lparr>USB_ControlRequest := q\<rparr>) = loose w a s" "loose w a (s\<lparr>USB_Device_ConfigurationNumber := n\<rparr>) = loose w a s"
  "loose w a (s\<lparr>USB_Device_CurrentlySelfPowered := b\<rparr>) = loose w a s"
  "loose w a (s\<lparr>USB_Device_RemoteWakeupEnabled := b\<rparr>) = loose w a s" "loose w a (s\<lparr>USB_IsInitialized := b\<rparr>) = loose w a s"
  by (simp_all add: loose_def)

lemma steady_update [simp]:
  "steady w e a (s\<lparr>USB_ControlRequest := q\<rparr>) = steady w e a s"
  "steady w e a (s\<lparr>USB_Device_ConfigurationNumber := n\<rparr>) = steady w e a s"
  "steady w e a (s\<lparr>USB_Device_CurrentlySelfPowered := b\<rparr>) = steady w e a s"
  "steady w e a (s\<lparr>USB_Device_RemoteWakeupEnabled := b\<rparr>) = steady w e a s"
  "steady w e a (s\<lparr>USB_IsInitialized := b\<rparr>) = steady w e a s"
  by (simp_all add: steady_def)

lemma loose_int [simp]:
  "loose w a s \<Longrightarrow> loose w a (USB_INT_Enable m i s)"
  "loose w a s \<Longrightarrow> loose w a (USB_INT_Disable m i s)"
  "loose w a s \<Longrightarrow> loose w a (USB_INT_Clear m i s)"
  "loose w a s \<Longrightarrow> loose w a (snd (USB_INT_IsEnabled m i s))"
  "loose w a s \<Longrightarrow> loose w a (snd (USB_INT_HasOccurred m i s))"
  by (cases i, simp_all)+

lemma loose_regs [simp]:
  "loose w a s \<Longrightarrow> loose w a (Endpoint_EnableEndpoint m s)"
  "loose w a s \<Longrightarrow> loose w a (Endpoint_DisableEndpoint m s)"
  "loose w a s \<Longrightarrow> loose w a (Endpoint_ClearSETUP m s)"
  "loose w a s \<Longrightarrow> loose w a (Endpoint_ClearIN m s)"
  "loose w a s \<Longrightarrow> loose w a (Endpoint_ClearOUT m s)"
  "loose w a s \<Longrightarrow> loose w a (Endpoint_StallTransaction m s)"
  "loose w a s \<Longrightarrow> loose w a (Endpoint_ClearStall m s)"
  "loose w a s \<Longrightarrow> loose w a (Endpoint_ResetDataToggle m s)"
  "loose w a s \<Longrightarrow> loose w a (Endpoint_Discard_8 m s)"
  "loose w a s \<Longrightarrow> loose w a (USB_Detach m s)"
  "loose w a s \<Longrightarrow> loose w a (USB_Attach m s)"
  "loose w a s \<Longrightarrow> loose w a (USB_PLL_On m s)"
  "loose w a s \<Longrightarrow> loose w a (USB_PLL_Off m s)"
  "loose w a s \<Longrightarrow> loose w a (USB_REG_On m s)"
  "loose w a s \<Longrightarrow> loose w a (USB_REG_Off m s)"
  "loose w a s \<Longrightarrow> loose w a (USB_OTGPAD_On m s)"
  "loose w a s \<Longrightarrow> loose w a (USB_OTGPAD_Off m s)"
  "loose w a s \<Longrightarrow> loose w a (USB_CLK_Freeze m s)"
  "loose w a s \<Longrightarrow> loose w a (USB_CLK_Unfreeze m s)"
  "loose w a s \<Longrightarrow> loose w a (USB_Controller_Disable m s)"
  "loose w a s \<Longrightarrow> loose w a (USB_Controller_Reset m s)"
  "loose w a s \<Longrightarrow> loose w a (USB_Device_SetLowSpeed m s)"
  "loose w a s \<Longrightarrow> loose w a (USB_Device_SetFullSpeed m s)"
  "loose w a s \<Longrightarrow> loose w a (GlobalInterruptEnable m s)"
  "loose w a s \<Longrightarrow> loose w a (GlobalInterruptDisable m s)"
  "loose w a s \<Longrightarrow> loose w a (Endpoint_ResetEndpoint m v s)"
  "loose w a s \<Longrightarrow> loose w a (USB_Device_SetDeviceAddress m v s)"
  "loose w a s \<Longrightarrow> loose w a (USB_Device_EnableDeviceAddress m v s)"
  "loose w a s \<Longrightarrow> loose w a (SetGlobalInterruptMask m v s)"
  "loose w a s \<Longrightarrow> loose w a (snd (Endpoint_BytesInEndpoint m s))"
  "loose w a s \<Longrightarrow> loose w a (snd (Endpoint_GetEndpointDirection m s))"
  "loose w a s \<Longrightarrow> loose w a (snd (Endpoint_GetCurrentEndpoint m s))"
  "loose w a s \<Longrightarrow> loose w a (snd (Endpoint_IsEnabled m s))"
  "loose w a s \<Longrightarrow> loose w a (snd (Endpoint_IsReadWriteAllowed m s))"
  "loose w a s \<Longrightarrow> loose w a (snd (Endpoint_IsConfigured m s))"
  "loose w a s \<Longrightarrow> loose w a (snd (Endpoint_IsINReady m s))"
  "loose w a s \<Longrightarrow> loose w a (snd (Endpoint_IsOUTReceived m s))"
  "loose w a s \<Longrightarrow> loose w a (snd (Endpoint_IsSETUPReceived m s))"
  "loose w a s \<Longrightarrow> loose w a (snd (Endpoint_IsStalled m s))"
  "loose w a s \<Longrightarrow> loose w a (snd (Endpoint_Read_8 m s))"
  "loose w a s \<Longrightarrow> loose w a (snd (Endpoint_Read_32_LE m s))"
  "loose w a s \<Longrightarrow> loose w a (snd (USB_VBUS_GetStatus m s))"
  "loose w a s \<Longrightarrow> loose w a (snd (USB_PLL_IsReady m s))"
  "loose w a s \<Longrightarrow> loose w a (snd (USB_Device_IsAddressSet m s))"
  "loose w a s \<Longrightarrow> loose w a (snd (GetGlobalInterruptMask m s))"
  by (simp_all add: endpoint_defs controller_defs device_defs split_beta)

lemma loose_serial [simp]:
  "loose w a s \<Longrightarrow> loose w a (snd (USB_Device_GetSerialString m s))"
  by (simp add: USB_Device_GetSerialString_def split_beta Let_def)

lemma steady_int [simp]:
  "steady w e a s \<Longrightarrow> steady w e a (USB_INT_Enable m i s)"
  "steady w e a s \<Longrightarrow> steady w e a (USB_INT_Disable m i s)"
  "steady w e a s \<Longrightarrow> steady w e a (USB_INT_Clear m i s)"
  "steady w e a s \<Longrightarrow> steady w e a (snd (USB_INT_IsEnabled m i s))"
  "steady w e a s \<Longrightarrow> steady w e a (snd (USB_INT_HasOccurred m i s))"
  by (cases i, simp_all)+

lemma steady_regs [simp]:
  "steady w e a s \<Longrightarrow> steady w e a (Endpoint_EnableEndpoint m s)"
  "steady w e a s \<Longrightarrow> steady w e a (Endpoint_DisableEndpoint m s)"
  "steady w e a s \<Longrightarrow> steady w e a (Endpoint_ClearSETUP m s)"
  "steady w e a s \<Longrightarrow> steady w e a (Endpoint_ClearIN m s)"
  "steady w e a s \<Longrightarrow> steady w e a (Endpoint_ClearOUT m s)"
  "steady w e a s \<Longrightarrow> steady w e a (Endpoint_StallTransaction m s)"
  "steady w e a s \<Longrightarrow> steady w e a (Endpoint_ClearStall m s)"
  "steady w e a s \<Longrightarrow> steady w e a (Endpoint_ResetDataToggle m s)"
  "steady w e a s \<Longrightarrow> steady w e a (Endpoint_Discard_8 m s)"
  "steady w e a s \<Longrightarrow> steady w e a (USB_Detach m s)"
  "steady w e a s \<Longrightarrow> steady w e a (USB_Attach m s)"
  "steady w e a s \<Longrightarrow> steady w e a (USB_PLL_On m s)"
  "steady w e a s \<Longrightarrow> steady w e a (USB_PLL_Off m s)"
  "steady w e a s \<Longrightarrow> steady w e a (USB_REG_On m s)"
  "steady w e a s \<Longrightarrow> steady w e a (USB_REG_Off m s)"
  "steady w e a s \<Longrightarrow> steady w e a (USB_OTGPAD_On m s)"
  "steady w e a s \<Longrightarrow> steady w e a (USB_OTGPAD_Off m s)"
  "steady w e a s \<Longrightarrow> steady w e a (USB_CLK_Freeze m s)"
  "steady w e a s \<Longrightarrow> steady w e a (USB_CLK_Unfreeze m s)"
  "steady w e a s \<Longrightarrow> steady w e a (USB_Controller_Disable m s)"
  "steady w e a s \<Longrightarrow> steady w e a (USB_Controller_Reset m s)"
  "steady w e a s \<Longrightarrow> steady w e a (USB_Device_SetLowSpeed m s)"
  "steady w e a s \<Longrightarrow> steady w e a (USB_Device_SetFullSpeed m s)"
  "steady w e a s \<Longrightarrow> steady w e a (GlobalInterruptEnable m s)"
  "steady w e a s \<Longrightarrow> steady w e a (GlobalInterruptDisable m s)"
  "steady w e a s \<Longrightarrow> steady w e a (Endpoint_ResetEndpoint m v s)"
  "steady w e a s \<Longrightarrow> steady w e a (USB_Device_SetDeviceAddress m v s)"
  "steady w e a s \<Longrightarrow> steady w e a (USB_Device_EnableDeviceAddress m v s)"
  "steady w e a s \<Longrightarrow> steady w e a (SetGlobalInterruptMask m v s)"
  "steady w e a s \<Longrightarrow> steady w e a (snd (Endpoint_BytesInEndpoint m s))"
  "steady w e a s \<Longrightarrow> steady w e a (snd (Endpoint_GetEndpointDirection m s))"
  "steady w e a s \<Longrightarrow> steady w e a (snd (Endpoint_GetCurrentEndpoint m s))"
  "steady w e a s \<Longrightarrow> steady w e a (snd (Endpoint_IsEnabled m s))"
  "steady w e a s \<Longrightarrow> steady w e a (snd (Endpoint_IsReadWriteAllowed m s))"
  "steady w e a s \<Longrightarrow> steady w e a (snd (Endpoint_IsConfigured m s))"
  "steady w e a s \<Longrightarrow> steady w e a (snd (Endpoint_IsINReady m s))"
  "steady w e a s \<Longrightarrow> steady w e a (snd (Endpoint_IsOUTReceived m s))"
  "steady w e a s \<Longrightarrow> steady w e a (snd (Endpoint_IsSETUPReceived m s))"
  "steady w e a s \<Longrightarrow> steady w e a (snd (Endpoint_IsStalled m s))"
  "steady w e a s \<Longrightarrow> steady w e a (snd (Endpoint_Read_8 m s))"
  "steady w e a s \<Longrightarrow> steady w e a (snd (Endpoint_Read_32_LE m s))"
  "steady w e a s \<Longrightarrow> steady w e a (snd (USB_VBUS_GetStatus m s))"
  "steady w e a s \<Longrightarrow> steady w e a (snd (USB_PLL_IsReady m s))"
  "steady w e a s \<Longrightarrow> steady w e a (snd (USB_Device_IsAddressSet m s))"
  "steady w e a s \<Longrightarrow> steady w e a (snd (GetGlobalInterruptMask m s))"
  by (simp_all add: endpoint_defs controller_defs device_defs split_beta)

lemma steady_serial [simp]:
  "steady w e a s \<Longrightarrow> steady w e a (snd (USB_Device_GetSerialString m s))"
  by (simp add: USB_Device_GetSerialString_def split_beta Let_def)

lemma steady_writes [simp]:
  assumes "e \<noteq> 3"
  shows "steady w e a s \<Longrightarrow> steady w e a (Endpoint_Write_8 m v s)"
    "steady w e a s \<Longrightarrow> steady w e a (Endpoint_Write_16_LE m v16 s)"
    "steady w e a s \<Longrightarrow> steady w e a (Endpoint_Write_32_LE m v32 s)"
  using assms by (simp_all add: endpoint_write_defs)

subsection \<open>Waiting and configuring\<close>

lemmas bind_simps = bind_eq_Some_conv split_beta Let_def

lemma bind_SomeE:
  assumes "Option.bind x f = Some y"
  obtains z where "x = Some z" and "f z = Some y"
  using assms by (auto simp: bind_eq_Some_conv)

lemma bind_pairE:
  assumes "Option.bind x f = Some y"
  obtains a b where "x = Some (a, b)" and "f (a, b) = Some y"
  using assms by (auto simp: bind_eq_Some_conv)

lemma wait_for_steady:
  assumes "\<And>s. steady w e a s \<Longrightarrow> steady w e a (snd (ready s))"
  shows "wait_for ready s = Some (x, s') \<Longrightarrow> steady w e a s \<Longrightarrow> steady w e a s'"
  unfolding wait_for_def by (erule floop_keeps [rotated]) (use assms in \<open>auto simp: split_beta Let_def\<close>)

lemma wait_attached_steady:
  assumes "\<And>s. steady w e a s \<Longrightarrow> steady w e a (snd (ready s))"
  shows "wait_attached m ready s = Some (x, s') \<Longrightarrow> steady w e a s \<Longrightarrow> steady w e a s'"
  unfolding wait_attached_def
  by (erule floop_keeps [rotated]) (use assms in \<open>auto simp: split_beta Let_def split: if_splits\<close>)

lemma pll_wait_loose: "pll_wait m s = Some (x, s') \<Longrightarrow> loose w a s \<Longrightarrow> loose w a s'"
  unfolding pll_wait_def
  by (erule floop_keeps [rotated]) (auto simp: split_beta Let_def split: if_splits)

lemma status_stage_steady:
  "Endpoint_ClearStatusStage m s = Some (x, s') \<Longrightarrow> steady w e a s \<Longrightarrow> steady w e a s'"
  using wait_attached_steady [of w e a "Endpoint_IsOUTReceived m" s] wait_attached_steady [of w e a "Endpoint_IsINReady m" s]
  by (auto simp: Endpoint_ClearStatusStage_def bind_eq_Some_conv split: if_splits)

lemma wait_ready_steady: "Endpoint_WaitUntilReady m s = Some (x, s') \<Longrightarrow> steady w e a s \<Longrightarrow> steady w e a s'"
  unfolding Endpoint_WaitUntilReady_def split_beta Let_def
  by (erule floop_keeps [rotated]) (auto simp: ready_body_def ready_poll_def split_beta Let_def split: if_splits)

lemma configure_loose: "loose w a s \<Longrightarrow> loose w a (snd (configure_from m n c0 c1 es s))"
proof (induction es arbitrary: s)
  case (Cons e es)
  then show ?case by (simp add: split_beta Let_def)
qed simp

lemma configure_endpoint_snd:
  "Endpoint_ConfigureEndpoint m ad ty sz bk s = Some p \<Longrightarrow> loose w a s \<Longrightarrow> loose w a (snd p)"
  by (auto simp: Endpoint_ConfigureEndpoint_def Endpoint_ConfigureEndpoint_Prv_def bind_eq_Some_conv Let_def
      configure_loose split: if_splits)

lemmas configure_endpoint_loose = configure_endpoint_snd [where p = "(x, s')" for x s', unfolded snd_conv]

lemma configure_table_loose:
  "Endpoint_ConfigureEndpointTable m ts s = Some (x, s') \<Longrightarrow> loose w a s \<Longrightarrow> loose w a s'"
proof (induction ts arbitrary: s)
  case (Cons t ts)
  show ?case
  proof (cases "Address t = 0")
    case True
    with Cons show ?thesis by simp
  next
    case False
    with Cons.prems(1) obtain ok s1
      where c: "Endpoint_ConfigureEndpoint m (Address t) (Type t) (Size t) (Banks t) s = Some (ok, s1)"
        and r: "(if ok then Endpoint_ConfigureEndpointTable m ts s1 else Some (False, s1)) = Some (x, s')"
      by (auto simp: bind_eq_Some_conv)
    from configure_endpoint_loose [OF c Cons.prems(2)] have "loose w a s1" .
    with r Cons.IH show ?thesis by (auto split: if_splits)
  qed
qed simp

subsection \<open>Control transfers\<close>

lemma fill_steady:
  assumes "e \<noteq> 3"
  shows "floop (fill_body dir (write_byte m) buf) l s = Some (x, s') \<Longrightarrow> steady w e a s \<Longrightarrow> steady w e a s'"
  by (erule floop_keeps [rotated])
    (use assms in \<open>auto simp: fill_body_def write_byte_def bind_eq_Some_conv split: if_splits\<close>)

lemma cw_body_steady:
  assumes "e \<noteq> 3"
  shows "cw_body m dir (write_byte m) buf l s = Some (r, s') \<Longrightarrow> steady w e a s \<Longrightarrow> steady w e a s'"
  using fill_steady [OF assms, of dir buf _ "snd (Endpoint_BytesInEndpoint m
    (snd (Endpoint_IsINReady m (snd (Endpoint_IsOUTReceived m (snd (Endpoint_IsSETUPReceived m
      (snd (getr m USB_DeviceState s)))))))))" _ _ w a]
  by (auto simp: cw_body_def bind_simps split: if_splits)

lemma status_steady:
  "floop (status_body m (Endpoint_IsOUTReceived m)) l s = Some (x, s') \<Longrightarrow> steady w e a s \<Longrightarrow> steady w e a s'"
  by (erule floop_keeps [rotated]) (auto simp: status_body_def split_beta Let_def split: if_splits)

lemma control_write_steady:
  assumes "template_control_w m dir (write_byte m) buf n s = Some (x, s')" and "steady w e a s" and "e \<noteq> 3"
  shows "steady w e a s'"
proof -
  define p where "p = (if n > wLength (USB_ControlRequest s) then (wLength (USB_ControlRequest s), s)
    else if n = 0 then (n, Endpoint_ClearIN m s) else (n, s))"
  obtain r s2 where l: "floop (cw_body m dir (write_byte m) buf) (fst p, buffer_offset dir n, False) (snd p) = Some (r, s2)"
    and x: "(case r of Some e \<Rightarrow> Some (e, s2) | None \<Rightarrow> floop (status_body m (Endpoint_IsOUTReceived m)) () s2) = Some (x, s')"
    using assms(1) unfolding template_control_w_def p_def [symmetric] Let_def
    by (cases p) (auto simp: bind_eq_Some_conv)
  have "steady w e a (snd p)" using assms(2) by (simp add: p_def)
  then have "steady w e a s2"
    by (rule floop_keeps [rotated 2, OF _ _ l]) (erule (1) cw_body_steady [OF \<open>e \<noteq> 3\<close>, rotated])
  with x status_steady show ?thesis by (auto split: option.splits)
qed

lemma serial_descriptor_steady:
  assumes "USB_Device_GetInternalSerialDescriptor m s = Some s'" and "steady w e a s" and "e \<noteq> 3"
  shows "steady w e a s'"
proof -
  from assms(1) obtain buf n x s1 where
    c: "template_control_w m 1 (write_byte m) buf n (Endpoint_ClearSETUP m (snd (USB_Device_GetSerialString m s))) = Some (x, s1)"
    and s': "s' = Endpoint_ClearOUT m s1"
    by (auto simp: USB_Device_GetInternalSerialDescriptor_def Endpoint_Write_Control_Stream_LE_def bind_eq_Some_conv
        split_beta Let_def)
  from control_write_steady [OF c] assms(2,3) have "steady w e a s1" by simp
  with s' show ?thesis by simp
qed

lemma get_descriptor_steady:
  assumes "USB_Device_GetDescriptor m ev s = Some s'" and "steady w e a s" and "e \<noteq> 3"
  shows "steady w e a s'"
proof -
  let ?serial = "wValue (USB_ControlRequest s) = push_bit 8 (ucast DTYPE_String) OR ucast USE_INTERNAL_SERIAL"
  obtain n buf where p: "CALLBACK_USB_GetDescriptor ev (wValue (USB_ControlRequest s)) (ucast (wIndex (USB_ControlRequest s))) = (n, buf)"
    by fastforce
  consider ?serial | "\<not> ?serial" "n = NO_DESCRIPTOR" | "\<not> ?serial" "n \<noteq> NO_DESCRIPTOR" by blast
  then show ?thesis
  proof cases
    case 1
    with assms(1) have "USB_Device_GetInternalSerialDescriptor m s = Some s'"
      unfolding USB_Device_GetDescriptor_def by simp
    from serial_descriptor_steady [OF this assms(2,3)] show ?thesis .
  next
    case 2
    with assms p show ?thesis unfolding USB_Device_GetDescriptor_def by (simp only: if_False if_True Let_def) simp
  next
    case 3
    with assms(1) p obtain x s1
      where c: "template_control_w m 1 (write_byte m) buf n (Endpoint_ClearSETUP m s) = Some (x, s1)"
        and s': "s' = Endpoint_ClearOUT m s1"
      unfolding USB_Device_GetDescriptor_def Endpoint_Write_Control_PStream_LE_def
      by (simp only: if_False Let_def) (auto simp: bind_eq_Some_conv)
    from control_write_steady [OF c] assms(2,3) have "steady w e a s1" by simp
    with s' show ?thesis by simp
  qed
qed

lemma set_address_steady: "USB_Device_SetAddress m s = Some s' \<Longrightarrow> steady w e a s \<Longrightarrow> steady w e a s'"
  using status_stage_steady [of "Endpoint_ClearSETUP m (USB_Device_SetDeviceAddress m (ucast (wValue (USB_ControlRequest s) AND 0x7F)) s)"]
    wait_for_steady [of w e a "Endpoint_IsINReady m"]
  by (fastforce simp: USB_Device_SetAddress_def bind_eq_Some_conv Let_def)

lemma get_configuration_steady:
  assumes "e \<noteq> 3"
  shows "USB_Device_GetConfiguration m s = Some s' \<Longrightarrow> steady w e a s \<Longrightarrow> steady w e a s'"
  using assms by (auto simp: USB_Device_GetConfiguration_def bind_eq_Some_conv Let_def elim!: status_stage_steady)

lemma get_status_steady: "USB_Device_GetStatus m s = Some s' \<Longrightarrow> steady w 0 a s \<Longrightarrow> steady w 0 a s'"
  by (auto simp: USB_Device_GetStatus_def bind_simps steady_loose elim!: status_stage_steady split: if_splits)

lemma halt_loose: "loose w a s \<Longrightarrow> loose w a (halt_endpoint m s)"
  by (simp add: halt_endpoint_def split_beta Let_def)

lemma feature_steady: "USB_Device_ClearSetFeature m s = Some s' \<Longrightarrow> steady w 0 a s \<Longrightarrow> steady w 0 a s'"
  by (auto simp: USB_Device_ClearSetFeature_def bind_simps steady_loose halt_loose elim!: status_stage_steady split: if_splits)

end

end
