(* ===== verification/RNG_Stream.thy ===== *)
theory RNG_Stream
  imports RNG_Firmware USB_Bus
begin

text \<open>
  The firmware over any controller that provides \<open>usb_bus\<close>: whatever the host does, every byte the
  data endpoint sends is a sample, in the order the samples were taken, and the handlers of the
  interrupts only ever lose bytes that were waiting. \<open>wired\<close> is what every part of the program but the
  sampling keeps.
\<close>

text \<open>The endpoints of the interface keep the addresses the program gives them.\<close>

definition iface_ok :: "rng \<Rightarrow> bool" where
  "iface_ok a \<longleftrightarrow> Address (DataINEndpoint (VirtualSerial_CDC_Interface a)) = 0x83 \<and>
     Address (DataOUTEndpoint (VirtualSerial_CDC_Interface a)) = 0x04"

definition open_port :: "USB_ClassInfo_CDC_Device \<Rightarrow> bool" where
  "open_port c \<longleftrightarrow> BaudRateBPS (LineEncoding c) \<noteq> 0 \<and> Address (DataINEndpoint c) = 0x83 \<and>
     Address (DataOUTEndpoint c) = 0x04"

context usb_bus
begin

subsection \<open>The firmware's handlers\<close>

definition wired :: "'w \<Rightarrow> 'w rng_dev \<Rightarrow> bool" where
  "wired w s \<longleftrightarrow> loose w (app s) s \<and> iface_ok (app s)"

lemma steady_wired: "steady w e a s \<Longrightarrow> iface_ok a \<Longrightarrow> wired w s"
  by (auto simp: wired_def steady_def loose_def)

lemma loose_wired: "loose w a s \<Longrightarrow> iface_ok a \<Longrightarrow> wired w s"
  by (auto simp: wired_def loose_def)

lemma wired_step: "wired w s \<Longrightarrow> (\<And>a. loose w a s \<Longrightarrow> loose w a s') \<Longrightarrow> wired w s'"
  unfolding wired_def using loose_wired [unfolded wired_def] by blast

lemma set_iface_simps [simp]:
  "app (set_iface c s) = (app s)\<lparr>VirtualSerial_CDC_Interface := c\<rparr>" "world (set_iface c s) = world s"
  by (simp_all add: set_iface_def)

lemma cdc_stub_simps [simp]:
  "EVENT_CDC_Device_LineEncodingChanged CDC_Device_Event_Stub c s = Some (c, s)"
  "EVENT_CDC_Device_ControLineStateChanged CDC_Device_Event_Stub c s = Some (c, s)"
  "EVENT_CDC_Device_BreakSent CDC_Device_Event_Stub c d s = Some (c, s)"
  by (simp_all add: CDC_Device_Event_Stub_def)

lemma cdc_get_steady:
  "cdc_get_line_encoding m c s = Some (c', s') \<Longrightarrow> steady w 0 a s \<Longrightarrow> steady w 0 a s' \<and> c' = c"
  by (auto simp: cdc_get_line_encoding_def bind_eq_Some_conv Let_def
      elim!: status_stage_steady dest!: wait_for_steady [of w 0 a, rotated])

lemma cdc_set_steady:
  assumes "cdc_set_line_encoding m CDC_Device_Event_Stub c s = Some (c', s')" and "steady w 0 a s"
  shows "steady w 0 a s' \<and> DataINEndpoint c' = DataINEndpoint c \<and> DataOUTEndpoint c' = DataOUTEndpoint c"
proof -
  let ?s2 = "\<lambda>s1. snd (Endpoint_Read_8 m (snd (Endpoint_Read_8 m (snd (Endpoint_Read_8 m (snd (Endpoint_Read_32_LE m s1)))))))"
  obtain ok s1 where 1: "wait_attached m (Endpoint_IsOUTReceived m) (Endpoint_ClearSETUP m s) = Some (ok, s1)"
    using bind_pairE [OF assms(1) [unfolded cdc_set_line_encoding_def]] .
  have s1: "steady w 0 a s1" by (rule wait_attached_steady [OF _ 1]) (simp_all add: assms(2))
  show ?thesis
  proof (cases ok)
    case True
    with assms(1) 1 obtain x where "Endpoint_ClearStatusStage m (Endpoint_ClearOUT m (?s2 s1)) = Some (x, s')"
      and "DataINEndpoint c' = DataINEndpoint c" "DataOUTEndpoint c' = DataOUTEndpoint c"
      by (auto simp: cdc_set_line_encoding_def bind_simps)
    with status_stage_steady s1 show ?thesis by fastforce
  next
    case False
    with assms(1) 1 s1 show ?thesis by (simp add: cdc_set_line_encoding_def)
  qed
qed

lemma cdc_request_steady:
  assumes "CDC_Device_ProcessControlRequest m CDC_Device_Event_Stub c s = Some (c', s')" and "steady w 0 a s"
  shows "steady w 0 a s' \<and> DataINEndpoint c' = DataINEndpoint c \<and> DataOUTEndpoint c' = DataOUTEndpoint c"
  using assms cdc_get_steady [of c "snd (Endpoint_IsSETUPReceived m s)" c' s' w a]
    cdc_set_steady [of c "snd (Endpoint_IsSETUPReceived m s)" c' s' w a]
  by (auto simp: CDC_Device_ProcessControlRequest_def bind_simps elim!: status_stage_steady split: if_splits)

lemma read_bytes_steady: "steady w e a s \<Longrightarrow> steady w e a (snd (read_bytes m n s))"
proof (induction n arbitrary: s)
  case (Suc n)
  then show ?case by (simp add: split_beta Let_def)
qed simp

lemma control_event_steady:
  assumes "rng_ControlRequest m s = Some s'" and "steady w 0 a s" and "iface_ok a"
  shows "\<exists>a'. steady w 0 a' s' \<and> iface_ok a'"
proof -
  from assms(1) obtain c s1 where c: "CDC_Device_ProcessControlRequest m CDC_Device_Event_Stub (rng_iface s) s = Some (c, s1)"
    and s': "s' = set_iface c s1" by (auto simp: rng_ControlRequest_def bind_eq_Some_conv)
  from cdc_request_steady [OF c assms(2)] s' assms(2,3)
  have "steady w 0 (a\<lparr>VirtualSerial_CDC_Interface := c\<rparr>) s'" and "iface_ok (a\<lparr>VirtualSerial_CDC_Interface := c\<rparr>)"
    by (auto simp: steady_def loose_def iface_ok_def rng_iface_def)
  then show ?thesis by blast
qed

lemma configure_event_wired:
  assumes "rng_ConfigurationChanged m s = Some s'" and "loose w a s" and "iface_ok a"
  shows "wired w s'"
proof -
  from assms(1) obtain ok c s1 where c: "CDC_Device_ConfigureEndpoints m (rng_iface s) s = Some (ok, c, s1)"
    and s': "s' = set_iface c s1" by (auto simp: rng_ConfigurationChanged_def bind_eq_Some_conv)
  have "loose w a s1" using c assms(2)
    by (auto simp: CDC_Device_ConfigureEndpoints_def bind_eq_Some_conv Let_def split: if_splits
        elim!: configure_table_loose simp del: Endpoint_ConfigureEndpointTable.simps)
  moreover have "Address (DataINEndpoint c) = Address (DataINEndpoint (rng_iface s))"
    "Address (DataOUTEndpoint c) = Address (DataOUTEndpoint (rng_iface s))"
    using c by (auto simp: CDC_Device_ConfigureEndpoints_def bind_eq_Some_conv Let_def split: if_splits
        simp del: Endpoint_ConfigureEndpointTable.simps)
  ultimately show ?thesis using s' assms(2,3) by (auto simp: wired_def loose_def iface_ok_def rng_iface_def)
qed

lemma set_configuration_wired:
  assumes "USB_Device_SetConfiguration m (rng_events m) s = Some s'" and "steady w 0 a s" and "iface_ok a"
  shows "wired w s'"
proof (cases "(ucast (wValue (USB_ControlRequest s)) :: u8) > FIXED_NUM_CONFIGURATIONS")
  case True
  with assms show ?thesis by (auto simp: USB_Device_SetConfiguration_def intro: steady_wired)
next
  case False
  define s1 where "s1 = (Endpoint_ClearSETUP m s)\<lparr>USB_Device_ConfigurationNumber := ucast (wValue (USB_ControlRequest (Endpoint_ClearSETUP m s)))\<rparr>"
  from assms(1) False obtain s2 where 2: "Endpoint_ClearStatusStage m s1 = Some ((), s2)"
    and 3: "rng_ConfigurationChanged m (if USB_Device_ConfigurationNumber s2 \<noteq> 0
        then setr m USB_DeviceState DEVICE_STATE_Configured s2
        else let (a, s) = USB_Device_IsAddressSet m s2 in
          setr m USB_DeviceState (if a then DEVICE_STATE_Configured else DEVICE_STATE_Powered) s) = Some s'"
      (is "rng_ConfigurationChanged m ?s3 = _")
    unfolding USB_Device_SetConfiguration_def Let_def s1_def [symmetric]
    by (auto simp: bind_eq_Some_conv rng_events_def s1_def)
  have "steady w 0 a s1" using assms(2) by (simp add: s1_def)
  from status_stage_steady [OF 2 this] have "steady w 0 a ?s3" by (simp add: split_beta Let_def)
  from configure_event_wired [OF 3 steady_loose [OF this] assms(3)] show ?thesis .
qed

lemma standard_request_wired:
  assumes "standard_request m (rng_events m) s = Some s'" and "steady w 0 a s" and "iface_ok a"
  shows "wired w s'"
  using assms set_configuration_wired [OF _ assms(2,3)] get_descriptor_steady [OF _ assms(2)]
    set_address_steady [OF _ assms(2)] get_configuration_steady [of 0 s s' w a] get_status_steady [OF _ assms(2)]
    feature_steady [OF _ assms(2)]
  by (auto simp: standard_request_def Let_def split: if_splits intro: steady_wired)

lemma process_request_wired:
  assumes "USB_Device_ProcessControlRequest m (rng_events m) s = Some s'" and "steady w 0 a s" and "iface_ok a"
  shows "wired w s'"
proof -
  from assms(1) obtain s1 s2 where 1: "rng_ControlRequest m (read_request m s) = Some s1"
    and 2: "s2 = snd (Endpoint_IsSETUPReceived m s1) \<or>
      standard_request m (rng_events m) (snd (Endpoint_IsSETUPReceived m s1)) = Some s2"
    and 3: "s' = snd (Endpoint_IsSETUPReceived m s2) \<or>
      s' = Endpoint_StallTransaction m (Endpoint_ClearSETUP m (snd (Endpoint_IsSETUPReceived m s2)))"
    by (auto simp: USB_Device_ProcessControlRequest_def bind_eq_Some_conv Let_def split_beta rng_events_def split: if_splits)
  have "steady w 0 a (read_request m s)"
    using assms(2) by (auto simp: read_request_def split_beta intro: read_bytes_steady)
  from control_event_steady [OF 1 this assms(3)] obtain a1 where "steady w 0 a1 s1" "iface_ok a1" by blast
  then have "steady w 0 a1 (snd (Endpoint_IsSETUPReceived m s1))" by simp
  with 2 \<open>iface_ok a1\<close> have "wired w s2"
    using standard_request_wired [of "snd (Endpoint_IsSETUPReceived m s1)" s2 w a1] steady_wired by blast
  with 3 show ?thesis by (auto elim!: wired_step)
qed

lemma device_task_wired:
  assumes "USB_DeviceTask m (rng_events m) s = Some s'" and "wired w s"
  shows "wired w s'"
proof -
  define s1 where "s1 = snd (getr m USB_DeviceState s)"
  define s2 where "s2 = snd (Endpoint_IsSETUPReceived m (Endpoint_SelectEndpoint m ENDPOINT_CONTROLEP
    (snd (Endpoint_GetCurrentEndpoint m s1))))"
  from assms(2) have a: "loose w (app s) s" "iface_ok (app s)" by (simp_all add: wired_def)
  then have s1: "loose w (app s) s1" by (simp add: s1_def)
  then have s2: "steady w 0 (app s) s2" by (simp add: s2_def)
  from assms(1) consider "s' = s1" | s3 v where "s3 = s2 \<or> USB_Device_ProcessControlRequest m (rng_events m) s2 = Some s3"
    "s' = Endpoint_SelectEndpoint m v s3"
    by (auto simp: USB_DeviceTask_def Let_def split_beta bind_eq_Some_conv s1_def s2_def split: if_splits)
  then show ?thesis
  proof cases
    case 1
    with s1 a show ?thesis by (auto intro: loose_wired)
  next
    case 2
    then have "wired w s3" using process_request_wired [OF _ s2 a(2), of s3] steady_wired [OF s2 a(2)] by auto
    with 2 show ?thesis by (auto elim!: wired_step)
  qed
qed

subsection \<open>The interrupt handlers\<close>

lemma pending_loose [simp]: "loose w a s \<Longrightarrow> loose w a (snd (pending m i s))"
  by (simp add: pending_def split_beta Let_def)

lemma port_wired:
  "rng_Connect m s = Some s' \<Longrightarrow> wired w s \<Longrightarrow> wired w s'" "rng_Disconnect m s = Some s' \<Longrightarrow> wired w s \<Longrightarrow> wired w s'"
  by (auto simp: rng_Connect_def rng_Disconnect_def elim!: wired_step)

lemma com_vect_wired:
  assumes "USB_COM_vect m (rng_events m) s = Some s'" and "wired w s"
  shows "wired w s'"
proof -
  define s1 where "s1 = GlobalInterruptEnable m (USB_INT_Disable m USB_INT_RXSTPI
    (Endpoint_SelectEndpoint m ENDPOINT_CONTROLEP (snd (Endpoint_GetCurrentEndpoint m s))))"
  from assms(2) have a: "loose w (app s) s" "iface_ok (app s)" by (simp_all add: wired_def)
  then have "steady w 0 (app s) s1" by (simp add: s1_def del: USB_INT_Disable.simps)
  moreover from assms(1) obtain s2 v where 2: "USB_Device_ProcessControlRequest m (rng_events m) s1 = Some s2"
    and s': "s' = Endpoint_SelectEndpoint m v (USB_INT_Enable m USB_INT_RXSTPI (Endpoint_SelectEndpoint m ENDPOINT_CONTROLEP s2))"
    by (auto simp: USB_COM_vect_def Let_def split_beta bind_eq_Some_conv s1_def)
  ultimately have "wired w s2" using process_request_wired a(2) by blast
  with s' show ?thesis by (auto elim!: wired_step simp del: USB_INT_Enable.simps)
qed

lemma select_restores:
  assumes "sel (world s) < 5" and "loose w a t"
  shows "sel (world (Endpoint_SelectEndpoint m (fst (Endpoint_GetCurrentEndpoint m s)) t)) = sel (world s)"
proof -
  let ?v = "fst (Endpoint_GetCurrentEndpoint m s)"
  have "?v AND 0x0F = sel (world s) AND 0x0F"
    by (auto simp: Endpoint_GetCurrentEndpoint_def Endpoint_GetEndpointDirection_def split_beta Let_def getr_def
        rd_UENUM ENDPOINT_DIR_IN_def ENDPOINT_DIR_OUT_def bit.conj_disj_distrib2)
  moreover have "sel (world s) AND 0x0F = sel (world s)"
  proof -
    from assms(1) have "unat (take_bit 4 (sel (world s))) = unat (sel (world s))"
      by (simp add: unsigned_take_bit_eq take_bit_nat_eq_self word_less_nat_alt)
    then have "take_bit 4 (sel (world s)) = sel (world s)" by (simp only: word_unat_eq_iff)
    then show ?thesis by (simp add: take_bit_eq_mask mask_eq_exp_minus_1)
  qed
  ultimately show ?thesis using assms(1) steady_select [OF assms(2), of ?v] by (simp add: steady_def)
qed

lemma com_vect_selection:
  assumes "USB_COM_vect m (rng_events m) s = Some s'" and "sel (world s) < 5"
  shows "sel (world s') = sel (world s)"
proof -
  from assms(1) obtain t where "s' = Endpoint_SelectEndpoint m (fst (Endpoint_GetCurrentEndpoint m s)) t"
    by (auto simp: USB_COM_vect_def Let_def split_beta bind_eq_Some_conv)
  with select_restores [OF assms(2) loose_refl] show ?thesis by simp
qed

text \<open>Rules that follow the structure of a handler: its result, if any, is wired.\<close>

definition ends :: "'w \<Rightarrow> 'w rng_dev option \<Rightarrow> bool" where
  "ends w p \<longleftrightarrow> (\<forall>s. p = Some s \<longrightarrow> wired w s)"

lemma ends_Some [simp]: "ends w (Some s) \<longleftrightarrow> wired w s"
  by (simp add: ends_def)

lemma ends_if: "(c \<Longrightarrow> ends w p) \<Longrightarrow> (\<not> c \<Longrightarrow> ends w q) \<Longrightarrow> ends w (if c then p else q)"
  by simp

lemma ends_bind: "ends w p \<Longrightarrow> (\<And>s. wired w s \<Longrightarrow> ends w (f s)) \<Longrightarrow> ends w (Option.bind p f)"
  by (auto simp: ends_def bind_eq_Some_conv)

lemma ends_bind_pair:
  assumes "\<And>x s. p = Some (x, s) \<Longrightarrow> wired w s" and "\<And>q. wired w (snd q) \<Longrightarrow> ends w (f q)"
  shows "ends w (Option.bind p f)"
  using assms by (fastforce simp: ends_def bind_eq_Some_conv)

lemma wired_regs [simp]:
  "wired w s \<Longrightarrow> wired w (USB_INT_Enable m i s)"
  "wired w s \<Longrightarrow> wired w (USB_INT_Disable m i s)"
  "wired w s \<Longrightarrow> wired w (USB_INT_Clear m i s)"
  "wired w s \<Longrightarrow> wired w (snd (USB_INT_IsEnabled m i s))"
  "wired w s \<Longrightarrow> wired w (snd (USB_INT_HasOccurred m i s))"
  "wired w s \<Longrightarrow> wired w (Endpoint_EnableEndpoint m s)"
  "wired w s \<Longrightarrow> wired w (Endpoint_DisableEndpoint m s)"
  "wired w s \<Longrightarrow> wired w (Endpoint_ClearSETUP m s)"
  "wired w s \<Longrightarrow> wired w (Endpoint_ClearIN m s)"
  "wired w s \<Longrightarrow> wired w (Endpoint_ClearOUT m s)"
  "wired w s \<Longrightarrow> wired w (Endpoint_StallTransaction m s)"
  "wired w s \<Longrightarrow> wired w (Endpoint_ClearStall m s)"
  "wired w s \<Longrightarrow> wired w (Endpoint_ResetDataToggle m s)"
  "wired w s \<Longrightarrow> wired w (Endpoint_Discard_8 m s)"
  "wired w s \<Longrightarrow> wired w (USB_Detach m s)"
  "wired w s \<Longrightarrow> wired w (USB_Attach m s)"
  "wired w s \<Longrightarrow> wired w (USB_PLL_On m s)"
  "wired w s \<Longrightarrow> wired w (USB_PLL_Off m s)"
  "wired w s \<Longrightarrow> wired w (USB_REG_On m s)"
  "wired w s \<Longrightarrow> wired w (USB_REG_Off m s)"
  "wired w s \<Longrightarrow> wired w (USB_OTGPAD_On m s)"
  "wired w s \<Longrightarrow> wired w (USB_OTGPAD_Off m s)"
  "wired w s \<Longrightarrow> wired w (USB_CLK_Freeze m s)"
  "wired w s \<Longrightarrow> wired w (USB_CLK_Unfreeze m s)"
  "wired w s \<Longrightarrow> wired w (USB_Controller_Disable m s)"
  "wired w s \<Longrightarrow> wired w (USB_Controller_Reset m s)"
  "wired w s \<Longrightarrow> wired w (USB_Device_SetLowSpeed m s)"
  "wired w s \<Longrightarrow> wired w (USB_Device_SetFullSpeed m s)"
  "wired w s \<Longrightarrow> wired w (GlobalInterruptEnable m s)"
  "wired w s \<Longrightarrow> wired w (GlobalInterruptDisable m s)"
  "wired w s \<Longrightarrow> wired w (Endpoint_ResetEndpoint m v s)"
  "wired w s \<Longrightarrow> wired w (USB_Device_SetDeviceAddress m v s)"
  "wired w s \<Longrightarrow> wired w (USB_Device_EnableDeviceAddress m v s)"
  "wired w s \<Longrightarrow> wired w (SetGlobalInterruptMask m v s)"
  "wired w s \<Longrightarrow> wired w (snd (Endpoint_BytesInEndpoint m s))"
  "wired w s \<Longrightarrow> wired w (snd (Endpoint_GetEndpointDirection m s))"
  "wired w s \<Longrightarrow> wired w (snd (Endpoint_GetCurrentEndpoint m s))"
  "wired w s \<Longrightarrow> wired w (snd (Endpoint_IsEnabled m s))"
  "wired w s \<Longrightarrow> wired w (snd (Endpoint_IsReadWriteAllowed m s))"
  "wired w s \<Longrightarrow> wired w (snd (Endpoint_IsConfigured m s))"
  "wired w s \<Longrightarrow> wired w (snd (Endpoint_IsINReady m s))"
  "wired w s \<Longrightarrow> wired w (snd (Endpoint_IsOUTReceived m s))"
  "wired w s \<Longrightarrow> wired w (snd (Endpoint_IsSETUPReceived m s))"
  "wired w s \<Longrightarrow> wired w (snd (Endpoint_IsStalled m s))"
  "wired w s \<Longrightarrow> wired w (snd (Endpoint_Read_8 m s))"
  "wired w s \<Longrightarrow> wired w (snd (Endpoint_Read_32_LE m s))"
  "wired w s \<Longrightarrow> wired w (snd (USB_VBUS_GetStatus m s))"
  "wired w s \<Longrightarrow> wired w (snd (USB_PLL_IsReady m s))"
  "wired w s \<Longrightarrow> wired w (snd (USB_Device_IsAddressSet m s))"
  "wired w s \<Longrightarrow> wired w (snd (GetGlobalInterruptMask m s))"
  "wired w s \<Longrightarrow> wired w (snd (pending m i s))"
  by (erule wired_step, simp del: USB_INT_Enable.simps USB_INT_Disable.simps USB_INT_Clear.simps
      USB_INT_IsEnabled.simps USB_INT_HasOccurred.simps)+

lemma wired_setr [simp]: "wired w s \<Longrightarrow> r \<noteq> UEDATX \<Longrightarrow> wired w (setr m r v s)"
  by (erule wired_step) simp

lemma wired_modr [simp]: "wired w s \<Longrightarrow> r \<noteq> UEDATX \<Longrightarrow> r \<noteq> PINC \<Longrightarrow> wired w (modr m r f s)"
  by (erule wired_step) simp

lemma wired_getr [simp]: "wired w s \<Longrightarrow> r \<noteq> PINC \<Longrightarrow> wired w (snd (getr m r s))"
  by (erule wired_step) simp

lemma wired_select [simp]: "wired w s \<Longrightarrow> wired w (Endpoint_SelectEndpoint m v s)"
  by (erule wired_step) simp

lemma wired_update [simp]:
  "wired w (s\<lparr>USB_Device_ConfigurationNumber := n\<rparr>) = wired w s"
  by (simp add: wired_def)

lemma events_simps [simp]:
  "EVENT_USB_Device_ControlRequest (rng_events m) = rng_ControlRequest m"
  "EVENT_USB_Device_ConfigurationChanged (rng_events m) = rng_ConfigurationChanged m"
  "ends w (EVENT_USB_Device_Connect (rng_events m) s) = wired w (modr m PORTD (\<lambda>v. v OR 0b00100000) s)"
  "ends w (EVENT_USB_Device_Disconnect (rng_events m) s) = wired w (modr m PORTD (\<lambda>v. v AND 0b11011111) s)"
  "EVENT_USB_Device_Suspend (rng_events m) s = Some s" "EVENT_USB_Device_WakeUp (rng_events m) s = Some s"
  "EVENT_USB_Device_Reset (rng_events m) s = Some s" "EVENT_USB_Device_StartOfFrame (rng_events m) s = Some s"
  by (simp_all add: rng_events_def USB_Event_Stub_def rng_Connect_def rng_Disconnect_def)

lemma pll_on_wired:
  "(if b then pll_wait m (USB_PLL_On m s) else Some ((), s)) = Some (x, s') \<Longrightarrow> wired w s \<Longrightarrow> wired w s'"
  using pll_wait_loose [of "USB_PLL_On m s" x s' w] by (auto split: if_splits elim!: wired_step)

lemma configure_wired: "Endpoint_ConfigureEndpoint m ad ty sz bk s = Some (x, s') \<Longrightarrow> wired w s \<Longrightarrow> wired w s'"
  using configure_endpoint_loose by (auto elim!: wired_step)

lemma gen_sof_ends: "wired w s \<Longrightarrow> ends w (gen_sof m (rng_events m) s)"
  by (simp add: gen_sof_def split_beta Let_def del: USB_INT_Clear.simps)

lemma gen_vbus_ends: "wired w s \<Longrightarrow> ends w (gen_vbus m (rng_events m) s)"
  unfolding gen_vbus_def Let_def split_beta
  by (intro ends_if ends_bind_pair) (auto elim: pll_on_wired simp del: USB_INT_Clear.simps)

lemma gen_suspend_ends: "wired w s \<Longrightarrow> ends w (gen_suspend m (rng_events m) s)"
  unfolding gen_suspend_def Let_def split_beta
  by (intro ends_if) (simp_all del: USB_INT_Enable.simps USB_INT_Disable.simps)

lemma gen_wakeup_ends: "wired w s \<Longrightarrow> ends w (gen_wakeup m (rng_events m) s)"
  unfolding gen_wakeup_def Let_def split_beta
  by (intro ends_if ends_bind_pair)
    (auto elim: pll_on_wired simp del: USB_INT_Enable.simps USB_INT_Disable.simps USB_INT_Clear.simps)

lemma gen_reset_ends: "wired w s \<Longrightarrow> ends w (gen_reset m (rng_events m) s)"
  unfolding gen_reset_def Let_def split_beta
  by (intro ends_if ends_bind_pair)
    (auto elim!: configure_wired simp del: USB_INT_Enable.simps USB_INT_Disable.simps USB_INT_Clear.simps)

lemma gen_vect_ends: "wired w s \<Longrightarrow> ends w (USB_GEN_vect m (rng_events m) s)"
  unfolding USB_GEN_vect_def
  by (intro ends_bind gen_sof_ends gen_vbus_ends gen_suspend_ends gen_wakeup_ends gen_reset_ends)

subsection \<open>The main program\<close>

lemma and_bit: "v AND push_bit k 1 = (if bit v k then push_bit k 1 else 0)" for v :: u8
  by (rule bit_word_eqI) (auto simp: bit_simps)

lemma sample_char: "drop_bit 2 (v AND 0b00000100) + 48 = ascii (flag v 2)" for v :: u8
  using and_bit [of v 2] by (simp add: ascii_def flag_def bitm_def)

text \<open>Every byte of the data endpoint's stream is a sample, in the order they were taken.\<close>

definition faithful :: "'w rng_dev \<Rightarrow> bool" where
  "faithful s \<longleftrightarrow> subseq (stream 3 (world s)) (map ascii (samples (world s))) \<and> iface_ok (app s)"

lemma faithful_wired: "faithful s \<Longrightarrow> wired (world s) s"
  by (simp add: faithful_def wired_def)

lemma wired_faithful:
  assumes "faithful s" and "wired (world s) s'"
  shows "faithful s'"
  using assms subseq_order.order_trans [of "stream 3 (world s')" "stream 3 (world s)" "map ascii (samples (world s))"]
  by (simp add: faithful_def wired_def loose_def)

lemma usable_wired [simp]: "wired w s \<Longrightarrow> wired w (snd (cdc_usable m c s))"
  by (simp add: cdc_usable_def split_beta Let_def)

lemma usable_loose [simp]: "loose w a s \<Longrightarrow> loose w a (snd (cdc_usable m c s))"
  by (simp add: cdc_usable_def split_beta Let_def)

lemma send_byte_cases:
  assumes "CDC_Device_SendByte m c v s = Some (e, s')" and "loose w a s" and "Address (DataINEndpoint c) = 0x83"
  shows "loose w a s' \<or> (\<exists>t. steady w 3 a t \<and> s' = Endpoint_Write_8 m v t)"
proof -
  define s1 where "s1 = snd (cdc_usable m c s)"
  define s2 where "s2 = snd (Endpoint_IsReadWriteAllowed m (Endpoint_SelectEndpoint m (Address (DataINEndpoint c)) s1))"
  from assms have 1: "loose w a s1" by (simp add: s1_def)
  with assms(3) have 2: "steady w 3 a s2" by (simp add: s2_def)
  then have 3: "steady w 3 a (Endpoint_ClearIN m s2)" by simp
  from assms(1) 1 2 show ?thesis
    unfolding CDC_Device_SendByte_def Let_def split_beta s1_def [symmetric] s2_def [symmetric]
    by (auto simp: bind_eq_Some_conv split: if_splits dest!: wait_ready_steady [OF _ 3] dest: steady_loose)
qed

lemma subseq_appends: "subseq xs ys \<Longrightarrow> subseq xs (ys @ [y])"
  by (rule list_emb_prefix)

lemma subseq_write:
  assumes "steady w 3 a t"
  shows "subseq (stream 3 (world (Endpoint_Write_8 m v t))) (stream 3 w @ [v])"
    and "samples (world (Endpoint_Write_8 m v t)) = samples w" and "app (Endpoint_Write_8 m v t) = a"
proof -
  from assms have t: "sel (world t) = 3" "subseq (stream 3 (world t)) (stream 3 w)" "samples (world t) = samples w" "app t = a"
    by (simp_all add: steady_def loose_def)
  from wr_data [of "world t" v] t(1)
  have "subseq (stream 3 (world (setr m UEDATX v t))) (stream 3 (world t) @ [v])" by (simp add: setr_def)
  moreover from t(2) have "subseq (stream 3 (world t) @ [v]) (stream 3 w @ [v])" by simp
  ultimately have "subseq (stream 3 (world (setr m UEDATX v t))) (stream 3 w @ [v])" by (rule subseq_order.order_trans)
  with t show "subseq (stream 3 (world (Endpoint_Write_8 m v t))) (stream 3 w @ [v])"
    "samples (world (Endpoint_Write_8 m v t)) = samples w" "app (Endpoint_Write_8 m v t) = a"
    by (simp_all add: Endpoint_Write_8_def) (simp_all add: setr_def wr_samples)
qed

lemma sample_faithful:
  assumes "rng_sample m s = Some s'" and "faithful s"
  shows "faithful s'"
proof -
  define v where "v = fst (getr m PINC s)"
  define t where "t = snd (getr m PINC s)"
  have t: "app t = app s" "samples (world t) = samples (world s) @ [flag v 2]"
    "subseq (stream 3 (world t)) (stream 3 (world s))"
    by (simp_all add: t_def v_def getr_def split_beta rd_PINC rd_stream)
  from assms(1) obtain e where "CDC_Device_SendByte m (rng_iface t) (ascii (flag v 2)) t = Some (e, s')"
    unfolding rng_sample_def split_beta Let_def v_def [symmetric] t_def [symmetric] sample_char
    by (auto simp: fputc_def USBSerialStream_def CDC_Device_CreateStream_def CDC_Device_putchar_def bind_eq_Some_conv)
  moreover from assms(2) t(1) have "Address (DataINEndpoint (rng_iface t)) = 0x83"
    by (simp add: faithful_def iface_ok_def rng_iface_def)
  ultimately have "loose (world t) (app t) s' \<or> (\<exists>u. steady (world t) 3 (app t) u \<and> s' = Endpoint_Write_8 m (ascii (flag v 2)) u)"
    by (rule send_byte_cases [OF _ loose_refl])
  then have s': "subseq (stream 3 (world s')) (stream 3 (world t) @ [ascii (flag v 2)])"
    "samples (world s') = samples (world t)" "app s' = app t"
    using subseq_write [of "world t" "app t"] by (auto simp: loose_def subseq_appends)
  have "subseq (stream 3 (world t) @ [ascii (flag v 2)]) (map ascii (samples (world s)) @ [ascii (flag v 2)])"
    using subseq_order.order_trans [OF t(3)] assms(2) by (simp add: faithful_def)
  from subseq_order.order_trans [OF s'(1) this] s'(2,3) t(1,2) assms(2) show ?thesis by (simp add: faithful_def)
qed

lemma wired_app [simp]:
  "wired w (s\<lparr>app := (app s)\<lparr>sample_count := n\<rparr>\<rparr>) = wired w s"
  "wired w (s\<lparr>app := (app s)\<lparr>ident := b\<rparr>\<rparr>) = wired w s"
  "wired w (s\<lparr>app := (app s)\<lparr>ident_count := n\<rparr>\<rparr>) = wired w s"
  "wired w (s\<lparr>app := (app s)\<lparr>BYTE_IN := b\<rparr>\<rparr>) = wired w s"
  by (simp_all add: wired_def loose_def iface_ok_def)

lemma blink_wired: "wired w s \<Longrightarrow> wired w (rng_blink m s)"
  unfolding rng_blink_def Let_def by simp

lemma ident_wired: "wired w s \<Longrightarrow> wired w (rng_ident m s)"
  unfolding rng_ident_def Let_def by simp

lemma receive_byte_wired: "wired w s \<Longrightarrow> wired w (snd (CDC_Device_ReceiveByte m c s))"
  unfolding CDC_Device_ReceiveByte_def Let_def split_beta by simp

lemma receive_wired: "wired w s \<Longrightarrow> wired w (snd (rng_receive m s))"
  using receive_byte_wired [of w s "rng_iface s"] unfolding rng_receive_def Let_def split_beta
  by (auto simp del: wired_app simp: wired_def loose_def iface_ok_def)

lemma wired_iface: "wired w s \<Longrightarrow> Address (DataINEndpoint (rng_iface s)) = 0x83"
  by (simp add: wired_def iface_ok_def rng_iface_def)

lemma flush_wired:
  assumes "CDC_Device_Flush m c s = Some (e, s')" and "wired w s" and "Address (DataINEndpoint c) = 0x83"
  shows "wired w s'"
proof -
  define s1 where "s1 = snd (cdc_usable m c s)"
  define s2 where "s2 = snd (Endpoint_BytesInEndpoint m (Endpoint_SelectEndpoint m (Address (DataINEndpoint c)) s1))"
  define s3 where "s3 = Endpoint_ClearIN m (snd (Endpoint_IsReadWriteAllowed m s2))"
  from assms(2) have i: "iface_ok (app s)" and "loose w (app s) s" by (simp_all add: wired_def)
  then have 1: "loose w (app s) s1" by (simp add: s1_def)
  with assms(3) have 2: "steady w 3 (app s) s2" by (simp add: s2_def)
  then have 3: "steady w 3 (app s) s3" by (simp add: s3_def)
  from assms(1) 1 2 3 have "loose w (app s) s'"
    unfolding CDC_Device_Flush_def Let_def split_beta s1_def [symmetric] s2_def [symmetric] s3_def [symmetric]
    by (auto simp: bind_eq_Some_conv split: if_splits dest!: wait_ready_steady [OF _ 3] dest: steady_loose)
  from loose_wired [OF this i] show ?thesis .
qed

lemma usb_task_ends: "wired w s \<Longrightarrow> ends w (CDC_Device_USBTask m (rng_iface s) s)"
  unfolding CDC_Device_USBTask_def Let_def split_beta
  by (intro ends_if ends_bind_pair) (auto elim!: flush_wired simp: wired_iface)

lemma iteration_faithful:
  assumes "rng_iteration m s = Some (go, s')" and "faithful s"
  shows "faithful s'"
proof -
  from assms(1) obtain s1 where 1: "rng_sample m s = Some s1"
    by (auto simp: rng_iteration_def bind_eq_Some_conv)
  from sample_faithful [OF 1 assms(2)] have f: "faithful s1" .
  define r where "r = rng_receive m (rng_blink m s1)"
  define s2 where "s2 = rng_ident m (snd r)"
  from f have r: "wired (world s1) (snd r)" by (simp add: r_def receive_wired blink_wired faithful_wired)
  then have 2: "wired (world s1) s2" by (simp add: s2_def ident_wired)
  have "wired (world s1) s'"
  proof (cases "fst r")
    case True
    with assms(1) 1 obtain s3 where 3: "CDC_Device_USBTask m (rng_iface s2) s2 = Some s3"
      and 4: "USB_DeviceTask m (rng_events m) s3 = Some s'"
      unfolding rng_iteration_def USB_USBTask_def by (auto simp: bind_eq_Some_conv r_def [symmetric] s2_def split_beta Let_def)
    from usb_task_ends [OF 2] 3 have "wired (world s1) s3" by (simp add: ends_def)
    from device_task_wired [OF 4 this] show ?thesis .
  next
    case False
    with assms(1) 1 r show ?thesis by (auto simp: rng_iteration_def r_def split_beta)
  qed
  from wired_faithful [OF f this] show ?thesis .
qed

lemma wired_state [simp]:
  "wired w (s\<lparr>USB_Device_RemoteWakeupEnabled := b\<rparr>) = wired w s"
  "wired w (s\<lparr>USB_Device_CurrentlySelfPowered := b\<rparr>) = wired w s"
  "wired w (s\<lparr>USB_IsInitialized := b\<rparr>) = wired w s"
  by (simp_all add: wired_def loose_def)

lemma init_device_ends: "wired w s \<Longrightarrow> ends w (USB_Init_Device m s)"
  unfolding USB_Init_Device_def Let_def
  by (intro ends_bind_pair, erule configure_wired)
    (simp_all add: split_beta del: USB_INT_Enable.simps USB_INT_Clear.simps)

lemma init_pll_wired:
  "(if b then if c then pll_wait m (USB_PLL_On m s) else Some ((), USB_PLL_Off m s) else Some ((), s)) = Some (x, s')
   \<Longrightarrow> wired w s \<Longrightarrow> wired w s'"
  using pll_wait_loose [of "USB_PLL_On m s" x s' w] by (auto split: if_splits elim!: wired_step)

lemma interrupts_off_wired:
  "wired w s \<Longrightarrow> wired w (USB_INT_DisableAllInterrupts m s)" "wired w s \<Longrightarrow> wired w (USB_INT_ClearAllInterrupts m s)"
  by (cases "series m"; simp add: USB_INT_DisableAllInterrupts_def USB_INT_ClearAllInterrupts_def)+

lemma reset_interface_ends: "wired w s \<Longrightarrow> ends w (USB_ResetInterface m s)"
  unfolding USB_ResetInterface_def Let_def
  by (intro ends_bind_pair, erule init_pll_wired)
    (auto simp: split_beta interrupts_off_wired intro!: ends_bind init_device_ends)

lemma init_ends: "wired w s \<Longrightarrow> ends w (USB_Init m s)"
  unfolding USB_Init_def Let_def by (rule reset_interface_ends) simp

lemma power_up_wired:
  assumes "wired w s"
  shows "wired w (s\<lparr>world := mcu_clock_prescale m v (mcu_wdt_disable m (world s))\<rparr>)"
  using assms subseq_order.order_trans [OF clock_quiet(2) [of 3 v "mcu_wdt_disable m (world s)"] wdt_quiet(2)]
    subseq_order.order_trans [of _ "stream 3 (world s)" "stream 3 w"]
  by (auto simp: wired_def loose_def wdt_quiet clock_quiet)

lemma setup_ends: "wired w s \<Longrightarrow> ends w (rng_setup m s)"
  unfolding rng_setup_def Let_def
  by (intro ends_bind init_ends) (simp_all add: power_up_wired)

subsection \<open>Runs\<close>

lemma ends_faithful: "faithful s \<Longrightarrow> ends (world s) p \<Longrightarrow> p = Some s' \<Longrightarrow> faithful s'"
  by (rule wired_faithful) (simp_all add: ends_def)

lemma step_faithful: "firmware_step m c c' \<Longrightarrow> faithful (snd c) \<Longrightarrow> faithful (snd c')"
proof (induction rule: firmware_step.induct)
  case (samples s s')
  then have "faithful s'" by (simp add: sample_faithful)
  then show ?case using wired_faithful blink_wired faithful_wired by simp
next
  case (receives s s')
  then show ?case using wired_faithful [of s s'] receive_wired [OF faithful_wired, of s] by simp
next
  case (identifies s)
  then show ?case using wired_faithful [of s "rng_ident m s"] ident_wired [OF faithful_wired, of s] by simp
next
  case (serves s s')
  then show ?case using ends_faithful [OF _ usb_task_ends [OF faithful_wired], of s s'] by simp
next
  case (tasks s s')
  then show ?case using wired_faithful [of s s'] device_task_wired [OF _ faithful_wired, of s s'] by (simp add: USB_USBTask_def)
next
  case (general s s' p)
  then show ?case using ends_faithful [OF _ gen_vect_ends [OF faithful_wired], of s s'] by simp
next
  case (endpoint s s' p)
  then show ?case using wired_faithful [of s s'] com_vect_wired [OF _ faithful_wired, of s s'] by simp
qed

lemma steps_faithful: "(firmware_step m)\<^sup>*\<^sup>* c c' \<Longrightarrow> faithful (snd c) \<Longrightarrow> faithful (snd c')"
  by (induction rule: rtranclp_induct) (simp_all add: step_faithful)

lemma setup_faithful: "rng_setup m s = Some s' \<Longrightarrow> faithful s \<Longrightarrow> faithful s'"
  using ends_faithful [OF _ setup_ends [OF faithful_wired]] by blast

subsection \<open>The selected endpoint\<close>

text \<open>A bus reset configures the control endpoint, which leaves it selected.\<close>

lemma configure_from_selects:
  assumes "\<And>w v ie. flag v ALLOC \<Longrightarrow> flag (fst (mcu_rd m UESTA0X (mcu_wr m UEIENX ie (mcu_wr m UECFG1X v w)))) CFGOK"
  shows "sel (world (snd (configure_from m 0 c0 c1 es s))) = 0"
proof (induction es arbitrary: s)
  case Nil
  show ?case by (simp add: Endpoint_SelectEndpoint_def setr_def wr_UENUM)
next
  case (Cons e es)
  have "fst (Endpoint_IsConfigured m (setr m UEIENX ie (setr m UECFG1X v t)))" if "flag v ALLOC" for ie v t
    using assms [OF that] by (simp add: Endpoint_IsConfigured_def testr_def getr_def setr_def split_beta)
  with Cons.IH show ?case by (auto simp: Let_def split_beta)
qed

lemma gen_reset_selects:
  assumes "\<And>w v ie. flag v ALLOC \<Longrightarrow> flag (fst (mcu_rd m UESTA0X (mcu_wr m UEIENX ie (mcu_wr m UECFG1X v w)))) CFGOK"
    and p: "fst (pending m USB_INT_EORSTI s)" and g: "gen_reset m (rng_events m) s = Some s'"
  shows "sel (world s') = 0"
proof -
  from g p obtain x t t' where "Endpoint_ConfigureEndpoint m 0 0 USB_Device_ControlEndpointSize 1 t = Some (x, t')"
    and s': "s' = USB_INT_Enable m USB_INT_RXSTPI t'"
    by (auto simp: gen_reset_def split_beta Let_def bind_eq_Some_conv)
  then have "sel (world t') = 0"
    using configure_from_selects [OF assms(1)]
    by (auto simp: Endpoint_ConfigureEndpoint_def Endpoint_ConfigureEndpoint_Prv_def bind_eq_Some_conv ENDPOINT_TOTAL_ENDPOINTS_def
        split: if_splits dest!: arg_cong [of _ _ snd])
  with s' show ?thesis by (simp add: modr_def setr_def getr_def split_beta wr_sel rd_sel)
qed

end

end
