(* ===== verification/RNG_Delivery.thy ===== *)
theory RNG_Delivery
  imports RNG_Stream
begin

text \<open>
  The firmware with a host that keeps up: the device is configured, the host takes every packet of the data endpoint
  at once and sends nothing. Then no loop of the firmware waits for long, and no sample is lost. \<open>calm\<close>
  stands for the worlds in which the host behaves so, \<open>room\<close> for those in which the bank of the data
  endpoint can take a byte.
\<close>

locale prompt_host = usb_bus m sel stream samples
  for m :: "'w mcu" and sel :: "'w \<Rightarrow> u8" and stream :: "u8 \<Rightarrow> 'w \<Rightarrow> u8 list" and samples :: "'w \<Rightarrow> bool list" +
  fixes calm :: "'w \<Rightarrow> bool" and room :: "'w \<Rightarrow> bool"
  assumes calm_rd: "calm w \<Longrightarrow> calm (snd (mcu_rd m r w))"
    and calm_rd_stream: "calm w \<Longrightarrow> stream 3 (snd (mcu_rd m r w)) = stream 3 w"
    and calm_rd_room: "calm w \<Longrightarrow> room (snd (mcu_rd m r w)) = room w"
    and calm_frame: "calm w \<Longrightarrow> calm (snd (mcu_frame m w))" "calm w \<Longrightarrow> stream 3 (snd (mcu_frame m w)) = stream 3 w"
      "calm w \<Longrightarrow> room (snd (mcu_frame m w)) = room w"
    and calm_wr: "calm w \<Longrightarrow> r \<in> {UENUM, PORTD, UEINTX} \<Longrightarrow> calm (mcu_wr m r v w)"
    and calm_wr_stream: "calm w \<Longrightarrow> r \<in> {UENUM, PORTD, UEINTX} \<Longrightarrow> stream 3 (mcu_wr m r v w) = stream 3 w"
    and calm_wr_room: "calm w \<Longrightarrow> r \<in> {UENUM, PORTD} \<Longrightarrow> room (mcu_wr m r v w) = room w"
    and hand_over: "calm w \<Longrightarrow> sel w = 3 \<Longrightarrow> \<not> flag v TXINI \<Longrightarrow> room (mcu_wr m UEINTX v w)"
    and put_byte: "calm w \<Longrightarrow> sel w = 3 \<Longrightarrow> room w \<Longrightarrow> stream 3 (mcu_wr m UEDATX v w) = stream 3 w @ [v]"
      "calm w \<Longrightarrow> sel w = 3 \<Longrightarrow> room w \<Longrightarrow> calm (mcu_wr m UEDATX v w)"
    and calm_state: "calm w \<Longrightarrow> fst (mcu_rd m USB_DeviceState w) = DEVICE_STATE_Configured"
    and calm_RWAL: "calm w \<Longrightarrow> sel w = 3 \<Longrightarrow> flag (fst (mcu_rd m UEINTX w)) RWAL = room w"
    and calm_TXINI: "calm w \<Longrightarrow> sel w = 3 \<Longrightarrow> flag (fst (mcu_rd m UEINTX w)) TXINI"
    and calm_EPDIR: "calm w \<Longrightarrow> sel w = 3 \<Longrightarrow> flag (fst (mcu_rd m UECFG0X w)) EPDIR"
    and calm_RXOUTI: "calm w \<Longrightarrow> sel w = 4 \<Longrightarrow> \<not> flag (fst (mcu_rd m UEINTX w)) RXOUTI"
    and calm_RXSTPI: "calm w \<Longrightarrow> sel w = 0 \<Longrightarrow> \<not> flag (fst (mcu_rd m UEINTX w)) RXSTPI"
begin

text \<open>
  \<open>holds st sm a s\<close>: the world is calm, the stream of the data endpoint is \<open>st\<close>, the samples taken are \<open>sm\<close> and the
  application's variables \<open>a\<close>; \<open>holds_at e\<close>: moreover endpoint \<open>e\<close> is selected.
\<close>

definition holds :: "u8 list \<Rightarrow> bool list \<Rightarrow> 'c \<Rightarrow> ('c, 'w) dev \<Rightarrow> bool" where
  "holds st sm a s \<longleftrightarrow> calm (world s) \<and> stream 3 (world s) = st \<and> samples (world s) = sm \<and> app s = a"

definition holds_at :: "u8 \<Rightarrow> u8 list \<Rightarrow> bool list \<Rightarrow> 'c \<Rightarrow> ('c, 'w) dev \<Rightarrow> bool" where
  "holds_at e st sm a s \<longleftrightarrow> holds st sm a s \<and> sel (world s) = e"

lemma holds_at_holds: "holds_at e st sm a s \<Longrightarrow> holds st sm a s"
  by (simp add: holds_at_def)

lemma holds_getr [simp]: "holds st sm a s \<Longrightarrow> r \<noteq> PINC \<Longrightarrow> holds st sm a (snd (getr m r s))"
  by (simp add: holds_def getr_def split_beta calm_rd calm_rd_stream rd_samples)

lemma holds_at_getr [simp]: "holds_at e st sm a s \<Longrightarrow> r \<noteq> PINC \<Longrightarrow> holds_at e st sm a (snd (getr m r s))"
  by (simp add: holds_at_def)

lemma holds_testr [simp]:
  "holds st sm a s \<Longrightarrow> r \<noteq> PINC \<Longrightarrow> holds st sm a (snd (testr m r b s))"
  "holds_at e st sm a s \<Longrightarrow> r \<noteq> PINC \<Longrightarrow> holds_at e st sm a (snd (testr m r b s))"
  by (simp_all add: testr_def split_beta)

lemma holds_frame [simp]: "holds_at e st sm a s \<Longrightarrow> holds_at e st sm a (snd (USB_Device_GetFrameNumber m s))"
  by (simp add: holds_at_def holds_def USB_Device_GetFrameNumber_def split_beta calm_frame frame_quiet)

lemma holds_select [simp]:
  "holds st sm a s \<Longrightarrow> v AND 0x0F < 5 \<Longrightarrow> e = v AND 0x0F \<Longrightarrow> holds_at e st sm a (Endpoint_SelectEndpoint m v s)"
  by (simp add: holds_at_def holds_def Endpoint_SelectEndpoint_def setr_def calm_wr calm_wr_stream wr_samples wr_UENUM)

lemma holds_select_any [simp]: "holds st sm a s \<Longrightarrow> holds st sm a (Endpoint_SelectEndpoint m v s)"
  by (simp add: holds_def Endpoint_SelectEndpoint_def setr_def calm_wr calm_wr_stream wr_samples)

lemma holds_PORTD [simp]: "holds st sm a s \<Longrightarrow> holds st sm a (modr m PORTD f s)"
  by (simp add: holds_def modr_def setr_def getr_def split_beta calm_rd calm_rd_stream rd_samples calm_wr calm_wr_stream
      wr_samples)

lemma holds_UEINTX [simp]: "holds_at e st sm a s \<Longrightarrow> holds_at e st sm a (modr m UEINTX f s)"
  by (simp add: holds_at_def holds_def modr_def setr_def getr_def split_beta calm_rd calm_rd_stream rd_samples rd_sel
      calm_wr calm_wr_stream wr_samples wr_sel)

lemma room_hand_over: "holds_at 3 st sm a s \<Longrightarrow> room (world (Endpoint_ClearIN m s))"
  by (simp add: holds_at_def holds_def Endpoint_ClearIN_def modr_def setr_def getr_def split_beta
      hand_over calm_rd rd_sel TXINI_def FIFOCON_def)

lemma usable_holds:
  assumes "holds st sm a s" and "BaudRateBPS (LineEncoding c) \<noteq> 0"
  shows "fst (cdc_usable m c s)" and "holds st sm a (snd (cdc_usable m c s))"
  using assms by (simp_all add: cdc_usable_def split_beta Let_def)
    (simp add: holds_def getr_def split_beta calm_state)

lemma calm_regs [simp]:
  "calm (world s) \<Longrightarrow> calm (world (snd (testr m r b s)))"
  "calm (world s) \<Longrightarrow> calm (world (snd (Endpoint_GetEndpointDirection m s)))"
  "calm (world s) \<Longrightarrow> calm (world (snd (USB_Device_GetFrameNumber m s)))"
  by (simp_all add: endpoint_defs testr_def getr_def split_beta Let_def calm_rd USB_Device_GetFrameNumber_def calm_frame)

lemma sel_regs [simp]:
  "sel (world (snd (testr m r b s))) = sel (world s)"
  "sel (world (snd (Endpoint_GetEndpointDirection m s))) = sel (world s)"
  "sel (world (snd (USB_Device_GetFrameNumber m s))) = sel (world s)"
  by (simp_all add: endpoint_defs testr_def getr_def split_beta Let_def rd_sel USB_Device_GetFrameNumber_def frame_quiet)

lemma flags_calm:
  "calm (world s) \<Longrightarrow> sel (world s) = 3 \<Longrightarrow> fst (Endpoint_IsReadWriteAllowed m s) = room (world s)"
  "calm (world s) \<Longrightarrow> sel (world s) = 3 \<Longrightarrow> fst (Endpoint_IsINReady m s)"
  "calm (world s) \<Longrightarrow> sel (world s) = 3 \<Longrightarrow> fst (Endpoint_GetEndpointDirection m s) = ENDPOINT_DIR_IN"
  "calm (world s) \<Longrightarrow> sel (world s) = 4 \<Longrightarrow> \<not> fst (Endpoint_IsOUTReceived m s)"
  "calm (world s) \<Longrightarrow> sel (world s) = 0 \<Longrightarrow> \<not> fst (Endpoint_IsSETUPReceived m s)"
  by (simp_all add: endpoint_defs testr_def getr_def split_beta Let_def
      calm_RWAL calm_TXINI calm_EPDIR calm_RXOUTI calm_RXSTPI)

lemma regs_calm [simp]:
  "holds_at e st sm a s \<Longrightarrow> holds_at e st sm a (snd (Endpoint_IsReadWriteAllowed m s))"
  "holds_at e st sm a s \<Longrightarrow> holds_at e st sm a (snd (Endpoint_IsINReady m s))"
  "holds_at e st sm a s \<Longrightarrow> holds_at e st sm a (snd (Endpoint_GetEndpointDirection m s))"
  "holds_at e st sm a s \<Longrightarrow> holds_at e st sm a (snd (Endpoint_IsOUTReceived m s))"
  "holds_at e st sm a s \<Longrightarrow> holds_at e st sm a (snd (Endpoint_IsSETUPReceived m s))"
  "holds_at e st sm a s \<Longrightarrow> holds_at e st sm a (snd (Endpoint_BytesInEndpoint m s))"
  "holds_at e st sm a s \<Longrightarrow> holds_at e st sm a (Endpoint_ClearIN m s)"
  "holds st sm a s \<Longrightarrow> holds st sm a (snd (Endpoint_GetCurrentEndpoint m s))"
  "holds st sm a s \<Longrightarrow> holds st sm a (snd (Endpoint_IsINReady m s))"
  "holds st sm a s \<Longrightarrow> holds st sm a (snd (Endpoint_IsOUTReceived m s))"
  "holds st sm a s \<Longrightarrow> holds st sm a (snd (Endpoint_IsSETUPReceived m s))"
  by (simp_all add: endpoint_defs split_beta Let_def)

lemma room_regs [simp]:
  "calm (world s) \<Longrightarrow> room (world (snd (testr m r b s))) = room (world s)"
  "calm (world s) \<Longrightarrow> room (world (snd (USB_Device_GetFrameNumber m s))) = room (world s)"
  "calm (world s) \<Longrightarrow> room (world (snd (Endpoint_IsReadWriteAllowed m s))) = room (world s)"
  "calm (world s) \<Longrightarrow> room (world (snd (Endpoint_IsINReady m s))) = room (world s)"
  "calm (world s) \<Longrightarrow> room (world (snd (Endpoint_GetEndpointDirection m s))) = room (world s)"
  by (simp_all add: endpoint_defs testr_def getr_def split_beta Let_def calm_rd_room USB_Device_GetFrameNumber_def
      calm_frame)

text \<open>The wait for the data endpoint ends at the first poll.\<close>

lemma wait_ready_calm:
  assumes "holds_at 3 st sm a s"
  obtains s' where "Endpoint_WaitUntilReady m s = Some (0, s')" and "holds_at 3 st sm a s'"
    and "room (world s') = room (world s)"
proof -
  let ?s = "snd (USB_Device_GetFrameNumber m s)"
  let ?t = "snd (ready_poll m ?s)"
  from assms have c: "calm (world s)" "sel (world s) = 3" by (simp_all add: holds_at_def holds_def)
  with assms have p: "fst (ready_poll m ?s)" "holds_at 3 st sm a ?t" "room (world ?t) = room (world ?s)"
    by (simp_all add: ready_poll_def split_beta Let_def flags_calm)
  then have "ready_body m l ?s = Some (Inr 0, ?t)" for l
    by (cases l) (simp add: ready_body_def split_beta Let_def)
  then have "Endpoint_WaitUntilReady m s = Some (0, ?t)"
    by (simp add: Endpoint_WaitUntilReady_def split_beta Let_def floop_exit)
  with p c show thesis by (intro that [of ?t]) simp_all
qed

lemma holds_atD: "holds_at e st sm a s \<Longrightarrow> calm (world s) \<and> sel (world s) = e"
  by (simp add: holds_at_def holds_def)

lemma write_calm:
  assumes "holds_at 3 st sm a s" and "room (world s)"
  shows "holds (st @ [v]) sm a (Endpoint_Write_8 m v s)"
  using assms by (simp add: holds_at_def holds_def Endpoint_Write_8_def setr_def put_byte wr_samples)

lemma send_byte_calm:
  assumes h: "holds st sm a s" and c: "BaudRateBPS (LineEncoding c) \<noteq> 0" "Address (DataINEndpoint c) = 0x83"
  obtains s' where "CDC_Device_SendByte m c v s = Some (0, s')" and "holds (st @ [v]) sm a s'"
proof -
  define s1 where "s1 = snd (cdc_usable m c s)"
  define s2 where "s2 = Endpoint_SelectEndpoint m (Address (DataINEndpoint c)) s1"
  define s3 where "s3 = snd (Endpoint_IsReadWriteAllowed m s2)"
  from usable_holds [OF h c(1)] have u: "fst (cdc_usable m c s)" and 1: "holds st sm a s1" by (simp_all add: s1_def)
  with c(2) have 2: "holds_at 3 st sm a s2" by (simp add: s2_def)
  then have 3: "holds_at 3 st sm a s3" by (simp add: s3_def)
  from holds_atD [OF 2] have r: "fst (Endpoint_IsReadWriteAllowed m s2) = room (world s3)"
    by (simp add: flags_calm s3_def)
  note unfold = CDC_Device_SendByte_def Let_def split_beta s1_def [symmetric] s2_def [symmetric] s3_def [symmetric] r
  show thesis
  proof (cases "room (world s3)")
    case True
    from write_calm [OF 3 True] show ?thesis by (rule that [rotated]) (simp add: unfold u True)
  next
    case False
    from 3 have "holds_at 3 st sm a (Endpoint_ClearIN m s3)" by simp
    then obtain s4 where 4: "Endpoint_WaitUntilReady m (Endpoint_ClearIN m s3) = Some (0, s4)"
      "holds_at 3 st sm a s4" "room (world s4) = room (world (Endpoint_ClearIN m s3))" by (rule wait_ready_calm)
    from room_hand_over [OF 3] 4 have "holds (st @ [v]) sm a (Endpoint_Write_8 m v s4)" by (simp add: write_calm)
    then show ?thesis by (rule that [rotated]) (simp add: unfold u False 4)
  qed
qed

lemma flush_calm:
  assumes h: "holds st sm a s" and c: "BaudRateBPS (LineEncoding c) \<noteq> 0" "Address (DataINEndpoint c) = 0x83"
  obtains e s' where "CDC_Device_Flush m c s = Some (e, s')" and "holds st sm a s'"
proof -
  define s1 where "s1 = snd (cdc_usable m c s)"
  define s2 where "s2 = snd (Endpoint_BytesInEndpoint m (Endpoint_SelectEndpoint m (Address (DataINEndpoint c)) s1))"
  define s3 where "s3 = Endpoint_ClearIN m (snd (Endpoint_IsReadWriteAllowed m s2))"
  from usable_holds [OF h c(1)] have u: "fst (cdc_usable m c s)" and 1: "holds st sm a s1" by (simp_all add: s1_def)
  with c(2) have 2: "holds_at 3 st sm a s2" by (simp add: s2_def)
  then have 3: "holds_at 3 st sm a s3" by (simp add: s3_def)
  obtain s4 where 4: "Endpoint_WaitUntilReady m s3 = Some (0, s4)" "holds_at 3 st sm a s4"
    by (rule wait_ready_calm [OF 3])
  have "\<exists>e s'. CDC_Device_Flush m c s = Some (e, s') \<and> holds st sm a s'"
    unfolding CDC_Device_Flush_def Let_def split_beta s1_def [symmetric] s2_def [symmetric] s3_def [symmetric]
    using u 2 3 4 holds_at_holds [OF regs_calm(7)] by (auto intro: holds_at_holds)
  with that show thesis by blast
qed

lemma usb_task_calm:
  assumes h: "holds st sm a s" and c: "BaudRateBPS (LineEncoding c) \<noteq> 0" "Address (DataINEndpoint c) = 0x83"
  obtains s' where "CDC_Device_USBTask m c s = Some s'" and "holds st sm a s'"
proof -
  define s1 where "s1 = Endpoint_SelectEndpoint m (Address (DataINEndpoint c)) (snd (cdc_usable m c s))"
  from usable_holds [OF h c(1)] c(2) have u: "fst (cdc_usable m c s)" and 1: "holds_at 3 st sm a s1"
    by (simp_all add: s1_def)
  from holds_at_holds [OF 1] have "holds st sm a (snd (Endpoint_IsINReady m s1))" by simp
  from flush_calm [OF this c] obtain e s' where "CDC_Device_Flush m c (snd (Endpoint_IsINReady m s1)) = Some (e, s')"
    and "holds st sm a s'" .
  moreover from holds_atD [OF 1] have "fst (Endpoint_IsINReady m s1)" by (simp add: flags_calm)
  ultimately show thesis using u by (intro that [of s']) (simp_all add: CDC_Device_USBTask_def split_beta Let_def s1_def)
qed

lemma receive_byte_calm:
  assumes h: "holds st sm a s" and c: "BaudRateBPS (LineEncoding c) \<noteq> 0" "Address (DataOUTEndpoint c) = 0x04"
  shows "fst (CDC_Device_ReceiveByte m c s) = - 1" and "holds st sm a (snd (CDC_Device_ReceiveByte m c s))"
proof -
  define s1 where "s1 = Endpoint_SelectEndpoint m (Address (DataOUTEndpoint c)) (snd (cdc_usable m c s))"
  from usable_holds [OF h c(1)] c(2) have u: "fst (cdc_usable m c s)" and 1: "holds_at 4 st sm a s1"
    by (simp_all add: s1_def)
  with holds_atD [OF 1] holds_at_holds [OF 1] show "fst (CDC_Device_ReceiveByte m c s) = - 1" "holds st sm a (snd (CDC_Device_ReceiveByte m c s))"
    by (simp_all add: CDC_Device_ReceiveByte_def split_beta Let_def s1_def flags_calm)
qed

lemma device_task_calm:
  assumes h: "holds st sm a s"
  obtains s' where "USB_USBTask m ev s = Some s'" and "holds st sm a s'"
proof -
  define s1 where "s1 = snd (getr m USB_DeviceState s)"
  define s2 where "s2 = Endpoint_SelectEndpoint m ENDPOINT_CONTROLEP (snd (Endpoint_GetCurrentEndpoint m s1))"
  from h have 1: "holds st sm a s1" by (simp add: s1_def)
  then have 2: "holds_at 0 st sm a s2" by (simp add: s2_def)
  from h have "fst (getr m USB_DeviceState s) \<noteq> DEVICE_STATE_Unattached"
    by (simp add: holds_def getr_def split_beta calm_state device_states)
  moreover from holds_atD [OF 2] have "\<not> fst (Endpoint_IsSETUPReceived m s2)" by (simp add: flags_calm)
  ultimately have "USB_USBTask m ev s = Some (Endpoint_SelectEndpoint m (fst (Endpoint_GetCurrentEndpoint m s1))
      (snd (Endpoint_IsSETUPReceived m s2)))"
    by (simp add: USB_USBTask_def USB_DeviceTask_def split_beta Let_def s1_def s2_def)
  moreover from holds_at_holds [OF 2] have "holds st sm a (Endpoint_SelectEndpoint m
      (fst (Endpoint_GetCurrentEndpoint m s1)) (snd (Endpoint_IsSETUPReceived m s2)))" by simp
  ultimately show thesis by (rule that)
qed

text \<open>What the loop keeps of the application's variables: the interface, with the host's line encoding.\<close>

definition serving :: "USB_ClassInfo_CDC_Device \<Rightarrow> u8 list \<Rightarrow> bool list \<Rightarrow> 'w rng_dev \<Rightarrow> bool" where
  "serving c st sm s \<longleftrightarrow> holds st sm (app s) s \<and> rng_iface s = c"

lemma serving_holds: "holds st sm a s' \<Longrightarrow> VirtualSerial_CDC_Interface a = c \<Longrightarrow> serving c st sm s'"
  by (auto simp: serving_def holds_def rng_iface_def)

lemma serving_app [simp]:
  "serving c st sm (s\<lparr>app := (app s)\<lparr>sample_count := n\<rparr>\<rparr>) = serving c st sm s"
  "serving c st sm (s\<lparr>app := (app s)\<lparr>ident := b\<rparr>\<rparr>) = serving c st sm s"
  "serving c st sm (s\<lparr>app := (app s)\<lparr>ident_count := n\<rparr>\<rparr>) = serving c st sm s"
  "serving c st sm (s\<lparr>app := (app s)\<lparr>BYTE_IN := b\<rparr>\<rparr>) = serving c st sm s"
  by (simp_all add: serving_def holds_def rng_iface_def)

lemma serving_PORTD [simp]: "serving c st sm s \<Longrightarrow> serving c st sm (modr m PORTD f s)"
  using holds_PORTD [of st sm "app s" s f] by (auto simp: serving_def holds_def rng_iface_def)

lemma blink_serving: "serving c st sm s \<Longrightarrow> serving c st sm (rng_blink m s)"
  by (simp add: rng_blink_def Let_def)

lemma ident_serving: "serving c st sm s \<Longrightarrow> serving c st sm (rng_ident m s)"
  by (simp add: rng_ident_def Let_def)

lemma receive_serving:
  assumes "serving c st sm s" and "open_port c"
  shows "fst (rng_receive m s)" and "serving c st sm (snd (rng_receive m s))"
proof -
  define r where "r = CDC_Device_ReceiveByte m c s"
  from assms have c: "rng_iface s = c" and h: "holds st sm (app s) s" by (simp_all add: serving_def)
  from receive_byte_calm [OF h] assms(2) have r: "fst r = - 1" "holds st sm (app s) (snd r)"
    by (simp_all add: r_def open_port_def)
  from serving_holds [OF r(2)] c have "serving c st sm (snd r)" by (simp add: rng_iface_def)
  moreover have "rng_receive m s = (True, (snd r)\<lparr>app := (app (snd r))\<lparr>BYTE_IN := - 1\<rparr>\<rparr>)"
    unfolding rng_receive_def c r_def [symmetric] split_beta Let_def r(1) by (simp add: word_of_int_neg_1)
  ultimately show "fst (rng_receive m s)" "serving c st sm (snd (rng_receive m s))" by simp_all
qed

lemma sample_serving:
  assumes "serving c st sm s" and "open_port c"
  obtains b s' where "rng_sample m s = Some s'" and "serving c (st @ [ascii b]) (sm @ [b]) s'"
proof -
  define v where "v = fst (getr m PINC s)"
  define t where "t = snd (getr m PINC s)"
  from assms(1) have t: "holds st (sm @ [flag v 2]) (app s) t" "rng_iface t = c"
    by (simp_all add: serving_def holds_def t_def v_def getr_def split_beta rd_PINC calm_rd calm_rd_stream rng_iface_def)
  from send_byte_calm [OF t(1)] assms(2) obtain s' where
    s': "CDC_Device_SendByte m c (ascii (flag v 2)) t = Some (0, s')"
    "holds (st @ [ascii (flag v 2)]) (sm @ [flag v 2]) (app s) s'"
    by (auto simp: open_port_def)
  have "rng_sample m s = Some s'"
    unfolding rng_sample_def split_beta Let_def v_def [symmetric] t_def [symmetric] sample_char
    by (simp add: fputc_def USBSerialStream_def CDC_Device_CreateStream_def CDC_Device_putchar_def t s')
  moreover from serving_holds [OF s'(2)] assms(1)
  have "serving c (st @ [ascii (flag v 2)]) (sm @ [flag v 2]) s'" by (simp add: serving_def rng_iface_def)
  ultimately show thesis by (rule that)
qed

lemma iteration_serving:
  assumes "serving c st sm s" and o: "open_port c"
  obtains b s' where "rng_iteration m s = Some (True, s')" and "serving c (st @ [ascii b]) (sm @ [b]) s'"
proof -
  obtain b s1 where 1: "rng_sample m s = Some s1" "serving c (st @ [ascii b]) (sm @ [b]) s1"
    by (rule sample_serving [OF assms])
  define r where "r = rng_receive m (rng_blink m s1)"
  define s2 where "s2 = rng_ident m (snd r)"
  from receive_serving [OF blink_serving [OF 1(2)] o] have r: "fst r" "serving c (st @ [ascii b]) (sm @ [b]) (snd r)"
    by (simp_all add: r_def)
  then have 2: "serving c (st @ [ascii b]) (sm @ [b]) s2" by (simp add: s2_def ident_serving)
  then have h: "holds (st @ [ascii b]) (sm @ [b]) (app s2) s2" and c: "rng_iface s2 = c" by (simp_all add: serving_def)
  from usb_task_calm [OF h] o obtain s3 where 3: "CDC_Device_USBTask m c s2 = Some s3"
    "holds (st @ [ascii b]) (sm @ [b]) (app s2) s3" by (auto simp: open_port_def)
  from device_task_calm [OF 3(2)] obtain s4 where 4: "USB_USBTask m (rng_events m) s3 = Some s4"
    "holds (st @ [ascii b]) (sm @ [b]) (app s2) s4" .
  from serving_holds [OF 4(2)] c have "serving c (st @ [ascii b]) (sm @ [b]) s4" by (simp add: rng_iface_def)
  moreover from r(1) 1(1) 3(1) 4(1) c have "rng_iteration m s = Some (True, s4)"
    by (simp add: rng_iteration_def split_beta Let_def r_def s2_def)
  ultimately show thesis by (intro that)
qed

lemma loop_serving:
  assumes "serving c st sm s" and o: "open_port c"
  shows "\<exists>bs s'. length bs = n \<and> rng_loop m n s = Some (True, s') \<and>
    serving c (st @ map ascii bs) (sm @ bs) s'"
  using assms(1)
proof (induction n arbitrary: st sm s)
  case (Suc n)
  from iteration_serving [OF Suc.prems o] obtain b t where
    t: "rng_iteration m s = Some (True, t)" "serving c (st @ [ascii b]) (sm @ [b]) t" .
  from Suc.IH [OF t(2)] obtain bs s' where "length bs = n" "rng_loop m n t = Some (True, s')"
    "serving c ((st @ [ascii b]) @ map ascii bs) ((sm @ [b]) @ bs) s'" by blast
  with t(1) show ?case by (intro exI [of _ "b # bs"] exI [of _ s']) simp
qed auto

end

end
