(* ===== verification/USB_Clock.thy ===== *)
theory USB_Clock
  imports RNG_Firmware
begin

text \<open>
  Time on the bus: \<open>ticks\<close> counts time in units of which \<open>period\<close> make a frame, every access takes some time
  but less than a frame, and the frame number counts frames in eleven bits. Whatever the host does, a wait
  for an endpoint then ends, with the endpoint ready, an error or the time-out.
\<close>

locale bus_clock =
  fixes m :: "'w mcu" and ticks :: "'w \<Rightarrow> nat" and period :: nat
  assumes rd_ticks: "ticks w < ticks (snd (mcu_rd m r w))" "ticks (snd (mcu_rd m r w)) \<le> ticks w + period"
    and frame_ticks: "ticks w < ticks (snd (mcu_frame m w))" "ticks (snd (mcu_frame m w)) \<le> ticks w + period"
    and frame_number: "fst (mcu_frame m w) = of_nat (ticks w div period mod 2048)"
begin

lemma period_pos: "0 < period"
  using rd_ticks [where r = UENUM] by (metis add.right_neutral gr0I leD)

definition takes :: "nat \<Rightarrow> ('c, 'w) dev \<Rightarrow> ('c, 'w) dev \<Rightarrow> bool" where
  "takes n s s' \<longleftrightarrow> ticks (world s) \<le> ticks (world s') \<and> ticks (world s') \<le> ticks (world s) + n * period"

lemma takes_getr: "takes n t s \<Longrightarrow> takes (Suc n) t (snd (getr m r s))"
  using rd_ticks [where w = "world s" and r = r] by (simp add: takes_def getr_def split_beta)

lemma takes_testr: "takes n t s \<Longrightarrow> takes (Suc n) t (snd (testr m r b s))"
  by (simp add: testr_def split_beta takes_getr)

lemma takes_poll: "takes n t s \<Longrightarrow> takes (Suc (Suc n)) t (snd (ready_poll m s))"
  by (simp add: ready_poll_def endpoint_defs split_beta Let_def takes_testr)

definition frame_of :: "nat \<Rightarrow> u16" where
  "frame_of f = of_nat (f mod 2048)"

lemma frame_of_inj:
  assumes "f \<le> g" and "g < f + 2048"
  shows "frame_of f = frame_of g \<longleftrightarrow> f = g"
proof
  assume "frame_of f = frame_of g"
  then have "unat (of_nat (f mod 2048) :: u16) = unat (of_nat (g mod 2048) :: u16)" by (simp add: frame_of_def)
  then have "f mod 2048 = g mod 2048" by (simp add: unat_of_nat)
  with assms show "f = g" by (metis add.commute diff_add_inverse le_add_diff_inverse less_diff_conv2 mod_eq_dvd_iff_nat nat_dvd_not_less zero_less_diff nat_less_le)
qed simp

lemma frames_near:
  assumes "t \<le> t'" and "t' \<le> t + period"
  shows "t div period \<le> t' div period" and "t' div period \<le> Suc (t div period)"
proof -
  have "(t + period) div period = Suc (t div period)" using period_pos by (subst div_add_self2) simp_all
  then show "t div period \<le> t' div period" "t' div period \<le> Suc (t div period)"
    using div_le_mono [OF assms(1), of period] div_le_mono [OF assms(2), of period] by simp_all
qed

text \<open>Between two looks at the frame number at most five frames pass.\<close>

definition waits :: "u8 \<times> u16 \<Rightarrow> ('c, 'w) dev \<Rightarrow> bool" where
  "waits l s \<longleftrightarrow> (\<exists>f. snd l = frame_of f \<and> f \<le> ticks (world s) div period \<and> ticks (world s) div period \<le> Suc f)"

definition left :: "(u8 \<times> u16) \<times> ('c, 'w) dev \<Rightarrow> nat" where
  "left p = (case p of (l, s) \<Rightarrow>
     if snd l = frame_of (ticks (world s) div period) then Suc (period - ticks (world s) mod period) else 0)"

lemma ready_body_step:
  assumes w: "waits l s"
  obtains r s' where "ready_body m l s = Some (r, s')"
    and "case r of Inl l' \<Rightarrow> waits l' s' \<and> ((l', s'), l, s) \<in> measures [\<lambda>p. unat (fst (fst p)), left] | Inr e \<Rightarrow> e \<le> 4"
proof -
  obtain rem prev where l: "l = (rem, prev)" by fastforce
  define s1 where "s1 = snd (ready_poll m s)"
  define s2 where "s2 = snd (getr m USB_DeviceState s1)"
  define s3 where "s3 = snd (Endpoint_IsStalled m s2)"
  define s4 where "s4 = snd (USB_Device_GetFrameNumber m s3)"
  define cur where "cur = fst (USB_Device_GetFrameNumber m s3)"
  let ?t = "ticks (world s)" and ?t3 = "ticks (world s3)" and ?t4 = "ticks (world s4)"
  from w l obtain f where f: "prev = frame_of f" "f \<le> ?t div period" "?t div period \<le> Suc f" by (auto simp: waits_def)
  have "takes 0 s s" by (simp add: takes_def)
  then have "takes 4 s s3"
    by (simp add: s3_def s2_def s1_def Endpoint_IsStalled_def numeral_eq_Suc takes_testr takes_getr takes_poll)
  then have t3: "?t \<le> ?t3" "?t3 \<le> ?t + 4 * period" by (simp_all add: takes_def)
  have t4: "?t3 < ?t4" "?t4 \<le> ?t3 + period"
    using frame_ticks [of "world s3"] by (simp_all add: s4_def USB_Device_GetFrameNumber_def split_beta)
  have cur: "cur = frame_of (?t3 div period)"
    by (simp add: cur_def USB_Device_GetFrameNumber_def split_beta frame_number frame_of_def)
  have p: "0 < period" by (rule period_pos)
  have "?t3 div period \<le> (?t + 4 * period) div period" using t3(2) by (rule div_le_mono)
  with p f have f3: "f \<le> ?t3 div period" "?t3 div period \<le> f + 5" using div_le_mono [OF t3(1), of period] by simp_all
  from t4 have f4: "?t3 div period \<le> ?t4 div period" "?t4 div period \<le> Suc (?t3 div period)"
    by (auto intro: frames_near)
  have same: "cur = prev \<longleftrightarrow> ?t3 div period = f" using frame_of_inj [of f "?t3 div period"] f3 f(1) cur by auto
  show thesis
  proof (cases "fst (ready_poll m s) \<or> fst (getr m USB_DeviceState s1) \<in> {DEVICE_STATE_Unattached, DEVICE_STATE_Suspended} \<or>
      fst (Endpoint_IsStalled m s2) \<or> cur \<noteq> prev \<and> rem = 0")
    case True
    have "\<exists>e s'. ready_body m l s = Some (Inr e, s') \<and> e \<le> 4"
      using True unfolding ready_body_def l split_beta Let_def s1_def [symmetric] s2_def [symmetric] s3_def [symmetric]
        cur_def [symmetric] by auto
    with that show ?thesis by fastforce
  next
    case False
    let ?l = "if cur \<noteq> prev then (rem - 1, cur) else (rem, prev)"
    from False have b: "ready_body m l s = Some (Inl ?l, s4)"
      unfolding ready_body_def l split_beta Let_def s1_def [symmetric] s2_def [symmetric] s3_def [symmetric]
        s4_def [symmetric] cur_def [symmetric] by auto
    have "waits ?l s4" using f4 same f(1) cur by (auto simp: waits_def)
    moreover have "((?l, s4), l, s) \<in> measures [\<lambda>p. unat (fst (fst p)), left]"
    proof (cases "cur = prev")
      case True
      with same have "?t3 div period = f" by simp
      then have "?t div period = f" using f(2) div_le_mono [OF t3(1), of period] by simp
      then have "left (l, s) = Suc (period - ?t mod period)" using f(1) l by (simp add: left_def)
      moreover have "left ((rem, prev), s4) < Suc (period - ?t mod period)"
      proof (cases "prev = frame_of (?t4 div period)")
        case True
        with f4 \<open>?t3 div period = f\<close> have "?t4 div period = f" using frame_of_inj [of f "?t4 div period"] f(1) by simp
        then have "?t4 = f * period + ?t4 mod period" using div_mult_mod_eq [of ?t4 period] by simp
        moreover have "?t = f * period + ?t mod period" using div_mult_mod_eq [of ?t period] \<open>?t div period = f\<close> by simp
        ultimately have "?t mod period < ?t4 mod period" using t3(1) t4(1) by linarith
        moreover have "?t4 mod period < period" using p by simp
        ultimately show ?thesis using True by (simp add: left_def)
      qed (simp add: left_def)
      ultimately show ?thesis using True l by simp
    next
      case F: False
      with False have "rem \<noteq> 0" by simp
      then have "unat (rem - 1) < unat rem" using unat_gt_0 [of rem] by (simp add: unat_minus_one)
      with F l show ?thesis by simp
    qed
    ultimately show ?thesis using that [OF b] by simp
  qed
qed

lemma wait_ready_ends: "\<exists>e s'. Endpoint_WaitUntilReady m s = Some (e, s') \<and> e \<le> 4"
proof -
  let ?s = "snd (USB_Device_GetFrameNumber m s)"
  let ?R = "measures [\<lambda>p. unat (fst (fst p)), left]"
  have n: "fst (USB_Device_GetFrameNumber m s) = frame_of (ticks (world s) div period)"
    by (simp add: USB_Device_GetFrameNumber_def split_beta frame_number frame_of_def)
  have f4: "ticks (world s) div period \<le> ticks (world ?s) div period"
    "ticks (world ?s) div period \<le> Suc (ticks (world s) div period)"
    by (rule frames_near; simp add: USB_Device_GetFrameNumber_def split_beta frame_ticks less_imp_le)+
  have w: "waits (USB_STREAM_TIMEOUT_MS, fst (USB_Device_GetFrameNumber m s)) ?s"
    using f4 by (auto simp: waits_def n)
  have step: "\<exists>r s'. ready_body m l s = Some (r, s') \<and> (case r of
      Inl l' \<Rightarrow> waits l' s' \<and> ((l', s'), l, s) \<in> ?R | Inr e \<Rightarrow> e \<le> 4)" if "waits l s" for l and s :: "('c, 'w) dev"
    by (rule ready_body_step [OF that], intro exI conjI)
  have "\<exists>e s'. floop (ready_body m) (USB_STREAM_TIMEOUT_MS, fst (USB_Device_GetFrameNumber m s)) ?s = Some (e, s') \<and> e \<le> 4"
    by (rule floop_total [where R = ?R and I = waits, OF _ w step]) auto
  then show ?thesis by (simp add: Endpoint_WaitUntilReady_def split_beta Let_def)
qed

lemma send_byte_ends: "\<exists>e s'. CDC_Device_SendByte m c v s = Some (e, s') \<and> e \<le> 4"
proof -
  define s1 where "s1 = Endpoint_ClearIN m (snd (Endpoint_IsReadWriteAllowed m
    (Endpoint_SelectEndpoint m (Address (DataINEndpoint c)) (snd (cdc_usable m c s)))))"
  obtain e s' where "Endpoint_WaitUntilReady m s1 = Some (e, s')" and "e \<le> 4" using wait_ready_ends by blast
  then show ?thesis unfolding CDC_Device_SendByte_def split_beta Let_def s1_def [symmetric] by auto
qed

lemma sample_ends: "\<exists>s'. rng_sample m s = Some s'"
proof -
  obtain e s' where "CDC_Device_SendByte m (rng_iface (snd (getr m PINC s)))
      (drop_bit 2 (fst (getr m PINC s) AND 0b00000100) + 48) (snd (getr m PINC s)) = Some (e, s')"
    using send_byte_ends by blast
  then show ?thesis
    by (simp add: rng_sample_def split_beta Let_def fputc_def USBSerialStream_def CDC_Device_CreateStream_def
        CDC_Device_putchar_def)
qed

lemma flush_ends: "\<exists>e s'. CDC_Device_Flush m c s = Some (e, s')"
proof -
  define s1 where "s1 = Endpoint_ClearIN m (snd (Endpoint_IsReadWriteAllowed m (snd (Endpoint_BytesInEndpoint m
    (Endpoint_SelectEndpoint m (Address (DataINEndpoint c)) (snd (cdc_usable m c s)))))))"
  obtain e s' where "Endpoint_WaitUntilReady m s1 = Some (e, s')" using wait_ready_ends by blast
  then show ?thesis unfolding CDC_Device_Flush_def split_beta Let_def s1_def [symmetric] by auto
qed

lemma task_ends: "\<exists>s'. CDC_Device_USBTask m c s = Some s'"
proof -
  obtain e s' where "CDC_Device_Flush m c (snd (Endpoint_IsINReady m
      (Endpoint_SelectEndpoint m (Address (DataINEndpoint c)) (snd (cdc_usable m c s))))) = Some (e, s')"
    using flush_ends by blast
  then show ?thesis by (simp add: CDC_Device_USBTask_def split_beta Let_def)
qed

end

end
