(* ===== verification/USB_Sim.thy ===== *)
theory USB_Sim
  imports RNG_Delivery USB_Clock "HOL-Library.AList"
begin

text \<open>
  A simulated controller of the firmware's microcontroller (series 2), with a host and a noise source: five endpoints of
  one bank each, the flags of \<open>UEINTX\<close> computed from the banks, the other registers plain memory. After
  every access the host acts: it takes the packets that wait for it when it is \<open>prompt\<close>, and carries out the
  next item of its script as soon as that is possible.
\<close>

record sim_ep =
  cfg0 :: u8
  cfg1 :: u8
  conx :: u8
  ienx :: u8
  tx :: "u8 list"
  full :: bool
  rx :: "u8 list"
  rxsetup :: bool
  rxout :: bool
  sent :: "u8 list list"

definition sim_ep0 :: sim_ep where
  "sim_ep0 = \<lparr>cfg0 = 0, cfg1 = 0, conx = 0, ienx = 0, tx = [], full = False, rx = [], rxsetup = False, rxout = False,
     sent = []\<rparr>"

text \<open>
  A SETUP packet, an OUT packet for an endpoint once the control endpoint has sent so many packets, taking the packet
  of an endpoint, a bus reset.
\<close>

datatype host_act = Idle | Setup "u8 list" | Out nat nat "u8 list" | Take nat | Reset

record usb_sim =
  eps :: "nat \<Rightarrow> sim_ep"
  uenum :: u8
  others :: "(reg \<times> u8) list"
  noise :: "bool list"
  sampled :: "bool list"
  ticks :: nat
  prompt :: bool
  script :: "host_act list"

definition sim_sel :: "usb_sim \<Rightarrow> u8" where
  "sim_sel w = (if uenum w < 5 then uenum w else 0)"

definition sim_stream :: "u8 \<Rightarrow> usb_sim \<Rightarrow> u8 list" where
  "sim_stream e w = (let p = eps w (unat e) in concat (sent p) @ tx p)"

definition take_packet :: "sim_ep \<Rightarrow> sim_ep" where
  "take_packet p = (if full p then p\<lparr>sent := sent p @ [tx p], tx := [], full := False\<rparr> else p)"

definition lose_packet :: "sim_ep \<Rightarrow> sim_ep" where
  "lose_packet p = p\<lparr>tx := [], full := False, rx := [], rxsetup := False, rxout := False\<rparr>"

definition sim_other :: "usb_sim \<Rightarrow> reg \<Rightarrow> u8" where
  "sim_other w r = (case map_of (others w) r of Some v \<Rightarrow> v | None \<Rightarrow> 0)"

definition set_other :: "reg \<Rightarrow> u8 \<Rightarrow> usb_sim \<Rightarrow> usb_sim" where
  "set_other r v w = w\<lparr>others := AList.update r v (others w)\<rparr>"

definition upd_ep :: "nat \<Rightarrow> (sim_ep \<Rightarrow> sim_ep) \<Rightarrow> usb_sim \<Rightarrow> usb_sim" where
  "upd_ep e f w = w\<lparr>eps := (eps w)(e := f (eps w e))\<rparr>"

fun host_do :: "host_act \<Rightarrow> usb_sim \<Rightarrow> usb_sim option" where
  "host_do Idle w = Some w"
|   "host_do (Setup bs) w =
    (let p = eps w 0 in if rxsetup p \<or> rxout p \<or> full p then None
     else Some (upd_ep 0 (\<lambda>p. p\<lparr>rx := bs, rxsetup := True\<rparr>) w))"
| "host_do (Out e n bs) w =
    (let p = eps w e in if rxsetup p \<or> rxout p \<or> length (sent (eps w 0)) < n then None
     else Some (upd_ep e (\<lambda>p. p\<lparr>rx := bs, rxout := True\<rparr>) w))"
| "host_do (Take e) w = (if full (eps w e) then Some (upd_ep e take_packet w) else None)"
| "host_do Reset w = Some (set_other UDINT (sim_other w UDINT OR bitm EORSTI) (w\<lparr>eps := lose_packet \<circ> eps w\<rparr>))"

definition host_prompt :: "usb_sim \<Rightarrow> usb_sim" where
  "host_prompt w = (let w = w\<lparr>ticks := Suc (ticks w)\<rparr> in if prompt w then w\<lparr>eps := take_packet \<circ> eps w\<rparr> else w)"

definition sim_tick :: "usb_sim \<Rightarrow> usb_sim" where
  "sim_tick w = (case script w of [] \<Rightarrow> host_prompt w | a # as \<Rightarrow>
    (case host_do a (host_prompt w) of Some w' \<Rightarrow> w'\<lparr>script := as\<rparr> | None \<Rightarrow> host_prompt w))"

definition sim_cur :: "usb_sim \<Rightarrow> sim_ep" where
  "sim_cur w = eps w (unat (sim_sel w))"

definition bank_size :: "sim_ep \<Rightarrow> nat" where
  "bank_size p = 8 * 2 ^ unat (drop_bit 4 (cfg1 p) AND 7)"

definition sim_ueintx :: "sim_ep \<Rightarrow> u8" where
  "sim_ueintx p =
    (if full p then 0 else bitm TXINI OR bitm FIFOCON) OR (if rxout p then bitm RXOUTI OR bitm FIFOCON else 0) OR
    (if rxsetup p then bitm RXSTPI else 0) OR
    (if flag (cfg0 p) EPDIR then if \<not> full p \<and> length (tx p) < bank_size p then bitm RWAL else 0
     else if rx p \<noteq> [] then bitm RWAL else 0)"

definition sim_value :: "reg \<Rightarrow> usb_sim \<Rightarrow> u8" where
  "sim_value r w = (let p = sim_cur w in case r of
       UENUM \<Rightarrow> sim_sel w | UECFG0X \<Rightarrow> cfg0 p | UECFG1X \<Rightarrow> cfg1 p | UECONX \<Rightarrow> conx p | UEIENX \<Rightarrow> ienx p
     | UESTA0X \<Rightarrow> if flag (cfg1 p) ALLOC then bitm CFGOK else 0
     | UEINTX \<Rightarrow> sim_ueintx p
     | UEDATX \<Rightarrow> (case rx p of [] \<Rightarrow> 0 | b # bs \<Rightarrow> b)
     | UEBCLX \<Rightarrow> of_nat (length (if flag (cfg0 p) EPDIR \<or> rx p = [] then tx p else rx p))
     | UEBCHX \<Rightarrow> 0
     | PLLCSR \<Rightarrow> let v = sim_other w PLLCSR in if flag v PLLE then v OR bitm PLOCK else v
     | PINC \<Rightarrow> if noise w \<noteq> [] \<and> hd (noise w) then bitm 2 else 0
     | _ \<Rightarrow> sim_other w r)"

definition sim_rd :: "reg \<Rightarrow> usb_sim \<Rightarrow> u8 \<times> usb_sim" where
  "sim_rd r w = (sim_value r w, sim_tick (case r of
       UEDATX \<Rightarrow> upd_ep (unat (sim_sel w)) (\<lambda>p. p\<lparr>rx := tl (rx p)\<rparr>) w
     | PINC \<Rightarrow> w\<lparr>noise := tl (noise w), sampled := sampled w @ [noise w \<noteq> [] \<and> hd (noise w)]\<rparr>
     | _ \<Rightarrow> w))"

definition write_ueintx :: "u8 \<Rightarrow> sim_ep \<Rightarrow> sim_ep" where
  "write_ueintx v p =
    (let p = (if flag v TXINI then p else p\<lparr>full := True\<rparr>);
         p = (if flag v RXOUTI \<or> \<not> rxout p then p else p\<lparr>rxout := False, rx := []\<rparr>)
     in if flag v RXSTPI \<or> \<not> rxsetup p then p else p\<lparr>rxsetup := False, rx := []\<rparr>)"

definition write_uedatx :: "u8 \<Rightarrow> sim_ep \<Rightarrow> sim_ep" where
  "write_uedatx v p = (if \<not> full p \<and> length (tx p) < bank_size p then p\<lparr>tx := tx p @ [v]\<rparr> else p)"

definition sim_wr :: "reg \<Rightarrow> u8 \<Rightarrow> usb_sim \<Rightarrow> usb_sim" where
  "sim_wr r v w = sim_tick (case r of
       UENUM \<Rightarrow> if v < 5 then w\<lparr>uenum := v\<rparr> else w
     | UECFG0X \<Rightarrow> upd_ep (unat (sim_sel w)) (\<lambda>p. p\<lparr>cfg0 := v\<rparr>) w
     | UECFG1X \<Rightarrow> upd_ep (unat (sim_sel w)) (\<lambda>p. p\<lparr>cfg1 := v\<rparr>) w
     | UECONX \<Rightarrow> upd_ep (unat (sim_sel w)) (\<lambda>p. p\<lparr>conx := if flag v STALLRQC then clr_flag STALLRQ v else v\<rparr>) w
     | UEIENX \<Rightarrow> upd_ep (unat (sim_sel w)) (\<lambda>p. p\<lparr>ienx := v\<rparr>) w
     | UEINTX \<Rightarrow> upd_ep (unat (sim_sel w)) (write_ueintx v) w
     | UEDATX \<Rightarrow> upd_ep (unat (sim_sel w)) (write_uedatx v) w
     | _ \<Rightarrow> set_other r v w)"

text \<open>A frame lasts eight accesses.\<close>

definition sim_frame :: "usb_sim \<Rightarrow> u16 \<times> usb_sim" where
  "sim_frame w = (of_nat (ticks w div 8 mod 2048), sim_tick w)"

definition sim_mcu :: "usb_sim mcu" where
  "sim_mcu = \<lparr>mcu_rd = sim_rd, mcu_wr = sim_wr, mcu_frame = sim_frame, mcu_signature = (\<lambda>a. a),
     mcu_wdt_disable = id, mcu_clock_prescale = (\<lambda>_. id), series = Series2, USB_Options = 0, USB_PLL_PSC = 4,
     limited_connect = True\<rparr>"

definition sim_power_on :: "bool list \<Rightarrow> host_act list \<Rightarrow> usb_sim" where
  "sim_power_on bs as = \<lparr>eps = \<lambda>_. sim_ep0, uenum = 0, others = [], noise = bs, sampled = [], ticks = 0,
     prompt = True, script = as\<rparr>"

definition rng_power_on :: "'w \<Rightarrow> 'w rng_dev" where
  "rng_power_on w = \<lparr>USB_ControlRequest = request_of (replicate 8 0), USB_Device_ConfigurationNumber = 0,
     USB_Device_CurrentlySelfPowered = False, USB_Device_RemoteWakeupEnabled = False, USB_IsInitialized = False,
     app = rng_start, world = w\<rparr>"

subsection \<open>The simulated controller provides the interface\<close>

lemma sim_sel_less: "sim_sel w < 5"
  by (simp add: sim_sel_def)

lemma sim_sel_upd [simp]:
  "sim_sel (upd_ep e f w) = sim_sel w" "sim_sel (set_other r v w) = sim_sel w"
  by (simp_all add: sim_sel_def upd_ep_def set_other_def)

lemma stream_other [simp]: "sim_stream e (set_other r v w) = sim_stream e w"
  by (simp add: sim_stream_def set_other_def)

lemma stream_upd:
  "sim_stream e (upd_ep k f w) = (if unat e = k then concat (sent (f (eps w k))) @ tx (f (eps w k)) else sim_stream e w)"
  by (simp add: sim_stream_def upd_ep_def Let_def)

lemma stream_upd_keep:
  "(\<And>p. sent (f p) = sent p) \<Longrightarrow> (\<And>p. tx (f p) = tx p) \<Longrightarrow> sim_stream e (upd_ep k f w) = sim_stream e w"
  by (simp add: stream_upd) (simp add: sim_stream_def Let_def)

lemma take_packet_stream: "concat (sent (take_packet p)) @ tx (take_packet p) = concat (sent p) @ tx p"
  by (simp add: take_packet_def)

lemma host_stream: "host_do a w = Some w' \<Longrightarrow> subseq (sim_stream e w') (sim_stream e w)"
proof (cases a)
  case (Take k)
  assume "host_do a w = Some w'"
  with Take have "w' = upd_ep k take_packet w" by (simp split: if_splits)
  then show ?thesis by (simp add: stream_upd take_packet_stream) (simp add: sim_stream_def Let_def)
next
  case Reset
  assume "host_do a w = Some w'"
  with Reset show ?thesis by (auto simp: sim_stream_def Let_def lose_packet_def set_other_def)
qed (auto simp: stream_upd_keep Let_def split: if_splits)

lemma host_sel: "host_do a w = Some w' \<Longrightarrow> sim_sel w' = sim_sel w"
  by (cases a) (auto simp: Let_def sim_sel_def upd_ep_def set_other_def split: if_splits)

lemma host_sampled: "host_do a w = Some w' \<Longrightarrow> sampled w' = sampled w"
  by (cases a) (auto simp: Let_def upd_ep_def set_other_def split: if_splits)

lemma prompt_quiet [simp]:
  "sim_sel (host_prompt w) = sim_sel w" "sampled (host_prompt w) = sampled w" "sim_stream e (host_prompt w) = sim_stream e w"
  by (simp_all add: host_prompt_def sim_sel_def sim_stream_def Let_def take_packet_stream)

lemma script_quiet [simp]:
  "sim_sel (w\<lparr>script := as\<rparr>) = sim_sel w" "sim_stream e (w\<lparr>script := as\<rparr>) = sim_stream e w"
  by (simp_all add: sim_sel_def sim_stream_def)

lemma tick_cases:
  obtains "sim_tick w = host_prompt w" | a as w' where "host_do a (host_prompt w) = Some w'" "sim_tick w = w'\<lparr>script := as\<rparr>"
  by (cases "script w"; cases "host_do (hd (script w)) (host_prompt w)") (auto simp: sim_tick_def)

lemma tick_quiet [simp]:
  "sim_sel (sim_tick w) = sim_sel w" "sampled (sim_tick w) = sampled w" "subseq (sim_stream e (sim_tick w)) (sim_stream e w)"
  by (cases w rule: tick_cases; auto dest: host_sel host_sampled host_stream [of _ _ _ e])+

lemma mcu_simps [simp]:
  "mcu_rd sim_mcu = sim_rd" "mcu_wr sim_mcu = sim_wr" "mcu_frame sim_mcu = sim_frame"
  "mcu_wdt_disable sim_mcu = id" "mcu_clock_prescale sim_mcu = (\<lambda>_. id)"
  by (simp_all add: sim_mcu_def)

lemma rd_tick: "snd (sim_rd r w) = sim_tick (case r of
       UEDATX \<Rightarrow> upd_ep (unat (sim_sel w)) (\<lambda>p. p\<lparr>rx := tl (rx p)\<rparr>) w
     | PINC \<Rightarrow> w\<lparr>noise := tl (noise w), sampled := sampled w @ [noise w \<noteq> [] \<and> hd (noise w)]\<rparr>
     | _ \<Rightarrow> w)"
  by (simp add: sim_rd_def)

lemma sampling_quiet [simp]:
  "sim_sel (w\<lparr>noise := n, sampled := b\<rparr>) = sim_sel w" "sim_stream e (w\<lparr>noise := n, sampled := b\<rparr>) = sim_stream e w"
  by (simp_all add: sim_sel_def sim_stream_def)

lemma sim_rd_sel: "sim_sel (snd (sim_rd r w)) = sim_sel w"
  unfolding rd_tick by (cases r) simp_all

lemma tick_stream: "subseq (sim_stream e w') xs \<Longrightarrow> subseq (sim_stream e (sim_tick w')) xs"
  by (rule subseq_order.order_trans [OF tick_quiet(3)])

lemma sim_rd_stream: "subseq (sim_stream e (snd (sim_rd r w))) (sim_stream e w)"
  unfolding rd_tick by (rule tick_stream, cases r) (auto simp: stream_upd_keep)

lemma write_ueintx_stream [simp]: "sent (write_ueintx v p) = sent p" "tx (write_ueintx v p) = tx p"
  by (simp_all add: write_ueintx_def Let_def)

lemma uenum_stream [simp]: "sim_stream e (w\<lparr>uenum := v\<rparr>) = sim_stream e w"
  by (simp add: sim_stream_def)

lemma stream_upd_other: "k \<noteq> unat e \<Longrightarrow> sim_stream e (upd_ep k f w) = sim_stream e w"
  by (simp add: stream_upd)

lemma sim_wr_stream: "r \<noteq> UEDATX \<or> sim_sel w \<noteq> e \<Longrightarrow> subseq (sim_stream e (sim_wr r v w)) (sim_stream e w)"
  unfolding sim_wr_def by (rule tick_stream, cases r) (auto simp: stream_upd_keep stream_upd_other word_unat_eq_iff)

lemma sim_wr_data: "subseq (sim_stream (sim_sel w) (sim_wr UEDATX v w)) (sim_stream (sim_sel w) w @ [v])"
  unfolding sim_wr_def by (rule tick_stream) (simp add: stream_upd write_uedatx_def, simp add: sim_stream_def Let_def list_emb_prefix flip: append_assoc)

lemma uenum_sel [simp]: "v < 5 \<Longrightarrow> sim_sel (w\<lparr>uenum := v\<rparr>) = v"
  by (simp add: sim_sel_def)

lemma sim_wr_sel: "sim_sel (sim_wr r v w) = (if r = UENUM \<and> v < 5 then v else sim_sel w)"
  unfolding sim_wr_def by (cases r) simp_all

lemma sim_samples:
  "r \<noteq> PINC \<Longrightarrow> sampled (snd (sim_rd r w)) = sampled w"
  "sampled (snd (sim_rd PINC w)) = sampled w @ [flag (fst (sim_rd PINC w)) 2]"
  "sampled (sim_wr r v w) = sampled w"
  by (cases r; simp add: sim_rd_def sim_wr_def sim_value_def upd_ep_def set_other_def)+

interpretation sim_bus: usb_bus sim_mcu sim_sel sim_stream sampled
proof unfold_locales
  show "sim_sel w < 8" for w
    using sim_sel_less [of w] by (rule less_trans) simp
  show "fst (mcu_rd sim_mcu UENUM w) = sim_sel w" for w
    by (simp add: sim_rd_def sim_value_def)
qed (simp_all add: sim_frame_def sim_rd_sel sim_rd_stream sim_wr_stream sim_wr_data sim_wr_sel sim_samples)

subsection \<open>A host that keeps up\<close>

definition sim_live :: "usb_sim \<Rightarrow> bool" where
  "sim_live w \<longleftrightarrow> prompt w \<and> script w = [] \<and> \<not> rxsetup (eps w 0) \<and> \<not> rxout (eps w 4) \<and>
     flag (cfg0 (eps w 3)) EPDIR \<and> sim_other w USB_DeviceState = DEVICE_STATE_Configured"

definition sim_calm :: "usb_sim \<Rightarrow> bool" where
  "sim_calm w \<longleftrightarrow> sim_live w \<and> (\<forall>e. \<not> full (eps w e))"

definition sim_room :: "usb_sim \<Rightarrow> bool" where
  "sim_room w \<longleftrightarrow> length (tx (eps w 3)) < bank_size (eps w 3)"

lemma take_packet_fields [simp]:
  "cfg0 (take_packet p) = cfg0 p" "cfg1 (take_packet p) = cfg1 p" "rxsetup (take_packet p) = rxsetup p"
  "rxout (take_packet p) = rxout p" "\<not> full (take_packet p)" "bank_size (take_packet p) = bank_size p"
  "tx (take_packet p) = (if full p then [] else tx p)"
  by (simp_all add: take_packet_def bank_size_def)

lemma bank_size_pos [simp]: "0 < bank_size p"
  by (simp add: bank_size_def)

lemma live_tick:
  assumes "sim_live w"
  shows "sim_calm (sim_tick w)" and "sim_stream e (sim_tick w) = sim_stream e w"
    and "sim_room (sim_tick w) \<longleftrightarrow> full (eps w 3) \<or> sim_room w"
proof -
  from assms have t: "sim_tick w = host_prompt w" by (simp add: sim_tick_def sim_live_def)
  show "sim_stream e (sim_tick w) = sim_stream e w" by (simp add: t)
  show "sim_calm (sim_tick w)" "sim_room (sim_tick w) \<longleftrightarrow> full (eps w 3) \<or> sim_room w"
    using assms by (auto simp: t sim_calm_def sim_live_def sim_room_def host_prompt_def Let_def sim_other_def)
qed

lemma calm_not_full: "sim_calm w \<Longrightarrow> \<not> full (eps w e)"
  by (auto simp: sim_calm_def sim_live_def)

lemma calm_live: "sim_calm w \<Longrightarrow> sim_live w"
  by (simp add: sim_calm_def)

lemma upd_nth: "eps (upd_ep k f w) i = (if i = k then f (eps w k) else eps w i)"
  by (simp add: upd_ep_def)

lemma upd_fields [simp]:
  "prompt (upd_ep k f w) = prompt w" "script (upd_ep k f w) = script w" "sim_other (upd_ep k f w) = sim_other w"
  by (auto simp: upd_ep_def sim_other_def fun_eq_iff)

lemma live_upd:
  assumes "sim_live w" and "\<And>p. cfg0 (f p) = cfg0 p" "\<And>p. rxsetup (f p) \<Longrightarrow> rxsetup p" "\<And>p. rxout (f p) \<Longrightarrow> rxout p"
  shows "sim_live (upd_ep k f w)"
  using assms by (auto simp: sim_live_def upd_nth)

lemma rd_cases:
  obtains "r = UEDATX" "snd (sim_rd r w) = sim_tick (upd_ep (unat (sim_sel w)) (\<lambda>p. p\<lparr>rx := tl (rx p)\<rparr>) w)"
  | "r = PINC" "snd (sim_rd r w) = sim_tick (w\<lparr>noise := tl (noise w), sampled := sampled w @ [noise w \<noteq> [] \<and> hd (noise w)]\<rparr>)"
  | "snd (sim_rd r w) = sim_tick w"
  by (cases r) (simp_all add: rd_tick)

lemma room_upd_keep:
  "(\<And>p. tx (f p) = tx p) \<Longrightarrow> (\<And>p. bank_size (f p) = bank_size p) \<Longrightarrow> sim_room (upd_ep k f w) = sim_room w"
  by (simp add: sim_room_def upd_nth)

lemma sim_rd_calm:
  assumes "sim_calm w"
  shows "sim_calm (snd (sim_rd r w))" "sim_stream 3 (snd (sim_rd r w)) = sim_stream 3 w"
    "sim_room (snd (sim_rd r w)) = sim_room w"
proof -
  note l = calm_live [OF assms] and n = calm_not_full [OF assms, of 3]
  have "sim_calm (snd (sim_rd r w)) \<and> sim_stream 3 (snd (sim_rd r w)) = sim_stream 3 w \<and>
    sim_room (snd (sim_rd r w)) = sim_room w"
  proof (cases r w rule: rd_cases)
    case 1
    let ?f = "\<lambda>p. p\<lparr>rx := tl (rx p)\<rparr>"
    let ?w = "upd_ep (unat (sim_sel w)) ?f w"
    from l have "sim_live ?w" by (rule live_upd) simp_all
    moreover have "sim_room ?w = sim_room w" by (rule room_upd_keep) (simp_all add: bank_size_def)
    moreover from n have "\<not> full (eps ?w 3)"
      by (simp add: upd_nth)
    ultimately show ?thesis unfolding 1(2) using live_tick [of ?w] by (simp add: stream_upd_keep)
  next
    case 2
    let ?w = "w\<lparr>noise := tl (noise w), sampled := sampled w @ [noise w \<noteq> [] \<and> hd (noise w)]\<rparr>"
    from l have "sim_live ?w" by (simp add: sim_live_def sim_other_def)
    then show ?thesis unfolding 2(2) using live_tick [of ?w] n by (simp add: sim_room_def)
  next
    case 3
    then show ?thesis using live_tick [OF l] n by simp
  qed
  then show "sim_calm (snd (sim_rd r w))" "sim_stream 3 (snd (sim_rd r w)) = sim_stream 3 w"
    "sim_room (snd (sim_rd r w)) = sim_room w" by simp_all
qed

lemma set_other_eps [simp]: "eps (set_other r v w) = eps w"
  by (simp add: set_other_def)

lemma sim_wr_calm:
  assumes "sim_calm w" and "r \<in> {UENUM, PORTD, UEINTX}"
  shows "sim_calm (sim_wr r v w)" "sim_stream 3 (sim_wr r v w) = sim_stream 3 w"
    "r \<noteq> UEINTX \<Longrightarrow> sim_room (sim_wr r v w) = sim_room w"
proof -
  note l = calm_live [OF assms(1)] and n = calm_not_full [OF assms(1), of 3]
  from l have "sim_live (w\<lparr>uenum := v\<rparr>)" "sim_live (set_other PORTD v w)"
    by (simp_all add: sim_live_def set_other_def sim_other_def update_conv)
  moreover from l have "sim_live (upd_ep k (write_ueintx v) w)" for k
    by (rule live_upd) (auto simp: write_ueintx_def Let_def split: if_splits)
  moreover have "sim_stream 3 (upd_ep k (write_ueintx v) w) = sim_stream 3 w" for k by (simp add: stream_upd_keep)
  ultimately show "sim_calm (sim_wr r v w)" "sim_stream 3 (sim_wr r v w) = sim_stream 3 w"
    "r \<noteq> UEINTX \<Longrightarrow> sim_room (sim_wr r v w) = sim_room w"
    using assms(2) l n live_tick
    by (auto simp: sim_wr_def sim_room_def)
qed

lemma sim_hand_over:
  assumes "sim_calm w" and "sim_sel w = 3" and "\<not> flag v TXINI"
  shows "sim_room (sim_wr UEINTX v w)"
proof -
  let ?w = "upd_ep 3 (write_ueintx v) w"
  from calm_live [OF assms(1)] have "sim_live ?w"
    by (rule live_upd) (auto simp: write_ueintx_def Let_def split: if_splits)
  moreover from assms have "full (eps ?w 3)"
    by (auto simp: upd_nth write_ueintx_def Let_def sim_calm_def sim_live_def)
  ultimately show ?thesis using live_tick(3) [of ?w] assms(2) by (simp add: sim_wr_def)
qed

lemma sim_put_byte:
  assumes "sim_calm w" and "sim_sel w = 3" and "sim_room w"
  shows "sim_stream 3 (sim_wr UEDATX v w) = sim_stream 3 w @ [v]" and "sim_calm (sim_wr UEDATX v w)"
proof -
  let ?w = "upd_ep 3 (write_uedatx v) w"
  from calm_live [OF assms(1)] have l: "sim_live ?w"
    by (rule live_upd) (auto simp: write_uedatx_def split: if_splits)
  from assms calm_not_full [OF assms(1), of 3] have "sim_stream 3 ?w = sim_stream 3 w @ [v]"
    by (auto simp: stream_upd write_uedatx_def sim_room_def sim_calm_def sim_live_def sim_stream_def [of _ w] Let_def)
  with live_tick [OF l] assms(2) show "sim_stream 3 (sim_wr UEDATX v w) = sim_stream 3 w @ [v]"
    "sim_calm (sim_wr UEDATX v w)" by (simp_all add: sim_wr_def)
qed

lemma sim_ueintx_flags:
  "flag (sim_ueintx p) TXINI \<longleftrightarrow> \<not> full p"
  "flag (sim_ueintx p) RXOUTI \<longleftrightarrow> rxout p"
  "flag (sim_ueintx p) RXSTPI \<longleftrightarrow> rxsetup p"
  "flag (cfg0 p) EPDIR \<Longrightarrow> flag (sim_ueintx p) RWAL \<longleftrightarrow> \<not> full p \<and> length (tx p) < bank_size p"
  by (simp_all add: sim_ueintx_def bit_numbers)

interpretation sim_host: prompt_host sim_mcu sim_sel sim_stream sampled sim_calm sim_room
proof unfold_locales
  fix w v r
  assume c: "sim_calm w"
  note l = calm_live [OF c] and n = calm_not_full [OF c]
  from l n show "sim_calm (snd (mcu_frame sim_mcu w))" "sim_stream 3 (snd (mcu_frame sim_mcu w)) = sim_stream 3 w"
    "sim_room (snd (mcu_frame sim_mcu w)) = sim_room w"
    by (simp_all add: live_tick sim_frame_def)
  show "r \<in> {UENUM, PORTD} \<Longrightarrow> sim_room (mcu_wr sim_mcu r v w) = sim_room w"
    using sim_wr_calm(3) [OF c, of r v] by auto
  from l show "fst (mcu_rd sim_mcu USB_DeviceState w) = DEVICE_STATE_Configured"
    by (simp add: sim_rd_def sim_value_def sim_live_def)
  show "sim_sel w = 3 \<Longrightarrow> flag (fst (mcu_rd sim_mcu UEINTX w)) RWAL = sim_room w"
    using l n [of 3] by (simp add: sim_rd_def sim_value_def sim_cur_def sim_ueintx_flags sim_live_def sim_room_def)
  show "sim_sel w = 3 \<Longrightarrow> flag (fst (mcu_rd sim_mcu UEINTX w)) TXINI"
    using n [of 3] by (simp add: sim_rd_def sim_value_def sim_cur_def sim_ueintx_flags)
  show "sim_sel w = 3 \<Longrightarrow> flag (fst (mcu_rd sim_mcu UECFG0X w)) EPDIR"
    using l by (simp add: sim_rd_def sim_value_def sim_cur_def sim_live_def)
  show "sim_sel w = 4 \<Longrightarrow> \<not> flag (fst (mcu_rd sim_mcu UEINTX w)) RXOUTI"
    using l by (simp add: sim_rd_def sim_value_def sim_cur_def sim_live_def sim_ueintx_flags)
  show "sim_sel w = 0 \<Longrightarrow> \<not> flag (fst (mcu_rd sim_mcu UEINTX w)) RXSTPI"
    using l by (simp add: sim_rd_def sim_value_def sim_cur_def sim_live_def sim_ueintx_flags)
qed (simp_all add: sim_rd_calm sim_wr_calm sim_hand_over sim_put_byte)

subsection \<open>Time\<close>

lemma host_ticks: "host_do a w = Some w' \<Longrightarrow> ticks w' = ticks w"
  by (cases a) (auto simp: Let_def upd_ep_def set_other_def split: if_splits)

lemma tick_ticks [simp]: "ticks (sim_tick w) = Suc (ticks w)"
proof -
  have "ticks (host_prompt w) = Suc (ticks w)" by (simp add: host_prompt_def Let_def)
  then show ?thesis by (cases w rule: tick_cases) (auto dest: host_ticks)
qed

interpretation sim_clock: bus_clock sim_mcu ticks 8
proof unfold_locales
  fix r w
  have "ticks (snd (sim_rd r w)) = Suc (ticks w)" by (cases r w rule: rd_cases) (simp_all add: upd_ep_def)
  then show "ticks w < ticks (snd (mcu_rd sim_mcu r w))" "ticks (snd (mcu_rd sim_mcu r w)) \<le> ticks w + 8" by simp_all
qed (simp_all add: sim_frame_def)

end
