(* ===== verification/RNG_Theorems.thy ===== *)
theory RNG_Theorems
  imports USB_Sim
begin

text \<open>
  What the firmware does, stated for any controller that provides the interfaces \<open>usb_bus\<close>, \<open>prompt_host\<close> and
  \<open>bus_clock\<close>; the witnesses run it on the simulated controller.
\<close>

subsection \<open>A configured device for the witnesses\<close>

definition sim_ready :: "bool list \<Rightarrow> usb_sim" where
  "sim_ready bs = set_other USB_DeviceState DEVICE_STATE_Configured
     (upd_ep 3 (\<lambda>p. p\<lparr>cfg0 := 0x81, cfg1 := 0x12\<rparr>) (sim_power_on bs []))"

definition rng_opened :: "'w \<Rightarrow> 'w rng_dev" where
  "rng_opened w = (rng_power_on w)\<lparr>app := rng_start\<lparr>VirtualSerial_CDC_Interface :=
     rng_interface\<lparr>LineEncoding := zero_encoding\<lparr>BaudRateBPS := 9600\<rparr>\<rparr>\<rparr>\<rparr>"

lemma sim_ready_calm: "sim_calm (sim_ready bs)"
  by (simp add: sim_calm_def sim_live_def sim_ready_def sim_power_on_def sim_ep0_def upd_ep_def set_other_def sim_other_def
      flag_bit bit_numbers)

lemma opened_simps [simp]:
  "world (rng_opened w) = w" "iface_ok (app (rng_opened w))" "open_port (rng_iface (rng_opened w))"
  "sampled (sim_ready bs) = []" "sim_stream e (sim_ready bs) = []"
  by (simp_all add: rng_opened_def rng_power_on_def rng_start_def rng_interface_def iface_ok_def open_port_def rng_iface_def
      rng_constants zero_encoding_def sim_ready_def sim_stream_def sim_power_on_def set_other_def upd_ep_def sim_ep0_def)

subsection \<open>What the host receives\<close>



text \<open>On the simulated controller the samples are the bits of its noise, and then zeros.\<close>

definition sim_future :: "usb_sim \<Rightarrow> nat \<Rightarrow> bool" where
  "sim_future w i = (let xs = sampled w @ noise w in i < length xs \<and> xs ! i)"

lemma host_future: "host_do a w = Some w' \<Longrightarrow> sim_future w' = sim_future w"
  by (cases a) (auto simp: Let_def upd_ep_def set_other_def sim_future_def split: if_splits)

lemma script_future: "sim_future (w\<lparr>script := as\<rparr>) = sim_future w"
  by (simp add: sim_future_def fun_eq_iff)

lemma tick_future [simp]: "sim_future (sim_tick w) = sim_future w"
proof -
  have "sim_future (host_prompt w) = sim_future w" by (simp add: host_prompt_def sim_future_def Let_def fun_eq_iff)
  then show ?thesis
    by (cases w rule: tick_cases) (simp_all add: script_future host_future)
qed

lemma future_sample:
  "sim_future (w\<lparr>noise := tl (noise w), sampled := sampled w @ [noise w \<noteq> [] \<and> hd (noise w)]\<rparr>) = sim_future w"
  by (cases "noise w") (auto simp: sim_future_def fun_eq_iff nth_append less_Suc_eq)

lemma rd_future: "sim_future (snd (sim_rd r w)) = sim_future w"
  by (cases r w rule: rd_cases) (simp_all add: future_sample, simp add: sim_future_def upd_ep_def fun_eq_iff)

lemma wr_future: "sim_future (sim_wr r v w) = sim_future w"
  unfolding sim_wr_def by (cases r) (simp_all add: sim_future_def upd_ep_def set_other_def fun_eq_iff)

lemma sim_noise_host:
  "prompt_host sim_mcu sim_sel sim_stream sampled (\<lambda>w. sim_calm w \<and> sim_future w = f) sim_room"
  using sim_host.prompt_host_axioms unfolding prompt_host_def prompt_host_axioms_def
  by (simp add: rd_future wr_future sim_frame_def)

lemma future_sampled: "sim_future w = (\<lambda>i. i < length bs \<and> bs ! i) \<Longrightarrow> length (sampled w) = length bs \<Longrightarrow> sampled w = bs"
  by (rule nth_equalityI) (auto simp: sim_future_def fun_eq_iff nth_append Let_def split: if_splits)

lemma ready_future: "sim_future (sim_ready bs) = (\<lambda>i. i < length bs \<and> bs ! i)"
  by (simp add: fun_eq_iff sim_future_def sim_ready_def sim_power_on_def set_other_def upd_ep_def)

lemma sim_delivered:
  "\<exists>s'. rng_loop sim_mcu (length bs) (rng_opened (sim_ready bs)) = Some (True, s') \<and> sampled (world s') = bs \<and>
    sim_stream 3 (world s') = map ascii bs"
proof -
  let ?s = "rng_opened (sim_ready bs)" and ?f = "\<lambda>i. i < length bs \<and> bs ! i"
  note host = sim_noise_host [of ?f]
  have "prompt_host.serving sim_stream sampled (\<lambda>w. sim_calm w \<and> sim_future w = ?f) (rng_iface ?s) [] [] ?s"
    using sim_ready_calm ready_future [of bs]
    by (simp add: prompt_host.serving_def [OF host] prompt_host.holds_def [OF host])
  from prompt_host.loop_serving [OF host this, of "length bs"] obtain cs s' where
    s': "rng_loop sim_mcu (length bs) ?s = Some (True, s')" "length cs = length bs" "sampled (world s') = cs"
    "sim_stream 3 (world s') = map ascii cs" "sim_future (world s') = ?f"
    by (auto simp: prompt_host.serving_def [OF host] prompt_host.holds_def [OF host])
  from s' have bs: "sampled (world s') = bs" by (intro future_sampled) simp_all
  with s'(3,4) have "sim_stream 3 (world s') = map ascii bs" by simp
  with s'(1) bs show ?thesis by blast
qed



subsection \<open>Waiting\<close>



subsection \<open>Interrupts\<close>

text \<open>
  C33: the endpoint interrupt is transparent for the program it interrupts: afterwards the same endpoint is
  selected, no sample was taken, the data endpoint has lost bytes at most, and the interface keeps its endpoints.
\<close>

theorem endpoint_interrupt_transparent:
  assumes "usb_bus m sel stream samples" and "iface_ok (app s)" and "sel (world s) < 5"
    and "USB_COM_vect m (rng_events m) s = Some s'"
  shows "sel (world s') = sel (world s) \<and> samples (world s') = samples (world s) \<and>
    subseq (stream 3 (world s')) (stream 3 (world s)) \<and> iface_ok (app s')"
proof -
  from assms(2) have "usb_bus.wired stream samples (world s) s"
    by (simp add: usb_bus.wired_def [OF assms(1)] usb_bus.loose_def [OF assms(1)])
  from usb_bus.com_vect_wired [OF assms(1,4) this] show ?thesis
    using usb_bus.com_vect_selection [OF assms(1,4,3)]
    by (simp add: usb_bus.wired_def [OF assms(1)] usb_bus.loose_def [OF assms(1)])
qed

definition no_setup :: "usb_sim \<Rightarrow> bool" where
  "no_setup w \<longleftrightarrow> script w = [] \<and> \<not> rxsetup (eps w 0)"

lemma no_setup_tick: "no_setup w \<Longrightarrow> no_setup (sim_tick w)"
  by (simp add: no_setup_def sim_tick_def host_prompt_def Let_def)

lemma no_setup_rd: "no_setup w \<Longrightarrow> no_setup (snd (sim_rd r w))"
  unfolding rd_tick by (rule no_setup_tick, cases r) (auto simp: no_setup_def upd_nth)

lemma no_setup_wr: "no_setup w \<Longrightarrow> no_setup (sim_wr r v w)"
  unfolding sim_wr_def
  by (rule no_setup_tick, cases r) (auto simp: no_setup_def upd_nth set_other_def write_ueintx_def write_uedatx_def Let_def)

lemma no_setup_regs:
  "no_setup (world s) \<Longrightarrow> no_setup (world (snd (getr sim_mcu r s)))"
  "no_setup (world s) \<Longrightarrow> no_setup (world (setr sim_mcu r v s))"
  "no_setup (world s) \<Longrightarrow> no_setup (world (modr sim_mcu r f s))"
  "no_setup (world s) \<Longrightarrow> no_setup (world (snd (testr sim_mcu r b s)))"
  "no_setup (world s) \<Longrightarrow> no_setup (world (snd (read_bytes sim_mcu n s)))"
proof -
  have 1: "no_setup (world s) \<Longrightarrow> no_setup (world (snd (getr sim_mcu r s)))" for r s
    by (simp add: getr_def split_beta no_setup_rd)
  have 2: "no_setup (world s) \<Longrightarrow> no_setup (world (setr sim_mcu r v s))" for r s v
    by (simp add: setr_def no_setup_wr)
  show "no_setup (world s) \<Longrightarrow> no_setup (world (snd (getr sim_mcu r s)))" by (rule 1)
  show "no_setup (world s) \<Longrightarrow> no_setup (world (setr sim_mcu r v s))" by (rule 2)
  show "no_setup (world s) \<Longrightarrow> no_setup (world (modr sim_mcu r f s))" by (simp add: modr_def split_beta 1 2)
  show "no_setup (world s) \<Longrightarrow> no_setup (world (snd (testr sim_mcu r b s)))" by (simp add: testr_def split_beta 1)
  show "no_setup (world s) \<Longrightarrow> no_setup (world (snd (read_bytes sim_mcu n s)))"
    by (induction n arbitrary: s) (simp_all add: Endpoint_Read_8_def split_beta Let_def 1)
qed

lemma no_setup_select:
  "no_setup (world s) \<Longrightarrow> no_setup (world (Endpoint_SelectEndpoint sim_mcu v s))"
  by (simp add: Endpoint_SelectEndpoint_def no_setup_regs)

lemma no_setup_received:
  "no_setup (world s) \<Longrightarrow> sim_sel (world s) = 0 \<Longrightarrow> \<not> fst (Endpoint_IsSETUPReceived sim_mcu s)"
  by (simp add: Endpoint_IsSETUPReceived_def testr_def getr_def split_beta sim_rd_def sim_value_def sim_cur_def
      sim_ueintx_flags no_setup_def)

lemma sim_process_idle:
  assumes "no_setup (world s)" and "sim_sel (world s) = 0"
  shows "\<exists>s'. USB_Device_ProcessControlRequest sim_mcu (rng_events sim_mcu) s = Some s'"
proof -
  define t where "t = read_request sim_mcu s"
  have "sim_sel (world (snd (read_bytes sim_mcu n u))) = sim_sel (world u)" for n and u :: "usb_sim rng_dev"
    by (induction n arbitrary: u) (simp_all add: Endpoint_Read_8_def split_beta Let_def)
  then have t: "no_setup (world t)" "sim_sel (world t) = 0"
    using assms by (simp_all add: t_def read_request_def split_beta Let_def no_setup_regs)
  define u where "u = set_iface (rng_iface t) (snd (Endpoint_IsSETUPReceived sim_mcu t))"
  from t have u: "no_setup (world u)" "sim_sel (world u) = 0"
    by (simp_all add: u_def Endpoint_IsSETUPReceived_def no_setup_regs)
  have "rng_ControlRequest sim_mcu t = Some u"
    using no_setup_received [OF t] by (simp add: rng_ControlRequest_def CDC_Device_ProcessControlRequest_def split_beta Let_def u_def)
  then show ?thesis
    using no_setup_received [OF u]
    by (simp add: USB_Device_ProcessControlRequest_def split_beta Let_def t_def [symmetric])
qed

lemma sim_interrupt_idle:
  assumes "no_setup (world s)"
  shows "\<exists>s'. USB_COM_vect sim_mcu (rng_events sim_mcu) s = Some s'"
proof -
  define t where "t = GlobalInterruptEnable sim_mcu (USB_INT_Disable sim_mcu USB_INT_RXSTPI
    (Endpoint_SelectEndpoint sim_mcu ENDPOINT_CONTROLEP (snd (Endpoint_GetCurrentEndpoint sim_mcu s))))"
  have "no_setup (world t)" "sim_sel (world t) = 0"
    using assms by (simp_all add: t_def GlobalInterruptEnable_def Endpoint_GetCurrentEndpoint_def Endpoint_GetEndpointDirection_def
        split_beta Let_def no_setup_regs no_setup_select)
      (simp add: modr_def setr_def getr_def split_beta Endpoint_SelectEndpoint_def sim_wr_sel sim_rd_sel)
  from sim_process_idle [OF this] show ?thesis
    by (auto simp: USB_COM_vect_def split_beta Let_def t_def)
qed

theorem endpoint_interrupt_transparent_witness:
  "\<exists>s'. USB_COM_vect sim_mcu (rng_events sim_mcu) (rng_opened (sim_ready [True])\<lparr>world := (sim_ready [True])\<lparr>uenum := 3\<rparr>\<rparr>) = Some s' \<and>
    sim_sel (world s') = 3"
proof -
  let ?s = "(rng_opened (sim_ready [True]))\<lparr>world := (sim_ready [True])\<lparr>uenum := 3\<rparr>\<rparr>"
  have "no_setup (world ?s)" "iface_ok (app ?s)" "sim_sel (world ?s) = 3"
    using opened_simps(2) [of "sim_ready [True]"]
    by (simp_all add: no_setup_def sim_ready_def sim_power_on_def sim_ep0_def upd_ep_def set_other_def rng_opened_def
        sim_sel_def)
  moreover from sim_interrupt_idle [OF this(1)] obtain s' where "USB_COM_vect sim_mcu (rng_events sim_mcu) ?s = Some s'" by blast
  ultimately show ?thesis
    using endpoint_interrupt_transparent [OF sim_bus.usb_bus_axioms, of ?s s'] by auto
qed

text \<open>
  C34: the general interrupt is not: a bus reset leaves the control endpoint selected, whichever endpoint the
  interrupted program had selected.
\<close>

theorem bus_reset_changes_selection:
  assumes "usb_bus m sel stream samples"
    and "\<And>w v ie. flag v ALLOC \<Longrightarrow> flag (fst (mcu_rd m UESTA0X (mcu_wr m UEIENX ie (mcu_wr m UECFG1X v w)))) CFGOK"
    and "fst (pending m USB_INT_EORSTI s)" and "gen_reset m (rng_events m) s = Some s'"
  shows "sel (world s') = 0"
  by (rule usb_bus.gen_reset_selects [OF assms])

lemma host_other: "host_do a w = Some w' \<Longrightarrow> cfg1 (eps w' e) = cfg1 (eps w e)"
  by (cases a) (auto simp: Let_def upd_ep_def set_other_def lose_packet_def split: if_splits)

lemma tick_cfg1 [simp]: "cfg1 (eps (sim_tick w) e) = cfg1 (eps w e)"
proof -
  have "cfg1 (eps (host_prompt w) e) = cfg1 (eps w e)" by (simp add: host_prompt_def Let_def)
  then show ?thesis by (cases w rule: tick_cases) (auto dest: host_other [of _ _ _ e])
qed

lemma sim_alloc:
  assumes "flag v ALLOC"
  shows "flag (fst (mcu_rd sim_mcu UESTA0X (mcu_wr sim_mcu UEIENX ie (mcu_wr sim_mcu UECFG1X v w)))) CFGOK"
  using assms by (simp add: sim_rd_def sim_value_def sim_cur_def sim_wr_def upd_nth bit_numbers)

lemma epsize_8: "Endpoint_BytesToEPSizeMask USB_Device_ControlEndpointSize = Some 0"
  by (simp add: Endpoint_BytesToEPSizeMask_def USB_Device_ControlEndpointSize_def epsize_loop.simps)

lemma gen_reset_returns: "\<exists>s'. gen_reset sim_mcu (rng_events sim_mcu) s = Some s'"
  by (simp add: gen_reset_def split_beta Let_def Endpoint_ConfigureEndpoint_def ENDPOINT_TOTAL_ENDPOINTS_def epsize_8
      rng_events_def USB_Event_Stub_def sim_mcu_def)

theorem bus_reset_changes_selection_witness:
  "\<exists>s s'. sim_sel (world s) = 3 \<and> gen_reset sim_mcu (rng_events sim_mcu) s = Some s' \<and> sim_sel (world s') = 0"
proof -
  let ?w = "set_other UDINT 8 (set_other UDIEN 8 ((sim_ready [True])\<lparr>uenum := 3\<rparr>))"
  let ?s = "rng_opened ?w"
  have "script ?w = []" by (simp add: set_other_def sim_ready_def upd_ep_def sim_power_on_def)
  then have p: "fst (pending sim_mcu USB_INT_EORSTI ?s)"
    by (simp add: pending_def testr_def getr_def split_beta Let_def sim_rd_def sim_value_def sim_tick_def host_prompt_def
        sim_other_def set_other_def update_conv flag_bit bit_numbers)
  obtain s' where g: "gen_reset sim_mcu (rng_events sim_mcu) ?s = Some s'" using gen_reset_returns by blast
  have "sim_sel (world s') = 0"
    by (rule bus_reset_changes_selection [OF sim_bus.usb_bus_axioms _ p g]) (rule sim_alloc)
  moreover have "sim_sel (world ?s) = 3" by (simp add: sim_sel_def set_other_def)
  ultimately show ?thesis using g by blast
qed

end
