(* ===== verification/Flash_Memory.thy ===== *)
theory Flash_Memory
  imports RNG_Prelude
begin

text \<open>
  Self-programming of the microcontroller: the instructions the boot loaders use, as a record of functions on the flash
  \<open>'f\<close>, and what they do, as an interface. A page of 256 bytes is erased, words are loaded into a
  temporary page buffer, and the buffer is programmed into a page, which can only clear bits and empties the buffer.
\<close>

record 'f spm =
  boot_page_erase :: "u32 \<Rightarrow> 'f \<Rightarrow> 'f"
  boot_page_fill :: "u32 \<Rightarrow> u16 \<Rightarrow> 'f \<Rightarrow> 'f"
  boot_page_write :: "u32 \<Rightarrow> 'f \<Rightarrow> 'f"
  boot_rww_enable :: "'f \<Rightarrow> 'f"
  pgm_read_byte :: "u32 \<Rightarrow> 'f \<Rightarrow> u8"

definition SPM_PAGESIZE :: nat where "SPM_PAGESIZE = 256"

text \<open>The boot section of 8 KB at the end of the 128 KB of flash.\<close>

definition BOOT_START_ADDR :: u32 where "BOOT_START_ADDR = (128 - 8) * 1024"

definition page_of :: "nat \<Rightarrow> nat" where
  "page_of i = i div SPM_PAGESIZE"

text \<open>The byte at offset \<open>k\<close> of the page buffer; words that were not loaded are all ones.\<close>

definition slot_byte :: "(nat \<Rightarrow> u16 option) \<Rightarrow> nat \<Rightarrow> u8" where
  "slot_byte sl k = (let v = (case sl (k div 2) of Some v \<Rightarrow> v | None \<Rightarrow> 0xFFFF) in
     if even k then ucast v else ucast (drop_bit 8 v))"

locale flash_memory =
  fixes spm :: "'f spm" and cell :: "'f \<Rightarrow> nat \<Rightarrow> u8" and slot :: "'f \<Rightarrow> nat \<Rightarrow> u16 option"
  assumes cell_erase: "cell (boot_page_erase spm a f) i = (if page_of i = page_of (unat a) then 0xFF else cell f i)"
    and slot_erase: "slot (boot_page_erase spm a f) = slot f"
    and cell_fill: "cell (boot_page_fill spm a v f) = cell f"
    and slot_fill: "slot f (unat a mod SPM_PAGESIZE div 2) = None \<Longrightarrow>
      slot (boot_page_fill spm a v f) = (slot f)(unat a mod SPM_PAGESIZE div 2 \<mapsto> v)"
    and cell_write: "cell (boot_page_write spm a f) i =
      (if page_of i = page_of (unat a) then cell f i AND slot_byte (slot f) (i mod SPM_PAGESIZE) else cell f i)"
    and slot_write: "slot (boot_page_write spm a f) = Map.empty"

subsection \<open>Programming pages\<close>

text \<open>The word of the bytes at \<open>i\<close> and \<open>i + 1\<close>.\<close>

definition word_at :: "u8 list \<Rightarrow> nat \<Rightarrow> u16" where
  "word_at bs i = push_bit 8 (ucast (bs ! Suc i)) OR ucast (bs ! i)"

lemma word_at_bytes: "ucast (word_at bs i) = bs ! i" "ucast (drop_bit 8 (word_at bs i)) = bs ! Suc i"
  by (rule bit_word_eqI; auto simp: word_at_def bit_simps dest: bit_imp_le_length)+

lemma page_address:
  assumes "n < 2 ^ 20"
  shows "page_of (unat (of_nat (page_of n * SPM_PAGESIZE) :: u32)) = page_of n"
proof -
  have "page_of n * SPM_PAGESIZE \<le> n" by (simp add: page_of_def)
  with assms have "unat (of_nat (page_of n * SPM_PAGESIZE) :: u32) = page_of n * SPM_PAGESIZE" by (subst unat_of_nat) simp
  then show ?thesis by (simp add: page_of_def SPM_PAGESIZE_def)
qed

lemma before_page: "page_of i < page_of (length bs) \<Longrightarrow> (bs @ cs) ! i = bs ! i"
proof -
  assume "page_of i < page_of (length bs)"
  then have "i < length bs" by (simp add: page_of_def SPM_PAGESIZE_def)
  then show ?thesis by (simp add: nth_append)
qed

lemma page_add: "A mod SPM_PAGESIZE = 0 \<Longrightarrow> page_of (A + k) = page_of A + page_of k"
  by (auto simp: page_of_def)

lemma page_offset:
  assumes "A mod SPM_PAGESIZE = 0" and "page_of i = page_of A + q"
  shows "i = A + (q * SPM_PAGESIZE + i mod SPM_PAGESIZE)"
proof -
  have "A = page_of A * SPM_PAGESIZE" using assms(1) by (auto simp: page_of_def)
  moreover have "i = page_of i * SPM_PAGESIZE + i mod SPM_PAGESIZE" by (simp add: page_of_def)
  ultimately show ?thesis using assms(2) by (metis add.assoc distrib_right)
qed

lemma erased_and: "255 AND x = x" for x :: u8
proof -
  have "(255 :: u8) = - 1" by simp
  then show ?thesis by (simp only: and.left_neutral)
qed

lemma page_step:
  assumes "even p"
  shows "p mod SPM_PAGESIZE \<noteq> 254 \<Longrightarrow> page_of (p + 2) = page_of p"
    and "p mod SPM_PAGESIZE \<noteq> 254 \<Longrightarrow> (p + 2) mod SPM_PAGESIZE = p mod SPM_PAGESIZE + 2"
    and "p mod SPM_PAGESIZE = 254 \<Longrightarrow> page_of (p + 2) = Suc (page_of p)"
    and "p mod SPM_PAGESIZE = 254 \<Longrightarrow> (p + 2) mod SPM_PAGESIZE = 0"
proof -
  define a r where "a = p div 256" and "r = p mod 256"
  then have p: "p = a * 256 + r" and r: "r < 256" by simp_all
  from assms have "even r" by (simp add: r_def dvd_mod_iff)
  with r have "r \<noteq> 254 \<Longrightarrow> r + 2 < 256" by presburger
  with r show "p mod SPM_PAGESIZE \<noteq> 254 \<Longrightarrow> page_of (p + 2) = page_of p"
    "p mod SPM_PAGESIZE \<noteq> 254 \<Longrightarrow> (p + 2) mod SPM_PAGESIZE = p mod SPM_PAGESIZE + 2"
    unfolding p page_of_def SPM_PAGESIZE_def add.assoc by (simp_all del: add_2_eq_Suc')
  show "p mod SPM_PAGESIZE = 254 \<Longrightarrow> page_of (p + 2) = Suc (page_of p)"
    "p mod SPM_PAGESIZE = 254 \<Longrightarrow> (p + 2) mod SPM_PAGESIZE = 0"
    using r unfolding p page_of_def SPM_PAGESIZE_def add.assoc by (simp_all del: add_2_eq_Suc')
qed

lemma even_above: "even r \<Longrightarrow> 2 * k < r \<Longrightarrow> Suc (2 * k) < r" for r :: nat
  by presburger

lemma even_next: "even r \<Longrightarrow> 2 * k < r + 2 \<longleftrightarrow> 2 * k < r \<or> k = r div 2" for r :: nat
  by presburger

lemma slot_byte_word:
  assumes "\<And>k. sl k = (if 2 * k < n then Some (word_at bs (b + 2 * k)) else None)" and "even n" and "k < n"
  shows "slot_byte sl k = bs ! (b + k)"
proof -
  from assms have "2 * (k div 2) < n" by linarith
  moreover have "b + 2 * (k div 2) = b + k" if "even k" using that by simp
  moreover have "bs ! Suc (b + 2 * (k div 2)) = bs ! (b + k)" if "odd k"
    by (rule arg_cong [where f = "(!) bs"]) (use that in presburger)
  ultimately show ?thesis
    by (cases "even k") (simp_all add: slot_byte_def assms(1) word_at_bytes Let_def del: odd_two_times_div_two_nat)
qed

lemma slot_byte_none:
  assumes "\<And>k. sl k = (if 2 * k < n then Some (word_at bs (b + 2 * k)) else None)" and "even n" and "n \<le> k"
  shows "slot_byte sl k = 0xFF"
proof -
  from assms(2,3) have "\<not> 2 * (k div 2) < n" by presburger
  then show ?thesis by (simp add: slot_byte_def assms(1) Let_def)
qed

lemma below_length:
  "page_of i < page_of n \<Longrightarrow> i < n"
  "page_of n < page_of i \<Longrightarrow> \<not> i < n"
  "page_of i = page_of n \<Longrightarrow> i < n \<longleftrightarrow> i mod SPM_PAGESIZE < n mod SPM_PAGESIZE"
proof -
  have "page_of n * SPM_PAGESIZE + n mod SPM_PAGESIZE = n" "page_of i * SPM_PAGESIZE + i mod SPM_PAGESIZE = i"
    by (simp_all add: page_of_def)
  then show "page_of i = page_of n \<Longrightarrow> i < n \<longleftrightarrow> i mod SPM_PAGESIZE < n mod SPM_PAGESIZE"
    by (metis add_less_cancel_left)
  show "page_of i < page_of n \<Longrightarrow> i < n" by (simp add: page_of_def SPM_PAGESIZE_def)
  show "page_of n < page_of i \<Longrightarrow> \<not> i < n" unfolding page_of_def using div_le_mono [of i n SPM_PAGESIZE] by linarith
qed

context flash_memory
begin

text \<open>
  The bytes \<open>bs\<close> are being programmed, from address \<open>A\<close> at the start of a page on, into a flash that held \<open>c0\<close>: full pages are
  programmed, the words of the last, partial page wait in the page buffer and that page is erased.
\<close>

definition burning :: "(nat \<Rightarrow> u8) \<Rightarrow> nat \<Rightarrow> u8 list \<Rightarrow> 'f \<Rightarrow> bool" where
  "burning c0 A bs f \<longleftrightarrow> even (length bs) \<and> A mod SPM_PAGESIZE = 0 \<and>
     (\<forall>i. cell f i =
        (if A \<le> i \<and> page_of i < page_of (A + length bs) then bs ! (i - A)
         else if page_of i = page_of (A + length bs) \<and> length bs mod SPM_PAGESIZE \<noteq> 0 then 0xFF else c0 i)) \<and>
     slot f = (\<lambda>k. if 2 * k < length bs mod SPM_PAGESIZE
        then Some (word_at bs (page_of (length bs) * SPM_PAGESIZE + 2 * k)) else None)"

text \<open>A word is added: the page is erased before its first word and programmed after its last one.\<close>

lemma filled:
  fixes lo hi :: u8
  assumes l: "burning c0 A bs f" and n: "A + length bs < 2 ^ 32"
    and a: "length bs mod SPM_PAGESIZE = 0 \<longrightarrow> page_of (unat a) = page_of (A + length bs)"
  defines "g \<equiv> boot_page_fill spm (of_nat (A + length bs)) (push_bit 8 (ucast hi) OR ucast lo)
    (if length bs mod SPM_PAGESIZE = 0 then boot_page_erase spm a f else f)"
  shows "cell g i = (if A \<le> i \<and> page_of i < page_of (A + length bs) then bs ! (i - A)
      else if page_of i = page_of (A + length bs) then 0xFF else c0 i)"
    and "slot g = (\<lambda>k. if 2 * k < length bs mod SPM_PAGESIZE + 2
      then Some (word_at (bs @ [lo, hi]) (page_of (length bs) * SPM_PAGESIZE + 2 * k)) else None)"
proof -
  let ?p = "length bs" and ?g = "if length bs mod SPM_PAGESIZE = 0 then boot_page_erase spm a f else f"
  let ?q = "page_of ?p" and ?r = "?p mod SPM_PAGESIZE"
  from n have u: "unat (of_nat (A + ?p) :: u32) = A + ?p" by (subst unat_of_nat) simp
  have m: "(A + ?p) mod SPM_PAGESIZE = ?r" using l by (simp add: burning_def mod_add_eq [symmetric])
  have p: "?p = ?q * SPM_PAGESIZE + ?r" by (simp add: page_of_def)
  from l show "cell g i = (if A \<le> i \<and> page_of i < page_of (A + ?p) then bs ! (i - A)
      else if page_of i = page_of (A + ?p) then 0xFF else c0 i)"
    using a unfolding g_def cell_fill by (auto simp: burning_def cell_erase)
  have ev: "even ?r" using l by (simp add: burning_def SPM_PAGESIZE_def dvd_mod_iff)
  have sl: "slot ?g = (\<lambda>k. if 2 * k < ?r then Some (word_at bs (?q * SPM_PAGESIZE + 2 * k)) else None)"
    using l by (auto simp: burning_def slot_erase)
  have "slot ?g (?r div 2) = None" using ev by (simp add: sl)
  then have "slot g = (slot ?g)(?r div 2 \<mapsto> push_bit 8 (ucast hi) OR ucast lo)"
    unfolding g_def using slot_fill [of ?g "of_nat (A + ?p)", unfolded u m] by simp
  moreover have "word_at bs (?q * SPM_PAGESIZE + 2 * k) = word_at (bs @ [lo, hi]) (?q * SPM_PAGESIZE + 2 * k)" if "2 * k < ?r" for k
  proof -
    from even_above [OF ev that] have "Suc (2 * k) < ?r" .
    with that p have "?q * SPM_PAGESIZE + 2 * k < ?p" "Suc (?q * SPM_PAGESIZE + 2 * k) < ?p" by linarith+
    then show ?thesis by (simp add: word_at_def nth_append)
  qed
  moreover have "push_bit 8 (ucast hi) OR ucast lo = word_at (bs @ [lo, hi]) (?q * SPM_PAGESIZE + 2 * (?r div 2))"
    using ev p by (simp add: word_at_def nth_append)
  moreover have "2 * k < ?r + 2 \<longleftrightarrow> 2 * k < ?r \<or> k = ?r div 2" for k by (rule even_next [OF ev])
  ultimately show "slot g = (\<lambda>k. if 2 * k < ?r + 2
      then Some (word_at (bs @ [lo, hi]) (?q * SPM_PAGESIZE + 2 * k)) else None)"
    by (auto simp: sl fun_eq_iff)
qed

lemma burn_word:
  fixes lo hi :: u8
  assumes l: "burning c0 A bs f" and n: "A + length bs < 2 ^ 32"
    and a: "length bs mod SPM_PAGESIZE = 0 \<longrightarrow> page_of (unat a) = page_of (A + length bs)"
    and b: "length bs mod SPM_PAGESIZE = 254 \<Longrightarrow> page_of (unat b) = page_of (A + length bs)"
  defines "g \<equiv> boot_page_fill spm (of_nat (A + length bs)) (push_bit 8 (ucast hi) OR ucast lo)
    (if length bs mod SPM_PAGESIZE = 0 then boot_page_erase spm a f else f)"
  shows "burning c0 A (bs @ [lo, hi]) (if length bs mod SPM_PAGESIZE = 254 then boot_page_write spm b g else g)"
proof -
  let ?p = "length bs" and ?q = "page_of (length bs)" and ?r = "length bs mod SPM_PAGESIZE" and ?bs = "bs @ [lo, hi]"
  note g = filled [OF l n a, where lo = lo and hi = hi, folded g_def]
  have A: "A mod SPM_PAGESIZE = 0" and ev: "even ?p" using l by (simp_all add: burning_def)
  have len: "length ?bs = ?p + 2" by simp
  have s: "page_of (A + k) = page_of A + page_of k" for k using A by (rule page_add)
  have m: "(bs @ [lo, hi]) ! (i - A) = bs ! (i - A)" if "A \<le> i" "page_of i < page_of (A + ?p)" for i
    by (rule before_page) (use that s [of "i - A"] s [of ?p] in simp)
  show ?thesis
  proof (cases "?r = 254")
    case False
    note q = page_step(1,2) [OF ev False]
    show ?thesis unfolding burning_def len s q using False ev A g m by (simp add: s)
  next
    case True
    note q = page_step(3,4) [OF ev True]
    have c: "cell g i AND slot_byte (slot g) (i mod SPM_PAGESIZE) = ?bs ! (i - A) \<and> A \<le> i" if "page_of i = page_of (A + ?p)" for i
    proof -
      have "i mod SPM_PAGESIZE < 256" by (simp add: SPM_PAGESIZE_def)
      moreover have "slot g k = (if 2 * k < 256 then Some (word_at ?bs (?q * SPM_PAGESIZE + 2 * k)) else None)" for k
        by (simp add: g True)
      ultimately have "slot_byte (slot g) (i mod SPM_PAGESIZE) = ?bs ! (?q * SPM_PAGESIZE + i mod SPM_PAGESIZE)"
        by (intro slot_byte_word) simp_all
      moreover have "i = A + (?q * SPM_PAGESIZE + i mod SPM_PAGESIZE)" using that by (intro page_offset [OF A]) (simp add: s)
      ultimately show ?thesis using g(1) [of i] that by (simp add: erased_and) (metis add_diff_cancel_left' le_add1)
    qed
    have "cell (boot_page_write spm b g) i = (if A \<le> i \<and> page_of i < page_of (A + ?p) + 1 then ?bs ! (i - A) else c0 i)" for i
      using c [of i] m [of i] g(1) [of i] b [OF True] by (auto simp: cell_write less_Suc_eq)
    then show ?thesis unfolding burning_def len s q using True ev A by (simp add: s slot_write)
  qed
qed

text \<open>When the last page is full, or written although it is not.\<close>

lemma burned:
  assumes l: "burning c0 A bs f" and r: "length bs mod SPM_PAGESIZE = 0"
  shows "cell f i = (if A \<le> i \<and> i < A + length bs then bs ! (i - A) else c0 i)" and "slot f = Map.empty"
proof -
  have "i < A + length bs \<longleftrightarrow> page_of i < page_of (A + length bs)"
  proof -
    have "(A + length bs) mod SPM_PAGESIZE = 0" using l r by (simp add: burning_def mod_add_eq [symmetric])
    then show ?thesis using below_length [of i "A + length bs"] below_length(2) [of "A + length bs" i]
      by (metis less_zeroE linorder_neqE_nat)
  qed
  with l r show "cell f i = (if A \<le> i \<and> i < A + length bs then bs ! (i - A) else c0 i)" by (simp add: burning_def)
  from l r show "slot f = Map.empty" by (simp add: burning_def)
qed

lemma burned_partly:
  assumes l: "burning c0 A bs f" and r: "length bs mod SPM_PAGESIZE \<noteq> 0" and b: "page_of (unat b) = page_of (A + length bs)"
  shows "cell (boot_page_write spm b f) i =
    (if A \<le> i \<and> i < A + length bs then bs ! (i - A) else if page_of i = page_of (A + length bs) then 0xFF else c0 i)"
proof (cases "page_of i = page_of (A + length bs)")
  case False
  then have "page_of i < page_of (A + length bs) \<longleftrightarrow> i < A + length bs"
    using below_length(1) [of i "A + length bs"] below_length(2) [of "A + length bs" i] by linarith
  with False l show ?thesis by (simp add: cell_write b burning_def)
next
  case True
  let ?q = "page_of (length bs)" and ?r = "length bs mod SPM_PAGESIZE"
  have A: "A mod SPM_PAGESIZE = 0" and ev: "even ?r"
    using l by (simp_all add: burning_def SPM_PAGESIZE_def dvd_mod_iff)
  have m: "(A + length bs) mod SPM_PAGESIZE = ?r" using A by (simp add: mod_add_eq [symmetric])
  note lt = below_length(3) [OF True, unfolded m]
  have sl: "slot f k = (if 2 * k < ?r then Some (word_at bs (?q * SPM_PAGESIZE + 2 * k)) else None)" for k
    using l by (simp add: burning_def)
  have i: "i = A + (?q * SPM_PAGESIZE + i mod SPM_PAGESIZE)" using True by (intro page_offset [OF A]) (simp add: page_add A)
  have "slot_byte (slot f) (i mod SPM_PAGESIZE) = (if i < A + length bs then bs ! (i - A) else 0xFF)"
  proof (cases "i mod SPM_PAGESIZE < ?r")
    case True
    from slot_byte_word [OF sl ev this] True lt i show ?thesis by (metis add_diff_cancel_left')
  next
    case False
    then have "?r \<le> i mod SPM_PAGESIZE" by simp
    from slot_byte_none [OF sl ev this] False lt show ?thesis by simp
  qed
  moreover have "A \<le> i" using i by linarith
  moreover have "cell f i = 0xFF" using l r True by (simp add: burning_def)
  ultimately show ?thesis using True by (simp add: cell_write b erased_and)
qed

end

subsection \<open>EEPROM and reads\<close>

text \<open>
  The application section cannot be read after an erasure or a write until it is enabled again, which may empty the page buffer.
  The EEPROM, of 4096 bytes, is separate.
\<close>

record 'f eep =
  eeprom_read_byte :: "u16 \<Rightarrow> 'f \<Rightarrow> u8"
  eeprom_update_byte :: "u16 \<Rightarrow> u8 \<Rightarrow> 'f \<Rightarrow> 'f"

definition E2END :: nat where "E2END = 0xFFF"

locale storage = flash_memory +
  fixes eep :: "'a eep" and ecell :: "'a \<Rightarrow> nat \<Rightarrow> u8" and readable :: "'a \<Rightarrow> bool"
  assumes cell_rww: "cell (boot_rww_enable spm f) = cell f"
    and slot_rww: "slot f = Map.empty \<Longrightarrow> slot (boot_rww_enable spm f) = Map.empty"
    and readable_rww: "readable (boot_rww_enable spm f)"
    and readable_fill: "readable f \<Longrightarrow> readable (boot_page_fill spm a v f)"
    and read_cell: "readable f \<Longrightarrow> pgm_read_byte spm a f = cell f (unat a)"
    and ecell_flash: "ecell (boot_page_erase spm a f) = ecell f" "ecell (boot_page_fill spm a v f) = ecell f"
      "ecell (boot_page_write spm a f) = ecell f" "ecell (boot_rww_enable spm f) = ecell f"
    and read_ecell: "unat b \<le> E2END \<Longrightarrow> eeprom_read_byte eep b f = ecell f (unat b)"
    and ecell_update: "unat b \<le> E2END \<Longrightarrow> ecell (eeprom_update_byte eep b x f) = (ecell f)(unat b := x)"
    and flash_update: "cell (eeprom_update_byte eep b x f) = cell f" "slot (eeprom_update_byte eep b x f) = slot f"
      "readable f \<Longrightarrow> readable (eeprom_update_byte eep b x f)"

subsection \<open>A memory that does so\<close>

record flash_sim =
  cells :: "nat \<Rightarrow> u8"
  slots :: "nat \<Rightarrow> u16 option"
  busy :: bool
  ecells :: "nat \<Rightarrow> u8"

definition sim_spm :: "flash_sim spm" where
  "sim_spm = \<lparr>
     boot_page_erase = (\<lambda>a f. f\<lparr>cells := \<lambda>i. if page_of i = page_of (unat a) then 0xFF else cells f i, busy := True\<rparr>),
     boot_page_fill = (\<lambda>a v f. let k = unat a mod SPM_PAGESIZE div 2 in
       case slots f k of None \<Rightarrow> f\<lparr>slots := (slots f)(k \<mapsto> v)\<rparr> | Some _ \<Rightarrow> f),
     boot_page_write = (\<lambda>a f. f\<lparr>cells := \<lambda>i. if page_of i = page_of (unat a)
         then cells f i AND slot_byte (slots f) (i mod SPM_PAGESIZE) else cells f i, slots := Map.empty, busy := True\<rparr>),
     boot_rww_enable = (\<lambda>f. f\<lparr>slots := Map.empty, busy := False\<rparr>),
     pgm_read_byte = (\<lambda>a f. if busy f then 0xFF else cells f (unat a))\<rparr>"

definition sim_eep :: "flash_sim eep" where
  "sim_eep = \<lparr>
     eeprom_read_byte = (\<lambda>a f. ecells f (unat a mod 4096)),
     eeprom_update_byte = (\<lambda>a v f. f\<lparr>ecells := (ecells f)(unat a mod 4096 := v)\<rparr>)\<rparr>"

text \<open>The memory when every byte is 1.\<close>

definition sim_memory :: flash_sim where
  "sim_memory = \<lparr>cells = \<lambda>_. 1, slots = Map.empty, busy = False, ecells = \<lambda>_. 1\<rparr>"

lemma sim_memory_simps [simp]:
  "cells sim_memory i = 1" "slots sim_memory = Map.empty" "\<not> busy sim_memory" "ecells sim_memory i = 1"
  by (simp_all add: sim_memory_def)

interpretation sim_flash: flash_memory sim_spm cells slots
  by unfold_locales (simp_all add: sim_spm_def Let_def split: option.split)

interpretation sim_storage: storage sim_spm cells slots sim_eep ecells "\<lambda>f. \<not> busy f"
  by unfold_locales (simp_all add: sim_spm_def sim_eep_def E2END_def Let_def split: option.split)

end
