(* ===== verification/Virtual_FAT.thy ===== *)
theory Virtual_FAT
  imports Flash_Memory USB_Endpoint
begin

text \<open>
  The disk of the mass storage boot loader, \<open>Bootloaders/MassStorage/Lib/VirtualFAT\<close>: a FAT12 volume that is made up on the fly, with
  the flash and the EEPROM as its two files. Structures are their bytes in memory. The build is the one of the makefile:
  128 KB of flash, a boot section of 8 KB, no auxiliary section.
\<close>

subsection \<open>Geometry\<close>

definition FLASHEND :: nat where "FLASHEND = 0x1FFFF"
definition AUX_BOOT_SECTION_SIZE :: nat where "AUX_BOOT_SECTION_SIZE = 0"

definition FLASH_FILE_SIZE_BYTES :: nat where
  "FLASH_FILE_SIZE_BYTES = FLASHEND - (FLASHEND - unat BOOT_START_ADDR) - AUX_BOOT_SECTION_SIZE"

definition EEPROM_FILE_SIZE_BYTES :: nat where "EEPROM_FILE_SIZE_BYTES = E2END"

definition SECTOR_PER_CLUSTER :: nat where "SECTOR_PER_CLUSTER = 4"
definition SECTOR_SIZE_BYTES :: nat where "SECTOR_SIZE_BYTES = 512"
definition CLUSTER_SIZE_BYTES :: nat where "CLUSTER_SIZE_BYTES = SECTOR_PER_CLUSTER * SECTOR_SIZE_BYTES"

definition FILE_SECTORS :: "nat \<Rightarrow> nat" where
  "FILE_SECTORS sz = sz div SECTOR_SIZE_BYTES + (if sz mod SECTOR_SIZE_BYTES \<noteq> 0 then 1 else 0)"

definition FILE_CLUSTERS :: "nat \<Rightarrow> nat" where
  "FILE_CLUSTERS sz = sz div CLUSTER_SIZE_BYTES + (if sz mod CLUSTER_SIZE_BYTES \<noteq> 0 then 1 else 0)"

definition LUN_MEDIA_BLOCKS :: nat where
  "LUN_MEDIA_BLOCKS = FILE_SECTORS FLASH_FILE_SIZE_BYTES + FILE_SECTORS EEPROM_FILE_SIZE_BYTES + 32"

definition DISK_BLOCK_BootBlock :: u16 where [simp]: "DISK_BLOCK_BootBlock = 0"
definition DISK_BLOCK_FATBlock1 :: u16 where [simp]: "DISK_BLOCK_FATBlock1 = 1"
definition DISK_BLOCK_FATBlock2 :: u16 where [simp]: "DISK_BLOCK_FATBlock2 = 2"
definition DISK_BLOCK_RootFilesBlock :: u16 where [simp]: "DISK_BLOCK_RootFilesBlock = 3"
definition DISK_BLOCK_DataStartBlock :: u16 where [simp]: "DISK_BLOCK_DataStartBlock = 4"

lemma geometry:
  "FILE_SECTORS FLASH_FILE_SIZE_BYTES = 240" "FILE_CLUSTERS FLASH_FILE_SIZE_BYTES = 60"
  "FILE_SECTORS EEPROM_FILE_SIZE_BYTES = 8" "FILE_CLUSTERS EEPROM_FILE_SIZE_BYTES = 2" "LUN_MEDIA_BLOCKS = 280"
  by (simp_all add: FILE_SECTORS_def FILE_CLUSTERS_def LUN_MEDIA_BLOCKS_def FLASH_FILE_SIZE_BYTES_def EEPROM_FILE_SIZE_BYTES_def
    SECTOR_SIZE_BYTES_def CLUSTER_SIZE_BYTES_def SECTOR_PER_CLUSTER_def FLASHEND_def AUX_BOOT_SECTION_SIZE_def BOOT_START_ADDR_def
    E2END_def)

subsection \<open>The boot block and the directory\<close>

definition text_bytes :: "string \<Rightarrow> u8 list" where
  "text_bytes s = map of_char s"

definition FAT_TIME :: "u16 \<Rightarrow> u16 \<Rightarrow> u16 \<Rightarrow> u16" where
  "FAT_TIME hh mm ss = (push_bit 11 hh OR push_bit 5 mm) OR drop_bit 1 ss"

definition FAT_DATE :: "u16 \<Rightarrow> u16 \<Rightarrow> u16 \<Rightarrow> u16" where
  "FAT_DATE dd mm yyyy = (push_bit 9 (yyyy - 1980) OR push_bit 5 mm) OR push_bit 0 dd"

definition ROT8 :: "int \<Rightarrow> int" where
  "ROT8 x = drop_bit 1 (x AND 0xFE) OR (if x AND 1 \<noteq> 0 then 0x80 else 0)"

text \<open>\<open>FAT_CHECKSUM\<close>: every character but the first is added to the rotated sum.\<close>

fun FAT_CHECKSUM :: "int list \<Rightarrow> int" where
  "FAT_CHECKSUM [] = 0"
| "FAT_CHECKSUM (n # ns) = foldl (\<lambda>sum c. ROT8 sum + c) n ns"

definition BootBlock :: "u8 list" where
  "BootBlock = [0xEB, 0x3C, 0x90] @ text_bytes ''mkdosfs'' @ [0] @ bytes16 (of_nat SECTOR_SIZE_BYTES) @
     [of_nat SECTOR_PER_CLUSTER] @ bytes16 1 @ [2] @ bytes16 (of_nat (SECTOR_SIZE_BYTES div 32)) @
     bytes16 (of_nat LUN_MEDIA_BLOCKS) @ [0xF8] @ bytes16 1 @ bytes16 (of_nat (LUN_MEDIA_BLOCKS mod 64)) @
     bytes16 (of_nat (LUN_MEDIA_BLOCKS div 64)) @ bytes32 0 @ bytes32 0 @ bytes16 0 @ [0x29] @ bytes32 0x12345678 @
     text_bytes ''LUFA BOOT  '' @ text_bytes ''FAT12   ''"

definition MediaDescriptor :: u8 where "MediaDescriptor = BootBlock ! 21"

text \<open>The three views of a directory entry, each of 32 bytes.\<close>

definition VFAT_LongFileName :: "u8 \<Rightarrow> u16 list \<Rightarrow> u8 \<Rightarrow> u8 \<Rightarrow> u8 \<Rightarrow> u16 \<Rightarrow> u8 list" where
  "VFAT_LongFileName Ordinal Unicode Attribute Reserved1 Checksum Reserved2 =
     [Ordinal] @ concat (map bytes16 (take 5 Unicode)) @ [Attribute, Reserved1, Checksum] @
     concat (map bytes16 (take 6 (drop 5 Unicode))) @ bytes16 Reserved2 @ concat (map bytes16 (drop 11 Unicode))"

definition MSDOS_File :: "u8 list \<Rightarrow> u8 list \<Rightarrow> u8 \<Rightarrow> u8 list \<Rightarrow> u16 \<Rightarrow> u16 \<Rightarrow> u16 \<Rightarrow> u32 \<Rightarrow> u8 list" where
  "MSDOS_File Filename Extension Attributes Reserved CreationTime CreationDate StartingCluster FileSizeBytes =
     Filename @ Extension @ [Attributes] @ Reserved @ bytes16 CreationTime @ bytes16 CreationDate @
     bytes16 StartingCluster @ bytes32 FileSizeBytes"

definition MSDOS_Directory :: "u8 list \<Rightarrow> u8 \<Rightarrow> u8 list \<Rightarrow> u16 \<Rightarrow> u16 \<Rightarrow> u16 \<Rightarrow> u32 \<Rightarrow> u8 list" where
  "MSDOS_Directory Name Attributes Reserved CreationTime CreationDate StartingCluster Reserved2 =
     Name @ [Attributes] @ Reserved @ bytes16 CreationTime @ bytes16 CreationDate @ bytes16 StartingCluster @ bytes32 Reserved2"

definition FAT_FLAG_VOLUME_NAME :: u8 where "FAT_FLAG_VOLUME_NAME = push_bit 3 1"
definition FAT_FLAG_LONG_FILE_NAME :: u8 where "FAT_FLAG_LONG_FILE_NAME = 0x0F"
definition FAT_ORDINAL_LAST_ENTRY :: u8 where "FAT_ORDINAL_LAST_ENTRY = push_bit 6 1"

definition FirmwareFileEntries_init :: "u8 list" where
  "FirmwareFileEntries_init =
     MSDOS_Directory (text_bytes ''LUFA BOOT  '') FAT_FLAG_VOLUME_NAME (replicate 10 0) 0 0 0 0 @
     VFAT_LongFileName (1 OR FAT_ORDINAL_LAST_ENTRY) (map of_char ''FLASH.BIN'' @ [0, 0, 0, 0]) FAT_FLAG_LONG_FILE_NAME 0
       (word_of_int (FAT_CHECKSUM (map of_char ''FLASH   BIN''))) 0 @
     MSDOS_File (text_bytes ''FLASH   '') (text_bytes ''BIN'') 0 (replicate 10 0) (FAT_TIME 1 1 0) (FAT_DATE 14 2 1989) 2
       (of_nat FLASH_FILE_SIZE_BYTES) @
     VFAT_LongFileName (1 OR FAT_ORDINAL_LAST_ENTRY) (map of_char ''EEPROM.BIN'' @ [0, 0, 0]) FAT_FLAG_LONG_FILE_NAME 0
       (word_of_int (FAT_CHECKSUM (map of_char ''EEPROM  BIN''))) 0 @
     MSDOS_File (text_bytes ''EEPROM  '') (text_bytes ''BIN'') 0 (replicate 10 0) (FAT_TIME 1 1 0) (FAT_DATE 14 2 1989)
       (2 + of_nat (FILE_CLUSTERS FLASH_FILE_SIZE_BYTES)) (of_nat EEPROM_FILE_SIZE_BYTES)"

definition DISK_FILE_ENTRY_FLASH_MSDOS :: nat where "DISK_FILE_ENTRY_FLASH_MSDOS = 2"
definition DISK_FILE_ENTRY_EEPROM_MSDOS :: nat where "DISK_FILE_ENTRY_EEPROM_MSDOS = 4"

text \<open>The directory, which the host may rewrite, and the memories.\<close>

record 'f vfat =
  FirmwareFileEntries :: "u8 list"
  memory :: 'f

definition StartingCluster :: "nat \<Rightarrow> u8 list \<Rightarrow> u16" where
  "StartingCluster entry es = word16 (take 2 (drop (32 * entry + 26) es))"

definition FLASHFileStartCluster :: "('f, 'z) vfat_scheme \<Rightarrow> u16" where
  "FLASHFileStartCluster s = StartingCluster DISK_FILE_ENTRY_FLASH_MSDOS (FirmwareFileEntries s)"

definition EEPROMFileStartCluster :: "('f, 'z) vfat_scheme \<Rightarrow> u16" where
  "EEPROMFileStartCluster s = StartingCluster DISK_FILE_ENTRY_EEPROM_MSDOS (FirmwareFileEntries s)"

subsection \<open>The allocation table\<close>

definition UpdateFAT12ClusterEntry :: "u8 list \<Rightarrow> u16 \<Rightarrow> u16 \<Rightarrow> u8 list" where
  "UpdateFAT12ClusterEntry FATTable Index ChainEntry =
    (let FATOffset = unat (ucast (Index + drop_bit 1 Index) :: u8); UpperNibble = Index AND 1 \<noteq> 0 in
     if UpperNibble then
       let FATTable = FATTable[FATOffset := (FATTable ! FATOffset AND 0x0F) OR ucast (push_bit 4 (ChainEntry AND 0x0F))]
       in FATTable[FATOffset + 1 := ucast (drop_bit 4 ChainEntry)]
     else
       let FATTable = FATTable[FATOffset := ucast ChainEntry]
       in FATTable[FATOffset + 1 := (FATTable ! FATOffset AND 0xF0) OR ucast (drop_bit 8 ChainEntry)])"

text \<open>The iteration \<open>i\<close> of the loop that writes a chain.\<close>

definition chain_link :: "u16 \<Rightarrow> nat \<Rightarrow> nat \<Rightarrow> u8 list \<Rightarrow> u8 list" where
  "chain_link Index ChainLength i FATTable =
    (let CurrentCluster = Index + of_nat i;
         NextCluster = (if i = ChainLength - 1 then 0xFFF else CurrentCluster + 1)
     in UpdateFAT12ClusterEntry FATTable CurrentCluster NextCluster)"

definition UpdateFAT12ClusterChain :: "u8 list \<Rightarrow> u16 \<Rightarrow> u8 \<Rightarrow> u8 list" where
  "UpdateFAT12ClusterChain FATTable Index ChainLength =
     fold (chain_link Index (unat ChainLength)) [0..<unat ChainLength] FATTable"

subsection \<open>The files\<close>

definition BootloaderAPI_ErasePage :: "'f spm \<Rightarrow> u32 \<Rightarrow> 'f \<Rightarrow> 'f" where
  "BootloaderAPI_ErasePage p a f = boot_rww_enable p (boot_page_erase p a f)"

definition BootloaderAPI_WritePage :: "'f spm \<Rightarrow> u32 \<Rightarrow> 'f \<Rightarrow> 'f" where
  "BootloaderAPI_WritePage p a f = boot_rww_enable p (boot_page_write p a f)"

definition BootloaderAPI_FillWord :: "'f spm \<Rightarrow> u32 \<Rightarrow> u16 \<Rightarrow> 'f \<Rightarrow> 'f" where
  "BootloaderAPI_FillWord p a Word f = boot_page_fill p a Word f"

definition ReadEEPROMByte :: "'f eep \<Rightarrow> u16 \<Rightarrow> 'f \<Rightarrow> u8" where
  "ReadEEPROMByte e a f = eeprom_read_byte e a f"

definition WriteEEPROMByte :: "'f eep \<Rightarrow> u16 \<Rightarrow> u8 \<Rightarrow> 'f \<Rightarrow> 'f" where
  "WriteEEPROMByte e a Data f = eeprom_update_byte e a Data f"

definition file_start_block :: "u16 \<Rightarrow> u16" where
  "file_start_block cluster = DISK_BLOCK_DataStartBlock + (cluster - 2) * of_nat SECTOR_PER_CLUSTER"

definition file_end_block :: "u16 \<Rightarrow> nat \<Rightarrow> u16" where
  "file_end_block start sz = start + (of_nat (FILE_SECTORS sz) - 1)"

definition in_file :: "u16 \<Rightarrow> nat \<Rightarrow> u16 \<Rightarrow> bool" where
  "in_file start sz BlockNumber \<longleftrightarrow> start \<le> BlockNumber \<and> BlockNumber \<le> file_end_block start sz"

text \<open>The iteration \<open>i\<close> of the loop that programs a block, with \<open>FlashAddress\<close> and the memory as its state.\<close>

definition flash_word :: "'f spm \<Rightarrow> u8 list \<Rightarrow> nat \<Rightarrow> u32 \<times> 'f \<Rightarrow> u32 \<times> 'f" where
  "flash_word p BlockBuffer i = (\<lambda>(FlashAddress, f).
     let f = (if FlashAddress mod of_nat SPM_PAGESIZE = 0 then BootloaderAPI_ErasePage p FlashAddress f else f);
         f = BootloaderAPI_FillWord p FlashAddress (push_bit 8 (ucast (BlockBuffer ! (i + 1))) OR ucast (BlockBuffer ! i)) f;
         FlashAddress = FlashAddress + 2;
         f = (if FlashAddress mod of_nat SPM_PAGESIZE = 0
              then BootloaderAPI_WritePage p (FlashAddress - of_nat SPM_PAGESIZE) f else f)
     in (FlashAddress, f))"

definition ReadFLASHFileBlock :: "'f spm \<Rightarrow> u16 \<Rightarrow> u8 list \<Rightarrow> ('f, 'z) vfat_scheme \<Rightarrow> u8 list" where
  "ReadFLASHFileBlock p BlockNumber BlockBuffer s =
    (let FileStartBlock = file_start_block (FLASHFileStartCluster s) in
     if \<not> in_file FileStartBlock FLASH_FILE_SIZE_BYTES BlockNumber then BlockBuffer
     else let FlashAddress = ucast (BlockNumber - FileStartBlock) * of_nat SECTOR_SIZE_BYTES in
       map (\<lambda>i. pgm_read_byte p (FlashAddress + of_nat i) (memory s)) [0..<SECTOR_SIZE_BYTES])"

definition WriteFLASHFileBlock :: "'f spm \<Rightarrow> u16 \<Rightarrow> u8 list \<Rightarrow> ('f, 'z) vfat_scheme \<Rightarrow> ('f, 'z) vfat_scheme" where
  "WriteFLASHFileBlock p BlockNumber BlockBuffer s =
    (let FileStartBlock = file_start_block (FLASHFileStartCluster s) in
     if \<not> in_file FileStartBlock FLASH_FILE_SIZE_BYTES BlockNumber then s
     else let FlashAddress = ucast (BlockNumber - FileStartBlock) * of_nat SECTOR_SIZE_BYTES in
       s\<lparr>memory := snd (fold (flash_word p BlockBuffer) (map ((*) 2) [0..<SECTOR_SIZE_BYTES div 2]) (FlashAddress, memory s))\<rparr>)"

definition ReadEEPROMFileBlock :: "'f eep \<Rightarrow> u16 \<Rightarrow> u8 list \<Rightarrow> ('f, 'z) vfat_scheme \<Rightarrow> u8 list" where
  "ReadEEPROMFileBlock e BlockNumber BlockBuffer s =
    (let FileStartBlock = file_start_block (EEPROMFileStartCluster s) in
     if \<not> in_file FileStartBlock EEPROM_FILE_SIZE_BYTES BlockNumber then BlockBuffer
     else let EEPROMAddress = (BlockNumber - FileStartBlock) * of_nat SECTOR_SIZE_BYTES in
       map (\<lambda>i. ReadEEPROMByte e (EEPROMAddress + of_nat i) (memory s)) [0..<SECTOR_SIZE_BYTES])"

definition WriteEEPROMFileBlock :: "'f eep \<Rightarrow> u16 \<Rightarrow> u8 list \<Rightarrow> ('f, 'z) vfat_scheme \<Rightarrow> ('f, 'z) vfat_scheme" where
  "WriteEEPROMFileBlock e BlockNumber BlockBuffer s =
    (let FileStartBlock = file_start_block (EEPROMFileStartCluster s) in
     if \<not> in_file FileStartBlock EEPROM_FILE_SIZE_BYTES BlockNumber then s
     else let EEPROMAddress = (BlockNumber - FileStartBlock) * of_nat SECTOR_SIZE_BYTES in
       s\<lparr>memory := fold (\<lambda>i. WriteEEPROMByte e (EEPROMAddress + of_nat i) (BlockBuffer ! i)) [0..<SECTOR_SIZE_BYTES] (memory s)\<rparr>)"

subsection \<open>The blocks\<close>

text \<open>What is done with a block that the host wrote, and the block that is made up for the host.\<close>

definition store_block :: "'f spm \<Rightarrow> 'f eep \<Rightarrow> u16 \<Rightarrow> u8 list \<Rightarrow> ('f, 'z) vfat_scheme \<Rightarrow> ('f, 'z) vfat_scheme" where
  "store_block p e BlockNumber BlockBuffer s =
    (if BlockNumber = DISK_BLOCK_BootBlock \<or> BlockNumber = DISK_BLOCK_FATBlock1 \<or> BlockNumber = DISK_BLOCK_FATBlock2 then s
     else if BlockNumber = DISK_BLOCK_RootFilesBlock
     then s\<lparr>FirmwareFileEntries := take (length FirmwareFileEntries_init) BlockBuffer\<rparr>
     else WriteEEPROMFileBlock e BlockNumber BlockBuffer (WriteFLASHFileBlock p BlockNumber BlockBuffer s))"

definition make_block :: "'f spm \<Rightarrow> 'f eep \<Rightarrow> u16 \<Rightarrow> ('f, 'z) vfat_scheme \<Rightarrow> u8 list" where
  "make_block p e BlockNumber s =
    (let BlockBuffer = replicate SECTOR_SIZE_BYTES 0 in
     if BlockNumber = DISK_BLOCK_BootBlock then
       (BootBlock @ drop (length BootBlock) BlockBuffer)[SECTOR_SIZE_BYTES - 2 := 0x55, SECTOR_SIZE_BYTES - 1 := 0xAA]
     else if BlockNumber = DISK_BLOCK_FATBlock1 \<or> BlockNumber = DISK_BLOCK_FATBlock2 then
       let BlockBuffer = UpdateFAT12ClusterEntry BlockBuffer 0 (0xF00 OR ucast MediaDescriptor);
           BlockBuffer = UpdateFAT12ClusterEntry BlockBuffer 1 0xFFF;
           BlockBuffer = UpdateFAT12ClusterChain BlockBuffer (FLASHFileStartCluster s) (of_nat (FILE_CLUSTERS FLASH_FILE_SIZE_BYTES))
       in UpdateFAT12ClusterChain BlockBuffer (EEPROMFileStartCluster s) (of_nat (FILE_CLUSTERS EEPROM_FILE_SIZE_BYTES))
     else if BlockNumber = DISK_BLOCK_RootFilesBlock then
       FirmwareFileEntries s @ drop (length FirmwareFileEntries_init) BlockBuffer
     else ReadEEPROMFileBlock e BlockNumber (ReadFLASHFileBlock p BlockNumber BlockBuffer s) s)"

text \<open>The transfers: the buffer holds whatever was on the stack before it is read from the host.\<close>

definition VirtualFAT_WriteBlock ::
    "'w mcu \<Rightarrow> 'f spm \<Rightarrow> 'f eep \<Rightarrow> u8 list \<Rightarrow> u16 \<Rightarrow> (('f, 'z) vfat_scheme, 'w) dev \<Rightarrow> (('f, 'z) vfat_scheme, 'w) dev option" where
  "VirtualFAT_WriteBlock m p e stack BlockNumber s = do {
     ((_, _, BlockBuffer), s) \<leftarrow> Endpoint_Read_Stream_LE m stack (of_nat SECTOR_SIZE_BYTES) None s;
     let s = Endpoint_ClearOUT m s in
     Some (s\<lparr>app := store_block p e BlockNumber BlockBuffer (app s)\<rparr>) }"

definition VirtualFAT_ReadBlock ::
    "'w mcu \<Rightarrow> 'f spm \<Rightarrow> 'f eep \<Rightarrow> u16 \<Rightarrow> (('f, 'z) vfat_scheme, 'w) dev \<Rightarrow> (('f, 'z) vfat_scheme, 'w) dev option" where
  "VirtualFAT_ReadBlock m p e BlockNumber s = do {
     (_, s) \<leftarrow> Endpoint_Write_Stream_LE m (make_block p e BlockNumber (app s)) (of_nat SECTOR_SIZE_BYTES) None s;
     Some (Endpoint_ClearIN m s) }"

subsection \<open>Chains\<close>

text \<open>The entry of a cluster as the FAT12 format defines it.\<close>

definition fat12_entry :: "u8 list \<Rightarrow> nat \<Rightarrow> u16" where
  "fat12_entry FATTable k = (let i = k + k div 2 in
     if even k then ucast (FATTable ! i) OR push_bit 8 (ucast (FATTable ! (i + 1) AND 0x0F))
     else ucast (drop_bit 4 (FATTable ! i)) OR push_bit 4 (ucast (FATTable ! (i + 1))))"

lemma entry_offset:
  assumes "j \<le> 170"
  shows "unat (ucast (of_nat j + drop_bit 1 (of_nat j :: u16) :: u16) :: u8) = j + j div 2" and "(of_nat j :: u16) AND 1 \<noteq> 0 \<longleftrightarrow> odd j"
proof -
  have "unat (of_nat j :: u16) = j" using assms by (simp add: unat_of_nat)
  then have "unat (drop_bit 1 (of_nat j :: u16)) = j div 2" by (simp add: drop_bit_eq_div unat_div_distrib)
  then have "(drop_bit 1 (of_nat j :: u16)) = of_nat (j div 2)" using assms by (simp add: word_unat_eq_iff unat_of_nat)
  then have e: "of_nat j + drop_bit 1 (of_nat j :: u16) = of_nat (j + j div 2)" by simp
  have l: "j + j div 2 < 2 ^ LENGTH(8)" using assms by simp
  then have "unat (of_nat (j + j div 2) :: u16) = j + j div 2" by (subst unat_of_nat) simp
  then show "unat (ucast (of_nat j + drop_bit 1 (of_nat j :: u16) :: u16) :: u8) = j + j div 2"
    using take_bit_nat_eq_self [OF l] unfolding e by (simp only: unsigned_ucast_eq)
  have "odd (of_nat j :: u16) = odd j" unfolding bit_0 [symmetric] by (simp add: bit_simps del: bit_0)
  then show "(of_nat j :: u16) AND 1 \<noteq> 0 \<longleftrightarrow> odd j" by (simp add: and_one_eq mod_2_eq_odd)
qed

lemma UpdateFAT12ClusterEntry_nat:
  assumes "j \<le> 170"
  shows "UpdateFAT12ClusterEntry T (of_nat j) v = (let i = j + j div 2 in
    if odd j then T[i := (T ! i AND 0x0F) OR ucast (push_bit 4 (v AND 0x0F)), i + 1 := ucast (drop_bit 4 v)]
    else (T[i := ucast v])[i + 1 := (T[i := ucast v] ! i AND 0xF0) OR ucast (drop_bit 8 v)])"
  by (simp only: UpdateFAT12ClusterEntry_def entry_offset [OF assms] Let_def)

lemma nibble_bits: "bit (0x0F :: int) n \<longleftrightarrow> n < 4" "bit (0xF0 :: int) n \<longleftrightarrow> 4 \<le> n \<and> n < 8"
proof -
  have m: "(0x0F :: int) = mask 4" "(0xF0 :: int) = push_bit 4 (mask 4)" by (simp_all add: mask_eq_exp_minus_1)
  show "bit (0x0F :: int) n \<longleftrightarrow> n < 4" "bit (0xF0 :: int) n \<longleftrightarrow> 4 \<le> n \<and> n < 8"
    unfolding m bit_push_bit_iff bit_mask_iff possible_bit_def by auto
qed

lemma twelve_bits:
  assumes "v < (0x1000 :: u16)" and "bit v n"
  shows "n < 12"
proof (rule ccontr)
  assume "\<not> n < 12"
  have "unat v < 4096" using assms(1) by (simp add: word_less_nat_alt)
  then have "drop_bit 12 v = 0" by (simp add: drop_bit_eq_div word_unat_eq_iff unat_div_distrib)
  then have "\<not> bit (drop_bit 12 v) (n - 12)" by simp
  with \<open>\<not> n < 12\<close> assms(2) show False by (simp add: bit_simps)
qed

lemma length_entry [simp]: "length (UpdateFAT12ClusterEntry T i v) = length T"
  by (simp add: UpdateFAT12ClusterEntry_def Let_def)

lemma entry_written:
  assumes "j \<le> 170" and "257 \<le> length T" and "v < 0x1000"
  shows "fat12_entry (UpdateFAT12ClusterEntry T (of_nat j) v) j = v"
proof -
  have i: "j + j div 2 < length T" "Suc (j + j div 2) < length T" using assms(1,2) by linarith+
  show ?thesis
  proof (rule bit_word_eqI)
    fix n
    show "bit (fat12_entry (UpdateFAT12ClusterEntry T (of_nat j) v) j) n \<longleftrightarrow> bit v n"
      using i twelve_bits [OF assms(3), of n] unfolding UpdateFAT12ClusterEntry_nat [OF assms(1)] fat12_entry_def Let_def
      by (cases "even j"; cases "n < 4") (auto simp: bit_simps nibble_bits)
  qed
qed

lemma entry_order:
  "a + 2 \<le> b \<or> b = a + 1 \<and> odd a \<Longrightarrow> a + a div 2 + 1 < b + b div 2" for a b :: nat
proof (elim disjE conjE)
  assume "a + 2 \<le> b"
  from this div_le_mono [OF this, of 2] show ?thesis by simp
qed (auto elim: oddE)

lemma entry_kept:
  assumes j: "j \<le> 170" and l: "257 \<le> length T" and k: "k < j \<or> j + 1 < k \<or> k = j + 1 \<and> odd j"
  shows "fat12_entry (UpdateFAT12ClusterEntry T (of_nat j) v) k = fat12_entry T k"
proof (cases "even k \<and> j = k + 1")
  case True
  then have i: "j + j div 2 = k + k div 2 + 1" by (auto elim: evenE)
  have "k + k div 2 + 2 < length T" using j l i by linarith
  with True show ?thesis unfolding UpdateFAT12ClusterEntry_nat [OF j] fat12_entry_def Let_def i
    by (auto intro!: bit_word_eqI simp: bit_simps nibble_bits)
next
  case False
  then have "k + 2 \<le> j \<or> j = k + 1 \<and> odd k \<or> j + 2 \<le> k \<or> k = j + 1 \<and> odd j" using k by auto
  then have "k + k div 2 + 1 < j + j div 2 \<or> j + j div 2 + 1 < k + k div 2" using entry_order by blast
  then show ?thesis unfolding UpdateFAT12ClusterEntry_nat [OF j] fat12_entry_def Let_def by auto
qed

text \<open>
  A chain has been written up to the cluster \<open>s + i\<close>; the entry behind it may be damaged.
\<close>

lemma chain_prefix:
  assumes n: "1 \<le> n" "s + n \<le> 170" and l: "257 \<le> length T" and i: "i \<le> n"
  defines "U \<equiv> fold (chain_link (of_nat s) n) [0..<i] T"
  shows "length U = length T \<and>
    (\<forall>k. s \<le> k \<and> k < s + i \<longrightarrow> fat12_entry U k = (if k = s + n - 1 then 0xFFF else of_nat (k + 1))) \<and>
    (\<forall>k. k < s \<or> s + i < k \<or> k = s + i \<and> even k \<longrightarrow> fat12_entry U k = fat12_entry T k)"
  unfolding U_def using i
proof (induction i)
  case 0
  then show ?case by auto
next
  case (Suc i)
  let ?U = "fold (chain_link (of_nat s) n) [0..<i] T" and ?v = "if i = n - 1 then 0xFFF else of_nat (s + i + 1) :: u16"
  have IH: "length ?U = length T"
    "\<And>k. s \<le> k \<Longrightarrow> k < s + i \<Longrightarrow> fat12_entry ?U k = (if k = s + n - 1 then 0xFFF else of_nat (k + 1))"
    "\<And>k. k < s \<or> s + i < k \<or> k = s + i \<and> even k \<Longrightarrow> fat12_entry ?U k = fat12_entry T k"
    using Suc.IH Suc.prems by (simp, simp, auto)
  have j: "s + i \<le> 170" using Suc.prems n by simp
  have "unat (of_nat (s + i + 1) :: u16) = s + i + 1" using Suc.prems n by (subst unat_of_nat) simp
  then have v: "?v < 0x1000" using j by (simp add: word_less_nat_alt)
  have U: "fold (chain_link (of_nat s) n) [0..<Suc i] T = UpdateFAT12ClusterEntry ?U (of_nat (s + i)) ?v"
    by (simp add: chain_link_def Let_def ac_simps)
  note w = entry_written [OF j _ v, of ?U] entry_kept [OF j, of ?U _ ?v]
  show ?case unfolding U
  proof (intro conjI allI impI)
    show "length (UpdateFAT12ClusterEntry ?U (of_nat (s + i)) ?v) = length T" using IH(1) by simp
  next
    fix k
    assume k: "s \<le> k \<and> k < s + Suc i"
    show "fat12_entry (UpdateFAT12ClusterEntry ?U (of_nat (s + i)) ?v) k = (if k = s + n - 1 then 0xFFF else of_nat (k + 1))"
      using k w IH l n Suc.prems by (cases "k = s + i") auto
  next
    fix k
    assume "k < s \<or> s + Suc i < k \<or> k = s + Suc i \<and> even k"
    then show "fat12_entry (UpdateFAT12ClusterEntry ?U (of_nat (s + i)) ?v) k = fat12_entry T k"
      using w(2) [of k] IH l by auto
  qed
qed

subsection \<open>The files as a disk\<close>

definition flash_start :: "('f, 'z) vfat_scheme \<Rightarrow> u16" where
  "flash_start s = file_start_block (FLASHFileStartCluster s)"

definition eeprom_start :: "('f, 'z) vfat_scheme \<Rightarrow> u16" where
  "eeprom_start s = file_start_block (EEPROMFileStartCluster s)"

text \<open>The directory places the two files behind the directory, inside the disk and apart from each other.\<close>

definition files_apart :: "('f, 'z) vfat_scheme \<Rightarrow> bool" where
  "files_apart s \<longleftrightarrow> (let fs = unat (flash_start s); es = unat (eeprom_start s) in
     4 \<le> fs \<and> 4 \<le> es \<and> fs + 240 \<le> 65536 \<and> es + 8 \<le> 65536 \<and> (fs + 240 \<le> es \<or> es + 8 \<le> fs))"

definition flash_block_of :: "('f, 'z) vfat_scheme \<Rightarrow> u16 \<Rightarrow> bool" where
  "flash_block_of s b \<longleftrightarrow> in_file (flash_start s) FLASH_FILE_SIZE_BYTES b"

definition eeprom_block_of :: "('f, 'z) vfat_scheme \<Rightarrow> u16 \<Rightarrow> bool" where
  "eeprom_block_of s b \<longleftrightarrow> in_file (eeprom_start s) EEPROM_FILE_SIZE_BYTES b"

lemma in_file_nat:
  assumes "0 < FILE_SECTORS sz" and "unat st + FILE_SECTORS sz \<le> 65536"
  shows "in_file st sz b \<longleftrightarrow> unat st \<le> unat b \<and> unat b < unat st + FILE_SECTORS sz"
proof -
  have "file_end_block st sz = of_nat (unat st + (FILE_SECTORS sz - 1))"
    using assms(1) by (simp add: file_end_block_def of_nat_diff)
  moreover have "unat (of_nat (unat st + (FILE_SECTORS sz - 1)) :: u16) = unat st + (FILE_SECTORS sz - 1)"
    using assms by (subst unat_of_nat) simp
  ultimately show ?thesis using assms(1) by (auto simp: in_file_def word_le_nat_alt)
qed

lemma block_offset: "st \<le> b \<Longrightarrow> b - st = of_nat (unat b - unat st)" for b st :: u16
  by (simp add: word_le_nat_alt of_nat_diff)

lemma file_blocks:
  assumes "files_apart s"
  shows "flash_block_of s b \<longleftrightarrow> unat (flash_start s) \<le> unat b \<and> unat b < unat (flash_start s) + 240"
    and "eeprom_block_of s b \<longleftrightarrow> unat (eeprom_start s) \<le> unat b \<and> unat b < unat (eeprom_start s) + 8"
    and "flash_block_of s b \<Longrightarrow> \<not> eeprom_block_of s b"
    and "flash_block_of s b \<or> eeprom_block_of s b \<Longrightarrow> b \<noteq> 0 \<and> b \<noteq> 1 \<and> b \<noteq> 2 \<and> b \<noteq> 3"
proof -
  show f: "flash_block_of s b \<longleftrightarrow> unat (flash_start s) \<le> unat b \<and> unat b < unat (flash_start s) + 240"
    using assms in_file_nat [of FLASH_FILE_SIZE_BYTES "flash_start s" b] by (simp add: flash_block_of_def files_apart_def geometry Let_def)
  show e: "eeprom_block_of s b \<longleftrightarrow> unat (eeprom_start s) \<le> unat b \<and> unat b < unat (eeprom_start s) + 8"
    using assms in_file_nat [of EEPROM_FILE_SIZE_BYTES "eeprom_start s" b] by (simp add: eeprom_block_of_def files_apart_def geometry Let_def)
  show "flash_block_of s b \<Longrightarrow> \<not> eeprom_block_of s b" using assms unfolding f e files_apart_def Let_def by linarith
  assume "flash_block_of s b \<or> eeprom_block_of s b"
  then have "4 \<le> unat b" using assms unfolding f e files_apart_def Let_def by linarith
  then show "b \<noteq> 0 \<and> b \<noteq> 1 \<and> b \<noteq> 2 \<and> b \<noteq> 3" by auto
qed

text \<open>The addresses of the blocks.\<close>

definition block_address :: "u16 \<Rightarrow> u16 \<Rightarrow> nat" where
  "block_address st b = SECTOR_SIZE_BYTES * (unat b - unat st)"

lemma block_address_flash:
  assumes "st \<le> b"
  shows "(ucast (b - st) * of_nat SECTOR_SIZE_BYTES :: u32) = of_nat (block_address st b)"
proof -
  have "unat b < 65536" using unsigned_less [of b] by simp
  then have "unat b - unat st < 65536" by simp
  then have "(ucast (b - st) :: u32) = of_nat (unat b - unat st)"
    unfolding block_offset [OF assms] by (simp add: word_unat_eq_iff unat_of_nat unsigned_ucast_eq take_bit_nat_eq_self)
  then show ?thesis by (simp add: block_address_def ac_simps)
qed

lemma block_address_eeprom:
  assumes "st \<le> b"
  shows "((b - st) * of_nat SECTOR_SIZE_BYTES :: u16) = of_nat (block_address st b)"
  unfolding block_offset [OF assms] by (simp add: block_address_def ac_simps)

lemma block_address_less:
  assumes "st \<le> b" and "unat b < unat st + n"
  shows "block_address st b + SECTOR_SIZE_BYTES \<le> n * SECTOR_SIZE_BYTES"
proof -
  have "unat b - unat st + 1 \<le> n" using assms by (simp add: word_le_nat_alt)
  then have "(unat b - unat st + 1) * SECTOR_SIZE_BYTES \<le> n * SECTOR_SIZE_BYTES" by (rule mult_right_mono) simp
  then show ?thesis by (simp add: block_address_def algebra_simps)
qed

lemma block_address_aligned: "block_address st b mod SPM_PAGESIZE = 0"
  by (simp add: block_address_def SECTOR_SIZE_BYTES_def SPM_PAGESIZE_def mod_eq_0_iff_dvd)

lemma block_apart:
  assumes "st \<le> b" "st \<le> b'" "b \<noteq> b'" and "j < SECTOR_SIZE_BYTES"
  shows "\<not> (block_address st b \<le> block_address st b' + j \<and> block_address st b' + j < block_address st b + SECTOR_SIZE_BYTES)"
proof -
  have "unat b - unat st \<noteq> unat b' - unat st" using assms(1-3) by (simp add: word_le_nat_alt word_unat_eq_iff)
  moreover have "(block_address st b' + j) div SECTOR_SIZE_BYTES = unat b' - unat st"
    using assms(4) by (simp add: block_address_def)
  moreover have "(block_address st b' + j) div SECTOR_SIZE_BYTES = unat b - unat st"
    if "block_address st b \<le> block_address st b' + j" "block_address st b' + j < block_address st b + SECTOR_SIZE_BYTES"
    using that by (intro div_nat_eqI) (simp_all add: block_address_def algebra_simps)
  ultimately show ?thesis by metis
qed

lemma page_multiple:
  assumes "n < 2 ^ 32"
  shows "(of_nat n :: u32) mod of_nat SPM_PAGESIZE = 0 \<longleftrightarrow> n mod SPM_PAGESIZE = 0"
  using assms by (simp add: word_unat_eq_iff unat_mod_distrib unat_of_nat SPM_PAGESIZE_def)

lemma page_end:
  assumes "(n + 2) mod SPM_PAGESIZE = 0" and "n + 2 < 2 ^ 32"
  shows "page_of (unat (of_nat (n + 2) - of_nat SPM_PAGESIZE :: u32)) = page_of n"
proof -
  from assms(1) obtain q where q: "n + 2 = SPM_PAGESIZE * q" by (metis mod_0_imp_dvd dvdE)
  then obtain p where p: "q = Suc p" by (cases q) simp_all
  from q p have n: "n = SPM_PAGESIZE * p + 254" by (simp add: SPM_PAGESIZE_def)
  have "(of_nat (n + 2) - of_nat SPM_PAGESIZE :: u32) = of_nat (SPM_PAGESIZE * p)" unfolding q p by (simp add: algebra_simps)
  moreover have "unat (of_nat (SPM_PAGESIZE * p) :: u32) = SPM_PAGESIZE * p" using assms(2) n by (subst unat_of_nat) simp
  ultimately show ?thesis by (simp add: page_of_def n SPM_PAGESIZE_def)
qed

context storage
begin

lemma burning_cong: "cell f = cell g \<Longrightarrow> slot f = slot g \<Longrightarrow> burning c0 A bs f \<longleftrightarrow> burning c0 A bs g"
  by (simp add: burning_def)

lemma flash_words:
  assumes A: "A mod SPM_PAGESIZE = 0" "A + length buf < 2 ^ 32" and s: "slot f = Map.empty" and r: "readable f"
    and k: "2 * k \<le> length buf"
  shows "\<exists>g. fold (flash_word spm buf) (map ((*) 2) [0..<k]) (of_nat A, f) = (of_nat (A + 2 * k), g) \<and>
    burning (cell f) A (take (2 * k) buf) g \<and> readable g \<and> ecell g = ecell f"
  using k
proof (induction k)
  case 0
  have "burning (cell f) A [] f" using A s div_le_mono [of A _ SPM_PAGESIZE] by (auto simp: burning_def page_of_def not_le [symmetric])
  with r show ?case by simp
next
  case (Suc k)
  then obtain g where g: "fold (flash_word spm buf) (map ((*) 2) [0..<k]) (of_nat A, f) = (of_nat (A + 2 * k), g)"
    and b: "burning (cell f) A (take (2 * k) buf) g" and rg: "readable g" and eg: "ecell g = ecell f"
    by auto
  let ?n = "A + 2 * k" and ?bs = "take (2 * k) buf" and ?lo = "buf ! (2 * k)" and ?hi = "buf ! (2 * k + 1)"
  have len: "length ?bs = 2 * k" using Suc.prems by simp
  have n: "?n + 2 < 2 ^ 32" "A + length ?bs < 2 ^ 32" "?n < 2 ^ 32" using A(2) Suc.prems len by simp_all
  have A0: "A mod SPM_PAGESIZE = 0" using A by simp
  then have m: "?n mod SPM_PAGESIZE = 2 * k mod SPM_PAGESIZE" by (metis add_0 mod_add_left_eq)
  have "2 dvd A" using A0 by (intro dvd_trans [of 2 SPM_PAGESIZE A]) (auto simp: SPM_PAGESIZE_def)
  then have ev: "even ?n" by simp
  have e: "(?n + 2) mod SPM_PAGESIZE = 0 \<longleftrightarrow> 2 * k mod SPM_PAGESIZE = 254"
    using page_step(2,4) [OF ev] m by (cases "2 * k mod SPM_PAGESIZE = 254") simp_all
  define a b :: u32 where "a = of_nat ?n" and "b = of_nat (?n + 2) - of_nat SPM_PAGESIZE"
  have ua: "unat a = ?n" unfolding a_def using n(3) by (subst unat_of_nat) simp
  then have pa: "length ?bs mod SPM_PAGESIZE = 0 \<longrightarrow> page_of (unat a) = page_of (A + length ?bs)" unfolding len by simp
  have pb: "page_of (unat b) = page_of (A + length ?bs)" if "length ?bs mod SPM_PAGESIZE = 254"
    unfolding b_def len by (rule page_end) (use that e n len in simp_all)
  define w :: u16 where "w = push_bit 8 (ucast ?hi) OR ucast ?lo"
  define g1 where "g1 = (if 2 * k mod SPM_PAGESIZE = 0 then boot_page_erase spm a g else g)"
  define h1 where "h1 = (if 2 * k mod SPM_PAGESIZE = 0 then BootloaderAPI_ErasePage spm a g else g)"
  define h2 where "h2 = boot_page_fill spm a w h1"
  define h3 where "h3 = (if 2 * k mod SPM_PAGESIZE = 254 then BootloaderAPI_WritePage spm b h2 else h2)"
  have bw: "burning (cell f) A (?bs @ [?lo, ?hi])
      (if 2 * k mod SPM_PAGESIZE = 254 then boot_page_write spm b (boot_page_fill spm a w g1) else boot_page_fill spm a w g1)"
    using burn_word [OF b n(2) pa pb, where lo = "?lo" and hi = "?hi"] unfolding len g1_def a_def w_def .
  have sg: "slot g = Map.empty" if "2 * k mod SPM_PAGESIZE = 0" using b that len by (simp add: burning_def)
  have 1: "slot h1 = slot g1" "cell h1 = cell g1" "readable h1" "ecell h1 = ecell f"
    using sg rg eg by (simp_all add: g1_def h1_def BootloaderAPI_ErasePage_def slot_rww slot_erase cell_rww readable_rww ecell_flash)
  have fill: "slot g1 (unat a mod SPM_PAGESIZE div 2) = None"
  proof -
    have "unat a mod SPM_PAGESIZE = 2 * k mod SPM_PAGESIZE" by (simp only: ua m)
    moreover have "even (2 * k mod SPM_PAGESIZE)" by (simp add: SPM_PAGESIZE_def dvd_mod_iff)
    then have "2 * (2 * k mod SPM_PAGESIZE div 2) = 2 * k mod SPM_PAGESIZE" by simp
    ultimately show ?thesis using b len by (auto simp: g1_def slot_erase burning_def)
  qed
  have 2: "slot h2 = slot (boot_page_fill spm a w g1)" "cell h2 = cell (boot_page_fill spm a w g1)" "readable h2" "ecell h2 = ecell f"
    using 1 fill by (simp_all add: h2_def slot_fill cell_fill readable_fill ecell_flash)
  have 3: "readable h3" "ecell h3 = ecell f"
    using 2 by (simp_all add: h3_def BootloaderAPI_WritePage_def readable_rww ecell_flash)
  have b3: "burning (cell f) A (?bs @ [?lo, ?hi]) h3"
  proof (cases "2 * k mod SPM_PAGESIZE = 254")
    case True
    have c3: "cell h3 = cell (boot_page_write spm b (boot_page_fill spm a w g1))"
      using True by (simp add: h3_def BootloaderAPI_WritePage_def cell_rww, intro ext) (simp add: cell_write 2)
    have s3: "slot h3 = slot (boot_page_write spm b (boot_page_fill spm a w g1))"
      using True by (simp add: h3_def BootloaderAPI_WritePage_def slot_rww slot_write)
    from bw True show ?thesis unfolding burning_cong [OF c3 s3] by simp
  next
    case False
    then have "h3 = h2" by (simp add: h3_def)
    with bw False show ?thesis using burning_cong [OF 2(2,1)] by simp
  qed
  have tk: "take (2 * Suc k) buf = ?bs @ [?lo, ?hi]"
    using Suc.prems by (simp add: take_Suc_conv_app_nth)
  have fo: "fold (flash_word spm buf) (map ((*) 2) [0..<Suc k]) (of_nat A, f) = (of_nat (A + 2 * Suc k), h3)"
  proof -
    have "of_nat ?n mod of_nat SPM_PAGESIZE = (0 :: u32) \<longleftrightarrow> 2 * k mod SPM_PAGESIZE = 0"
      using page_multiple [OF n(3)] m by simp
    moreover have "(of_nat ?n + 2) mod of_nat SPM_PAGESIZE = (0 :: u32) \<longleftrightarrow> 2 * k mod SPM_PAGESIZE = 254"
      using page_multiple [OF n(1)] e by (simp add: ac_simps)
    moreover have "b = of_nat A + 2 * of_nat k + 2 - of_nat SPM_PAGESIZE" by (simp add: b_def)
    ultimately show ?thesis using g
      by (simp add: flash_word_def Let_def h3_def h2_def h1_def BootloaderAPI_FillWord_def a_def w_def)
  qed
  show ?case unfolding fo tk using b3 3 by blast
qed

text \<open>A block written to the flash file.\<close>

lemma flash_block:
  assumes "A mod SPM_PAGESIZE = 0" "A + SECTOR_SIZE_BYTES < 2 ^ 32" "slot f = Map.empty" "readable f" and l: "length buf = SECTOR_SIZE_BYTES"
  defines "g \<equiv> snd (fold (flash_word spm buf) (map ((*) 2) [0..<SECTOR_SIZE_BYTES div 2]) (of_nat A, f))"
  shows "cell g i = (if A \<le> i \<and> i < A + SECTOR_SIZE_BYTES then buf ! (i - A) else cell f i)"
    and "slot g = Map.empty" and "readable g" and "ecell g = ecell f"
proof -
  have k: "2 * (SECTOR_SIZE_BYTES div 2) = SECTOR_SIZE_BYTES" by (simp add: SECTOR_SIZE_BYTES_def)
  have "A + length buf < 2 ^ 32" "2 * (SECTOR_SIZE_BYTES div 2) \<le> length buf" using assms k by simp_all
  from flash_words [OF assms(1) this(1) assms(3,4) this(2)]
  have g: "burning (cell f) A buf g \<and> readable g \<and> ecell g = ecell f" unfolding g_def k using l by auto
  have "length buf mod SPM_PAGESIZE = 0" unfolding l by (simp add: SECTOR_SIZE_BYTES_def SPM_PAGESIZE_def)
  from burned [of "cell f" A buf g, OF _ this] g
  show "cell g i = (if A \<le> i \<and> i < A + SECTOR_SIZE_BYTES then buf ! (i - A) else cell f i)"
    "slot g = Map.empty" "readable g" "ecell g = ecell f"
    unfolding l by simp_all
qed

lemma eeprom_bytes:
  fixes buf :: "u8 list"
  assumes "A + k \<le> Suc E2END" and "readable f"
  defines "g \<equiv> fold (\<lambda>i. WriteEEPROMByte eep (of_nat A + of_nat i) (buf ! i)) [0..<k] f"
  shows "ecell g i = (if A \<le> i \<and> i < A + k then buf ! (i - A) else ecell f i)"
    and "cell g = cell f" and "slot g = slot f" and "readable g"
proof -
  have "(\<forall>i. ecell g i = (if A \<le> i \<and> i < A + k then buf ! (i - A) else ecell f i)) \<and> cell g = cell f \<and> slot g = slot f \<and> readable g"
    unfolding g_def using assms(1)
  proof (induction k)
    case 0
    then show ?case using assms(2) by auto
  next
    case (Suc k)
    have "unat (of_nat (A + k) :: u16) = A + k" using Suc.prems by (subst unat_of_nat) (simp add: E2END_def)
    then have "unat (of_nat A + of_nat k :: u16) = A + k" by simp
    with Suc show ?case by (auto simp: WriteEEPROMByte_def ecell_update flash_update)
  qed
  then show "ecell g i = (if A \<le> i \<and> i < A + k then buf ! (i - A) else ecell f i)" "cell g = cell f" "slot g = slot f" "readable g"
    by blast+
qed

text \<open>The disk that the host sees: for a block of a file, the bytes of the memory it stands for.\<close>

definition disk :: "('a, 'z) vfat_scheme \<Rightarrow> u16 \<Rightarrow> u8 list" where
  "disk s b = map (\<lambda>j. if flash_block_of s b then cell (memory s) (block_address (flash_start s) b + j)
     else ecell (memory s) (block_address (eeprom_start s) b + j)) [0..<SECTOR_SIZE_BYTES]"

lemma nth_disk [simp]:
  "length (disk s b) = SECTOR_SIZE_BYTES"
  "j < SECTOR_SIZE_BYTES \<Longrightarrow> disk s b ! j = (if flash_block_of s b then cell (memory s) (block_address (flash_start s) b + j)
     else ecell (memory s) (block_address (eeprom_start s) b + j))"
  by (simp_all add: disk_def)

lemma make_block_disk:
  assumes a: "files_apart s" and b: "flash_block_of s b \<or> eeprom_block_of s b" and r: "readable (memory s)"
  shows "make_block spm eep b s = disk s b"
proof (cases "flash_block_of s b")
  case True
  note ne = file_blocks(3) [OF a True]
  have f: "flash_start s \<le> b" "unat b < unat (flash_start s) + 240"
    using True file_blocks(1) [OF a] by (simp_all add: word_le_nat_alt)
  have "block_address (flash_start s) b + j < 2 ^ 32" if "j < SECTOR_SIZE_BYTES" for j
    using block_address_less [OF f] that by (simp add: SECTOR_SIZE_BYTES_def)
  then have "unat (of_nat (block_address (flash_start s) b) + of_nat j :: u32) = block_address (flash_start s) b + j"
    if "j < SECTOR_SIZE_BYTES" for j
    using that unfolding of_nat_add [symmetric] by (subst unat_of_nat) simp
  then show ?thesis using file_blocks(4) [OF a b] True ne r
    unfolding make_block_def Let_def ReadEEPROMFileBlock_def ReadFLASHFileBlock_def disk_def
    by (simp add: flash_start_def [symmetric] eeprom_start_def [symmetric] flash_block_of_def [symmetric] eeprom_block_of_def [symmetric]
      block_address_flash [OF f(1)] read_cell)
next
  case False
  then have e: "eeprom_block_of s b" using b by simp
  have f: "eeprom_start s \<le> b" "unat b < unat (eeprom_start s) + 8"
    using e file_blocks(2) [OF a] by (simp_all add: word_le_nat_alt)
  have l: "block_address (eeprom_start s) b + j \<le> E2END" if "j < SECTOR_SIZE_BYTES" for j
    using block_address_less [OF f] that by (simp add: SECTOR_SIZE_BYTES_def E2END_def)
  have u: "unat (of_nat (block_address (eeprom_start s) b) + of_nat j :: u16) = block_address (eeprom_start s) b + j"
    if "j < SECTOR_SIZE_BYTES" for j
    using l [OF that] unfolding of_nat_add [symmetric] by (subst unat_of_nat) (simp add: E2END_def)
  show ?thesis using file_blocks(4) [OF a b] False e u l
    unfolding make_block_def Let_def ReadEEPROMFileBlock_def ReadFLASHFileBlock_def disk_def
    by (simp add: flash_start_def [symmetric] eeprom_start_def [symmetric] flash_block_of_def [symmetric] eeprom_block_of_def [symmetric]
      block_address_eeprom [OF f(1)] ReadEEPROMByte_def read_ecell)
qed

lemma start_memory [simp]:
  "flash_start (s\<lparr>memory := g\<rparr>) = flash_start s" "eeprom_start (s\<lparr>memory := g\<rparr>) = eeprom_start s"
  "flash_block_of (s\<lparr>memory := g\<rparr>) b = flash_block_of s b" "eeprom_block_of (s\<lparr>memory := g\<rparr>) b = eeprom_block_of s b"
  by (simp_all add: flash_start_def eeprom_start_def flash_block_of_def eeprom_block_of_def FLASHFileStartCluster_def
    EEPROMFileStartCluster_def)

lemma store_flash:
  assumes a: "files_apart s" and b: "flash_block_of s b" and r: "readable (memory s)" "slot (memory s) = Map.empty"
    and l: "length buf = SECTOR_SIZE_BYTES"
  obtains g where "store_block spm eep b buf s = s\<lparr>memory := g\<rparr>" "readable g" "slot g = Map.empty" "ecell g = ecell (memory s)"
    and "\<And>i. cell g i = (if block_address (flash_start s) b \<le> i \<and> i < block_address (flash_start s) b + SECTOR_SIZE_BYTES
        then buf ! (i - block_address (flash_start s) b) else cell (memory s) i)"
proof -
  have f: "flash_start s \<le> b" "unat b < unat (flash_start s) + 240"
    using b file_blocks(1) [OF a] by (simp_all add: word_le_nat_alt)
  let ?A = "block_address (flash_start s) b"
  let ?g = "snd (fold (flash_word spm buf) (map ((*) 2) [0..<SECTOR_SIZE_BYTES div 2]) (of_nat ?A, memory s))"
  have "?A + SECTOR_SIZE_BYTES < 2 ^ 32" using block_address_less [OF f] by (simp add: SECTOR_SIZE_BYTES_def)
  note g = flash_block [OF block_address_aligned this r(2,1) l]
  have "store_block spm eep b buf s = s\<lparr>memory := ?g\<rparr>"
    using file_blocks(3) [OF a b] file_blocks(4) [OF a, of b] b block_address_flash [OF f(1)]
    unfolding store_block_def Let_def WriteEEPROMFileBlock_def WriteFLASHFileBlock_def
    by (simp add: flash_start_def [symmetric] eeprom_start_def [symmetric] flash_block_of_def [symmetric] eeprom_block_of_def [symmetric])
  with g show thesis by (intro that [of ?g])
qed

lemma store_eeprom:
  assumes a: "files_apart s" and b: "eeprom_block_of s b" and r: "readable (memory s)" "slot (memory s) = Map.empty"
  obtains g where "store_block spm eep b buf s = s\<lparr>memory := g\<rparr>" "readable g" "slot g = Map.empty" "cell g = cell (memory s)"
    and "\<And>i. ecell g i = (if block_address (eeprom_start s) b \<le> i \<and> i < block_address (eeprom_start s) b + SECTOR_SIZE_BYTES
        then buf ! (i - block_address (eeprom_start s) b) else ecell (memory s) i)"
proof -
  have f: "eeprom_start s \<le> b" "unat b < unat (eeprom_start s) + 8"
    using b file_blocks(2) [OF a] by (simp_all add: word_le_nat_alt)
  let ?A = "block_address (eeprom_start s) b"
  let ?g = "fold (\<lambda>i. WriteEEPROMByte eep (of_nat ?A + of_nat i) (buf ! i)) [0..<SECTOR_SIZE_BYTES] (memory s)"
  have "?A + SECTOR_SIZE_BYTES \<le> Suc E2END" using block_address_less [OF f] by (simp add: SECTOR_SIZE_BYTES_def E2END_def)
  note g = eeprom_bytes [OF this r(1), where buf = buf]
  have "store_block spm eep b buf s = s\<lparr>memory := ?g\<rparr>"
    using file_blocks(3) [OF a, of b] file_blocks(4) [OF a, of b] b block_address_eeprom [OF f(1)]
    unfolding store_block_def Let_def WriteEEPROMFileBlock_def WriteFLASHFileBlock_def
    by (auto simp: flash_start_def [symmetric] eeprom_start_def [symmetric] flash_block_of_def [symmetric] eeprom_block_of_def [symmetric])
  with g r(2) show thesis by (intro that [of ?g]) simp_all
qed

lemma store_block_disk:
  assumes a: "files_apart s" and b: "flash_block_of s b \<or> eeprom_block_of s b" and r: "readable (memory s)" "slot (memory s) = Map.empty"
    and l: "length buf = SECTOR_SIZE_BYTES"
  defines "t \<equiv> store_block spm eep b buf s"
  shows "FirmwareFileEntries t = FirmwareFileEntries s" and "readable (memory t)" and "slot (memory t) = Map.empty"
    and "flash_block_of s b' \<or> eeprom_block_of s b' \<Longrightarrow> disk t b' = (if b' = b then buf else disk s b')"
proof -
  have le: "flash_start s \<le> b''" if "flash_block_of s b''" for b''
    using that file_blocks(1) [OF a] by (simp add: word_le_nat_alt)
  have le': "eeprom_start s \<le> b''" if "eeprom_block_of s b''" for b''
    using that file_blocks(2) [OF a] by (simp add: word_le_nat_alt)
  have "FirmwareFileEntries t = FirmwareFileEntries s \<and> readable (memory t) \<and> slot (memory t) = Map.empty \<and>
    (flash_block_of s b' \<or> eeprom_block_of s b' \<longrightarrow> disk t b' = (if b' = b then buf else disk s b'))"
  proof (cases "flash_block_of s b")
    case True
    from store_flash [OF a this r l] obtain g where g: "t = s\<lparr>memory := g\<rparr>" "readable g" "slot g = Map.empty" "ecell g = ecell (memory s)"
      "\<And>i. cell g i = (if block_address (flash_start s) b \<le> i \<and> i < block_address (flash_start s) b + SECTOR_SIZE_BYTES
        then buf ! (i - block_address (flash_start s) b) else cell (memory s) i)" unfolding t_def by metis
    have "disk t b' = (if b' = b then buf else disk s b')"
    proof (rule nth_equalityI)
      fix j
      assume "j < length (disk t b')"
      then show "disk t b' ! j = (if b' = b then buf else disk s b') ! j"
        using True g(4) block_apart [OF le [OF True] le, of b' j] unfolding g(1) by (auto simp: g(5))
    qed (simp add: l)
    with g(1-3) show ?thesis by simp
  next
    case False
    then have E: "eeprom_block_of s b" using b by simp
    from store_eeprom [OF a this r] obtain g where g: "t = s\<lparr>memory := g\<rparr>" "readable g" "slot g = Map.empty" "cell g = cell (memory s)"
      "\<And>i. ecell g i = (if block_address (eeprom_start s) b \<le> i \<and> i < block_address (eeprom_start s) b + SECTOR_SIZE_BYTES
        then buf ! (i - block_address (eeprom_start s) b) else ecell (memory s) i)" unfolding t_def by metis
    have "disk t b' = (if b' = b then buf else disk s b')" if e: "flash_block_of s b' \<or> eeprom_block_of s b'"
    proof (rule nth_equalityI)
      fix j
      assume "j < length (disk t b')"
      then show "disk t b' ! j = (if b' = b then buf else disk s b') ! j"
        using False e g(4) block_apart [OF le' [OF E] le', of b' j] unfolding g(1) by (auto simp: g(5))
    qed (simp add: l)
    with g(1-3) show ?thesis by simp
  qed
  then show "FirmwareFileEntries t = FirmwareFileEntries s" "readable (memory t)" "slot (memory t) = Map.empty"
    "flash_block_of s b' \<or> eeprom_block_of s b' \<Longrightarrow> disk t b' = (if b' = b then buf else disk s b')" by blast+
qed

end

subsection \<open>Properties\<close>

lemma files_cong:
  assumes "FirmwareFileEntries t = FirmwareFileEntries s"
  shows "files_apart t = files_apart s" and "flash_block_of t b = flash_block_of s b" and "eeprom_block_of t b = eeprom_block_of s b"
  using assms by (simp_all add: files_apart_def flash_start_def eeprom_start_def flash_block_of_def eeprom_block_of_def
    FLASHFileStartCluster_def EEPROMFileStartCluster_def)

text \<open>
  C11: to the host the files are a disk. For every flash and EEPROM that follow the data sheet, and a directory that keeps the
  files apart: after any sequence of writes of 512 bytes to blocks of the two files, every block of a file reads as what was
  written to it last, and as before where nothing was written.
\<close>
theorem vfat_disk:
  assumes "storage spm cell slot eep ecell readable"
    and "files_apart s" and "readable (memory s)" and "slot (memory s) = Map.empty"
    and "list_all (\<lambda>(b, d). (flash_block_of s b \<or> eeprom_block_of s b) \<and> length d = SECTOR_SIZE_BYTES) ws"
    and "flash_block_of s b' \<or> eeprom_block_of s b'"
  shows "make_block spm eep b' (fold (\<lambda>(b, d). store_block spm eep b d) ws s) =
    (case map_of (rev ws) b' of Some d \<Rightarrow> d | None \<Rightarrow> make_block spm eep b' s)"
  using assms(2-)
proof (induction ws arbitrary: s)
  case Nil
  then show ?case by simp
next
  case (Cons w ws)
  obtain b d where w: "w = (b, d)" by (cases w)
  let ?t = "store_block spm eep b d s"
  have b: "flash_block_of s b \<or> eeprom_block_of s b" "length d = SECTOR_SIZE_BYTES" using Cons.prems(4) w by simp_all
  note t = storage.store_block_disk [OF assms(1) Cons.prems(1) b(1) Cons.prems(2,3) b(2)]
  note c = files_cong [OF t(1)]
  have "make_block spm eep b' ?t = (if b' = b then d else make_block spm eep b' s)"
    using storage.make_block_disk [OF assms(1), of s b'] storage.make_block_disk [OF assms(1), of ?t b'] t(2,4) c Cons.prems by simp
  moreover have "make_block spm eep b' (fold (\<lambda>(b, d). store_block spm eep b d) ws ?t) =
      (case map_of (rev ws) b' of Some d \<Rightarrow> d | None \<Rightarrow> make_block spm eep b' ?t)"
    using Cons.prems w t(2,3) c by (intro Cons.IH) (auto simp: list_all_iff)
  ultimately show ?case by (simp add: w map_add_def split: option.split)
qed

definition vfat_start :: "'f \<Rightarrow> 'f vfat" where
  "vfat_start f = \<lparr>FirmwareFileEntries = FirmwareFileEntries_init, memory = f\<rparr>"

lemma vfat_start_clusters:
  "FLASHFileStartCluster (vfat_start f) = 2" "EEPROMFileStartCluster (vfat_start f) = 62"
proof -
  let ?e = "FirmwareFileEntries_init"
  have len: "length (text_bytes t) = length t"
    "length n = 11 \<Longrightarrow> length rs = 10 \<Longrightarrow> length (MSDOS_Directory n v rs x y z w) = 32"
    "length u = 13 \<Longrightarrow> length (VFAT_LongFileName o1 u a r c r2) = 32"
    "length fn = 8 \<Longrightarrow> length ex = 3 \<Longrightarrow> length rs = 10 \<Longrightarrow> length (MSDOS_File fn ex v rs x y z w) = 32"
    for t n u fn ex rs v x y z w o1 a r c r2
    by (simp_all add: text_bytes_def MSDOS_Directory_def VFAT_LongFileName_def MSDOS_File_def length_concat comp_def sum_list_triv)
  have "take 2 (drop 90 ?e) = bytes16 2" "take 2 (drop 154 ?e) = bytes16 62"
    by (simp_all add: FirmwareFileEntries_init_def len geometry, simp_all add: MSDOS_File_def len)
  then show "FLASHFileStartCluster (vfat_start f) = 2" "EEPROMFileStartCluster (vfat_start f) = 62"
    by (simp_all add: FLASHFileStartCluster_def EEPROMFileStartCluster_def StartingCluster_def vfat_start_def
      DISK_FILE_ENTRY_FLASH_MSDOS_def DISK_FILE_ENTRY_EEPROM_MSDOS_def)
qed

lemma vfat_start_apart: "flash_start (vfat_start f) = 4" "eeprom_start (vfat_start f) = 244" "files_apart (vfat_start f)"
  by (simp_all add: files_apart_def flash_start_def eeprom_start_def vfat_start_clusters file_start_block_def SECTOR_PER_CLUSTER_def)

theorem vfat_disk_witness:
  "let d = replicate 512 (0x5A :: u8); s = vfat_start sim_memory;
       t = fold (\<lambda>(b, d). store_block sim_spm sim_eep b d) [(4, replicate 512 0), (250, d), (4, d)] s
   in make_block sim_spm sim_eep 4 t = d \<and> make_block sim_spm sim_eep 250 t = d \<and>
      make_block sim_spm sim_eep 5 t = make_block sim_spm sim_eep 5 s"
proof -
  let ?s = "vfat_start sim_memory" and ?ws = "[(4, replicate 512 0), (250, replicate 512 (0x5A :: u8)), (4, replicate 512 0x5A)]"
  have b: "flash_block_of ?s 4" "flash_block_of ?s 5" "eeprom_block_of ?s 250"
    by (simp_all add: file_blocks [OF vfat_start_apart(3)] vfat_start_apart)
  have a: "files_apart ?s" "\<not> busy (memory ?s)" "slots (memory ?s) = Map.empty"
    "list_all (\<lambda>(b, d). (flash_block_of ?s b \<or> eeprom_block_of ?s b) \<and> length d = SECTOR_SIZE_BYTES) ?ws"
    using b vfat_start_apart by (simp_all add: vfat_start_def SECTOR_SIZE_BYTES_def)
  note v = vfat_disk [OF sim_storage.storage_axioms a]
  show ?thesis unfolding Let_def using v [of 4] v [of 5] v [of 250] b by simp
qed

subsection \<open>The chains the host follows\<close>

text \<open>The clusters of a file, from its first one, in at most \<open>n\<close> steps.\<close>

fun follow :: "nat \<Rightarrow> u8 list \<Rightarrow> nat \<Rightarrow> nat list" where
  "follow 0 FATTable k = []"
| "follow (Suc n) FATTable k = k # (if fat12_entry FATTable k = 0xFFF then [] else follow n FATTable (unat (fat12_entry FATTable k)))"

lemma follow_chain:
  assumes "\<And>k. a \<le> k \<Longrightarrow> k < a + n \<Longrightarrow> fat12_entry T k = (if k = a + n - 1 then 0xFFF else of_nat (k + 1))"
    and "1 \<le> n" "n \<le> m" "a + n \<le> 170"
  shows "follow m T a = [a..<a + n]"
  using assms
proof (induction m arbitrary: a n)
  case 0
  then show ?case by simp
next
  case (Suc m)
  show ?case
  proof (cases "n = 1")
    case True
    with Suc.prems(1) [of a] show ?thesis by simp
  next
    case False
    have "unat (of_nat (a + 1) :: u16) = a + 1" using Suc.prems False by (subst unat_of_nat) simp
    moreover have "fat12_entry T a = of_nat (a + 1)" 
    proof -
      have "a \<noteq> a + n - 1" using Suc.prems(2) False by arith
      then show ?thesis using Suc.prems(1) [of a] Suc.prems(2) by simp
    qed
    moreover have "(of_nat (a + 1) :: u16) \<noteq> 0xFFF" using calculation(1) Suc.prems by (auto simp: word_unat_eq_iff)
    moreover have "follow m T (a + 1) = [a + 1..<a + 1 + (n - 1)]"
      using Suc.prems False by (intro Suc.IH) auto
    moreover have "[a..<a + n] = a # [a + 1..<a + 1 + (n - 1)]" using Suc.prems(2) by (simp add: upt_rec)
    ultimately show ?thesis by simp
  qed
qed

lemma chain_entry:
  assumes "1 \<le> n" "a + n \<le> 170" "257 \<le> length T"
  defines "U \<equiv> UpdateFAT12ClusterChain T (of_nat a) (of_nat n)"
  shows "length U = length T"
    and "a \<le> k \<Longrightarrow> k < a + n \<Longrightarrow> fat12_entry U k = (if k = a + n - 1 then 0xFFF else of_nat (k + 1))"
    and "k < a \<or> a + n < k \<or> k = a + n \<and> even k \<Longrightarrow> fat12_entry U k = fat12_entry T k"
proof -
  have "unat (of_nat n :: u8) = n" using assms(2) by (subst unat_of_nat) simp
  then have U: "U = fold (chain_link (of_nat a) n) [0..<n] T" by (simp add: U_def UpdateFAT12ClusterChain_def)
  note c = chain_prefix [OF assms(1,2,3) order_refl, folded U]
  from c show "length U = length T"
    "a \<le> k \<Longrightarrow> k < a + n \<Longrightarrow> fat12_entry U k = (if k = a + n - 1 then 0xFFF else of_nat (k + 1))"
    "k < a \<or> a + n < k \<or> k = a + n \<and> even k \<Longrightarrow> fat12_entry U k = fat12_entry T k"
    by blast+
qed

text \<open>
  C38: the allocation table lists the clusters of both files. For every directory whose files start at clusters \<open>a\<close> and \<open>b\<close> that do
  not overlap and lie within the first 170 clusters, following the table from \<open>a\<close> visits the 60 clusters of the flash in
  order and ends, and from \<open>b\<close> the 2 of the EEPROM. The last hypothesis excludes the one arrangement that is damaged, where
  the EEPROM file ends at an even cluster right in front of the flash file.
\<close>
theorem vfat_chains:
  assumes "FLASHFileStartCluster s = of_nat a" and "EEPROMFileStartCluster s = of_nat b"
    and "a + 60 \<le> 170" "b + 2 \<le> 170" and "a + 60 \<le> b \<or> b + 2 \<le> a" and "b + 2 = a \<longrightarrow> even a"
    and "n = DISK_BLOCK_FATBlock1 \<or> n = DISK_BLOCK_FATBlock2"
  shows "follow 100 (make_block spm eep n s) a = [a..<a + 60] \<and> follow 100 (make_block spm eep n s) b = [b..<b + 2]"
proof -
  define T where "T = UpdateFAT12ClusterEntry (UpdateFAT12ClusterEntry (replicate SECTOR_SIZE_BYTES 0) 0 (0xF00 OR ucast MediaDescriptor)) 1 0xFFF"
  define U where "U = UpdateFAT12ClusterChain T (of_nat a) (of_nat 60)"
  have m: "make_block spm eep n s = UpdateFAT12ClusterChain U (of_nat b) (of_nat 2)"
    using assms(1,2,7) by (auto simp: make_block_def T_def U_def geometry Let_def)
  have T: "257 \<le> length T" by (simp add: T_def SECTOR_SIZE_BYTES_def)
  note u = chain_entry [OF _ assms(3) T, folded U_def]
  have U: "257 \<le> length U" using u(1) T by simp
  note v = chain_entry [OF _ assms(4) U, folded m]
  have "fat12_entry (make_block spm eep n s) k = (if k = a + 60 - 1 then 0xFFF else of_nat (k + 1))" if "a \<le> k" "k < a + 60" for k
  proof -
    have "k < b \<or> b + 2 < k \<or> k = b + 2 \<and> even k" using that assms(5,6) by (cases "k = b + 2") auto
    then show ?thesis using v(3) [of k] u(2) [of k] that by simp
  qed
  then have "follow 100 (make_block spm eep n s) a = [a..<a + 60]" using assms(3) by (intro follow_chain) simp_all
  moreover have "follow 100 (make_block spm eep n s) b = [b..<b + 2]" using v(2) assms(4) by (intro follow_chain) simp_all
  ultimately show ?thesis ..
qed

theorem vfat_chains_witness:
  "follow 100 (make_block sim_spm sim_eep 1 (vfat_start sim_memory)) 2 = [2..<62] \<and>
   follow 100 (make_block sim_spm sim_eep 1 (vfat_start sim_memory)) 62 = [62..<64]"
  using vfat_chains [of "vfat_start sim_memory" 2 62 1 sim_spm sim_eep] by (simp add: vfat_start_clusters)

end
