(* ===== verification/Mass_Storage.thy ===== *)
theory Mass_Storage
  imports Virtual_FAT USB_Device
begin

text \<open>
  The mass storage boot loader around its disk: the class driver \<open>MassStorageClassDevice.c\<close>, the SCSI commands \<open>Lib/SCSI.c\<close>
  and the main program. The command block is the array of its 31 bytes, as it is received. The control endpoint is served
  by interrupts, which may set \<open>IsMassStoreReset\<close> while the driver waits: \<open>irq\<close> is what happens between two
  iterations of a waiting loop.
\<close>

subsection \<open>Interface\<close>

definition MS_CBW_SIGNATURE :: u32 where "MS_CBW_SIGNATURE = 0x43425355"
definition MS_CSW_SIGNATURE :: u32 where "MS_CSW_SIGNATURE = 0x53425355"
definition MS_COMMAND_DIR_DATA_IN :: u8 where "MS_COMMAND_DIR_DATA_IN = push_bit 7 1"
definition MS_REQ_GetMaxLUN :: u8 where [simp]: "MS_REQ_GetMaxLUN = 0xFE"
definition MS_REQ_MassStorageReset :: u8 where [simp]: "MS_REQ_MassStorageReset = 0xFF"
definition MS_SCSI_COMMAND_Pass :: u8 where "MS_SCSI_COMMAND_Pass = 0"
definition MS_SCSI_COMMAND_Fail :: u8 where "MS_SCSI_COMMAND_Fail = 1"

definition SCSI_CMD_INQUIRY :: u8 where [simp]: "SCSI_CMD_INQUIRY = 0x12"
definition SCSI_CMD_REQUEST_SENSE :: u8 where [simp]: "SCSI_CMD_REQUEST_SENSE = 0x03"
definition SCSI_CMD_TEST_UNIT_READY :: u8 where [simp]: "SCSI_CMD_TEST_UNIT_READY = 0x00"
definition SCSI_CMD_READ_CAPACITY_10 :: u8 where [simp]: "SCSI_CMD_READ_CAPACITY_10 = 0x25"
definition SCSI_CMD_START_STOP_UNIT :: u8 where [simp]: "SCSI_CMD_START_STOP_UNIT = 0x1B"
definition SCSI_CMD_SEND_DIAGNOSTIC :: u8 where [simp]: "SCSI_CMD_SEND_DIAGNOSTIC = 0x1D"
definition SCSI_CMD_PREVENT_ALLOW_MEDIUM_REMOVAL :: u8 where [simp]: "SCSI_CMD_PREVENT_ALLOW_MEDIUM_REMOVAL = 0x1E"
definition SCSI_CMD_WRITE_10 :: u8 where [simp]: "SCSI_CMD_WRITE_10 = 0x2A"
definition SCSI_CMD_READ_10 :: u8 where [simp]: "SCSI_CMD_READ_10 = 0x28"
definition SCSI_CMD_VERIFY_10 :: u8 where [simp]: "SCSI_CMD_VERIFY_10 = 0x2F"
definition SCSI_CMD_MODE_SENSE_6 :: u8 where [simp]: "SCSI_CMD_MODE_SENSE_6 = 0x1A"

definition SCSI_SENSE_KEY_GOOD :: u8 where [simp]: "SCSI_SENSE_KEY_GOOD = 0x00"
definition SCSI_SENSE_KEY_ILLEGAL_REQUEST :: u8 where [simp]: "SCSI_SENSE_KEY_ILLEGAL_REQUEST = 0x05"
definition SCSI_ASENSE_NO_ADDITIONAL_INFORMATION :: u8 where [simp]: "SCSI_ASENSE_NO_ADDITIONAL_INFORMATION = 0x00"
definition SCSI_ASENSE_INVALID_FIELD_IN_CDB :: u8 where [simp]: "SCSI_ASENSE_INVALID_FIELD_IN_CDB = 0x24"
definition SCSI_ASENSE_INVALID_COMMAND :: u8 where [simp]: "SCSI_ASENSE_INVALID_COMMAND = 0x20"
definition SCSI_ASENSE_LOGICAL_BLOCK_ADDRESS_OUT_OF_RANGE :: u8 where [simp]: "SCSI_ASENSE_LOGICAL_BLOCK_ADDRESS_OUT_OF_RANGE = 0x21"
definition SCSI_ASENSEQ_NO_QUALIFIER :: u8 where [simp]: "SCSI_ASENSEQ_NO_QUALIFIER = 0x00"

record MS_CommandStatusWrapper =
  CSW_Signature :: u32
  CSW_Tag :: u32
  DataTransferResidue :: u32
  Status :: u8

record USB_ClassInfo_MS_Device =
  InterfaceNumber :: u8
  DataINEndpoint :: USB_Endpoint_Table
  DataOUTEndpoint :: USB_Endpoint_Table
  TotalLUNs :: u8
  CommandBlock :: "u8 list"
  CommandStatus :: MS_CommandStatusWrapper
  IsMassStoreReset :: bool

text \<open>The fields of the command block.\<close>

definition CBW_Signature :: "USB_ClassInfo_MS_Device \<Rightarrow> u32" where "CBW_Signature c = word32 (take 4 (CommandBlock c))"
definition CBW_Tag :: "USB_ClassInfo_MS_Device \<Rightarrow> u32" where "CBW_Tag c = word32 (take 4 (drop 4 (CommandBlock c)))"
definition DataTransferLength :: "USB_ClassInfo_MS_Device \<Rightarrow> u32" where "DataTransferLength c = word32 (take 4 (drop 8 (CommandBlock c)))"
definition Flags :: "USB_ClassInfo_MS_Device \<Rightarrow> u8" where "Flags c = CommandBlock c ! 12"
definition LUN :: "USB_ClassInfo_MS_Device \<Rightarrow> u8" where "LUN c = CommandBlock c ! 13"
definition SCSICommandLength :: "USB_ClassInfo_MS_Device \<Rightarrow> u8" where "SCSICommandLength c = CommandBlock c ! 14"
definition SCSICommandData :: "USB_ClassInfo_MS_Device \<Rightarrow> u8 list" where "SCSICommandData c = drop 15 (CommandBlock c)"

definition set_DataTransferLength :: "u32 \<Rightarrow> USB_ClassInfo_MS_Device \<Rightarrow> USB_ClassInfo_MS_Device" where
  "set_DataTransferLength v c = c\<lparr>CommandBlock := take 8 (CommandBlock c) @ bytes32 v @ drop 12 (CommandBlock c)\<rparr>"

definition status_bytes :: "MS_CommandStatusWrapper \<Rightarrow> u8 list" where
  "status_bytes w = bytes32 (CSW_Signature w) @ bytes32 (CSW_Tag w) @ bytes32 (DataTransferResidue w) @ [Status w]"

subsection \<open>The program's variables\<close>

record 'f ms_boot = "'f vfat" +
  SenseKey :: u8
  AdditionalSenseCode :: u8
  AdditionalSenseQualifier :: u8
  RunBootloader :: bool
  TicksSinceLastCommand :: u8

type_synonym ('f, 'w) ms_dev = "('f ms_boot, 'w) dev"

definition SCSI_SET_SENSE :: "u8 \<Rightarrow> u8 \<Rightarrow> u8 \<Rightarrow> ('f, 'w) ms_dev \<Rightarrow> ('f, 'w) ms_dev" where
  "SCSI_SET_SENSE Key Acode Aqual s =
     s\<lparr>app := (app s)\<lparr>SenseKey := Key, AdditionalSenseCode := Acode, AdditionalSenseQualifier := Aqual\<rparr>\<rparr>"

definition InquiryData :: "u8 list" where
  "InquiryData = [0x00, 0x80, 0, 2, 0x1F, 0, 0, 0] @ text_bytes ''LUFA'' @ replicate 4 0 @ text_bytes ''Bootloader'' @ replicate 6 0 @
     text_bytes ''0.00''"

definition SenseData :: "'f ms_boot \<Rightarrow> u8 list" where
  "SenseData b = [0x70, 0, SenseKey b AND 0x0F, 0, 0, 0, 0, 0x0A, 0, 0, 0, 0, AdditionalSenseCode b, AdditionalSenseQualifier b, 0, 0, 0, 0]"

subsection \<open>Commands\<close>

type_synonym ('f, 'w) scsi =
  "USB_ClassInfo_MS_Device \<Rightarrow> ('f, 'w) ms_dev \<Rightarrow> (bool \<times> USB_ClassInfo_MS_Device \<times> ('f, 'w) ms_dev) option"

definition SCSI_Command_Inquiry :: "'w mcu \<Rightarrow> ('f, 'w) scsi" where
  "SCSI_Command_Inquiry m c s =
    (let AllocationLength = SwapEndian_16 (word16 (take 2 (drop 3 (SCSICommandData c))));
         BytesTransferred = min AllocationLength (of_nat (length InquiryData)) in
     if SCSICommandData c ! 1 AND (push_bit 0 1 OR push_bit 1 1) \<noteq> 0 \<or> SCSICommandData c ! 2 \<noteq> 0
     then Some (False, c, SCSI_SET_SENSE SCSI_SENSE_KEY_ILLEGAL_REQUEST SCSI_ASENSE_INVALID_FIELD_IN_CDB SCSI_ASENSEQ_NO_QUALIFIER s)
     else do {
       (_, s) \<leftarrow> Endpoint_Write_Stream_LE m InquiryData BytesTransferred None s;
       (_, s) \<leftarrow> Endpoint_Null_Stream m (AllocationLength - BytesTransferred) None s;
       let s = Endpoint_ClearIN m s;
       Some (True, set_DataTransferLength (DataTransferLength c - ucast BytesTransferred) c, s) })"

definition SCSI_Command_Request_Sense :: "'w mcu \<Rightarrow> ('f, 'w) scsi" where
  "SCSI_Command_Request_Sense m c s =
    (let AllocationLength = SCSICommandData c ! 4;
         BytesTransferred = min AllocationLength (of_nat (length (SenseData (app s)))) in
     do {
       (_, s) \<leftarrow> Endpoint_Write_Stream_LE m (SenseData (app s)) (ucast BytesTransferred) None s;
       (_, s) \<leftarrow> Endpoint_Null_Stream m (ucast AllocationLength - ucast BytesTransferred) None s;
       let s = Endpoint_ClearIN m s;
       Some (True, set_DataTransferLength (DataTransferLength c - ucast BytesTransferred) c, s) })"

definition SCSI_Command_Read_Capacity_10 :: "'w mcu \<Rightarrow> ('f, 'w) scsi" where
  "SCSI_Command_Read_Capacity_10 m c s =
    (let s = Endpoint_Write_32_BE m (of_nat LUN_MEDIA_BLOCKS - 1) s;
         s = Endpoint_Write_32_BE m (of_nat SECTOR_SIZE_BYTES) s;
         s = Endpoint_ClearIN m s
     in Some (True, set_DataTransferLength (DataTransferLength c - 8) c, s))"

text \<open>\<open>stack i\<close> is what the block buffer of the \<open>i\<close>-th call holds before it is filled.\<close>

fun rw_blocks :: "'w mcu \<Rightarrow> 'f spm \<Rightarrow> 'f eep \<Rightarrow> (nat \<Rightarrow> u8 list) \<Rightarrow> bool \<Rightarrow> u16 \<Rightarrow> nat list \<Rightarrow> ('f, 'w) ms_dev \<Rightarrow> ('f, 'w) ms_dev option" where
  "rw_blocks m p e stack IsDataRead BlockAddress [] s = Some s"
| "rw_blocks m p e stack IsDataRead BlockAddress (i # is) s = do {
     s \<leftarrow> (if IsDataRead then VirtualFAT_ReadBlock m p e (BlockAddress + of_nat i) s
           else VirtualFAT_WriteBlock m p e (stack i) (BlockAddress + of_nat i) s);
     rw_blocks m p e stack IsDataRead BlockAddress is s }"

definition SCSI_Command_ReadWrite_10 :: "'w mcu \<Rightarrow> 'f spm \<Rightarrow> 'f eep \<Rightarrow> (nat \<Rightarrow> u8 list) \<Rightarrow> bool \<Rightarrow> ('f, 'w) scsi" where
  "SCSI_Command_ReadWrite_10 m p e stack IsDataRead c s =
    (let BlockAddress = ucast (SwapEndian_32 (word32 (take 4 (drop 2 (SCSICommandData c))))) :: u16;
         TotalBlocks = SwapEndian_16 (word16 (take 2 (drop 7 (SCSICommandData c)))) in
     if of_nat LUN_MEDIA_BLOCKS \<le> BlockAddress
     then Some (False, c, SCSI_SET_SENSE SCSI_SENSE_KEY_ILLEGAL_REQUEST SCSI_ASENSE_LOGICAL_BLOCK_ADDRESS_OUT_OF_RANGE SCSI_ASENSEQ_NO_QUALIFIER s)
     else do {
       s \<leftarrow> rw_blocks m p e stack IsDataRead BlockAddress [0..<unat TotalBlocks] s;
       Some (True, set_DataTransferLength (DataTransferLength c - ucast TotalBlocks * of_nat SECTOR_SIZE_BYTES) c, s) })"

definition SCSI_Command_ModeSense_6 :: "'w mcu \<Rightarrow> ('f, 'w) scsi" where
  "SCSI_Command_ModeSense_6 m c s =
    (let s = Endpoint_ClearIN m (Endpoint_Write_32_LE m 0 s)
     in Some (True, set_DataTransferLength (DataTransferLength c - 4) c, s))"

text \<open>The switch: START STOP UNIT falls through to the commands that just succeed.\<close>

definition scsi_switch :: "'w mcu \<Rightarrow> 'f spm \<Rightarrow> 'f eep \<Rightarrow> (nat \<Rightarrow> u8 list) \<Rightarrow> ('f, 'w) scsi" where
  "scsi_switch m p e stack c s = (let cmd = SCSICommandData c ! 0 in
     if cmd = SCSI_CMD_INQUIRY then SCSI_Command_Inquiry m c s
     else if cmd = SCSI_CMD_REQUEST_SENSE then SCSI_Command_Request_Sense m c s
     else if cmd = SCSI_CMD_READ_CAPACITY_10 then SCSI_Command_Read_Capacity_10 m c s
     else if cmd = SCSI_CMD_WRITE_10 then SCSI_Command_ReadWrite_10 m p e stack False c s
     else if cmd = SCSI_CMD_READ_10 then SCSI_Command_ReadWrite_10 m p e stack True c s
     else if cmd = SCSI_CMD_MODE_SENSE_6 then SCSI_Command_ModeSense_6 m c s
     else if cmd = SCSI_CMD_START_STOP_UNIT then
       Some (True, set_DataTransferLength 0 c,
         s\<lparr>app := (app s)\<lparr>RunBootloader := SCSICommandData c ! 4 AND 0x03 \<noteq> 0x02\<rparr>\<rparr>)
     else if cmd = SCSI_CMD_SEND_DIAGNOSTIC \<or> cmd = SCSI_CMD_TEST_UNIT_READY \<or> cmd = SCSI_CMD_PREVENT_ALLOW_MEDIUM_REMOVAL \<or>
             cmd = SCSI_CMD_VERIFY_10
     then Some (True, set_DataTransferLength 0 c, s)
     else Some (False, c, SCSI_SET_SENSE SCSI_SENSE_KEY_ILLEGAL_REQUEST SCSI_ASENSE_INVALID_COMMAND SCSI_ASENSEQ_NO_QUALIFIER s))"

definition SCSI_DecodeSCSICommand :: "'w mcu \<Rightarrow> 'f spm \<Rightarrow> 'f eep \<Rightarrow> (nat \<Rightarrow> u8 list) \<Rightarrow> ('f, 'w) scsi" where
  "SCSI_DecodeSCSICommand m p e stack c s = do {
     (CommandSuccess, c, s) \<leftarrow> scsi_switch m p e stack c s;
     if CommandSuccess
     then Some (True, c, SCSI_SET_SENSE SCSI_SENSE_KEY_GOOD SCSI_ASENSE_NO_ADDITIONAL_INFORMATION SCSI_ASENSEQ_NO_QUALIFIER s)
     else Some (False, c, s) }"

text \<open>The board's LEDs are an argument, as are their masks.\<close>

definition CALLBACK_MS_Device_SCSICommandReceived ::
    "'w mcu \<Rightarrow> 'f spm \<Rightarrow> 'f eep \<Rightarrow> (nat \<Rightarrow> u8 list) \<Rightarrow> (u8 \<Rightarrow> ('f, 'w) ms_dev \<Rightarrow> ('f, 'w) ms_dev) \<Rightarrow> u8 \<Rightarrow> u8 \<Rightarrow> ('f, 'w) scsi" where
  "CALLBACK_MS_Device_SCSICommandReceived m p e stack LEDs_SetAllLEDs busy_leds ready_leds c s = do {
     let s = LEDs_SetAllLEDs busy_leds s;
     (CommandSuccess, c, s) \<leftarrow> SCSI_DecodeSCSICommand m p e stack c s;
     let s = LEDs_SetAllLEDs ready_leds s;
     let s = s\<lparr>app := (app s)\<lparr>TicksSinceLastCommand := 0\<rparr>\<rparr>;
     Some (CommandSuccess, c, s) }"

subsection \<open>The class driver\<close>

definition MS_Device_ProcessControlRequest ::
    "'w mcu \<Rightarrow> USB_ClassInfo_MS_Device \<Rightarrow> ('c, 'w) dev \<Rightarrow> (USB_ClassInfo_MS_Device \<times> ('c, 'w) dev) option" where
  "MS_Device_ProcessControlRequest m c s =
    (let (setup, s) = Endpoint_IsSETUPReceived m s; r = USB_ControlRequest s in
     if \<not> setup then Some (c, s)
     else if wIndex r \<noteq> ucast (InterfaceNumber c) then Some (c, s)
     else if bRequest r = MS_REQ_MassStorageReset then
       if bmRequestType r = REQDIR_HOSTTODEVICE OR REQTYPE_CLASS OR REQREC_INTERFACE
       then do {
         (_, s) \<leftarrow> Endpoint_ClearStatusStage m (Endpoint_ClearSETUP m s);
         Some (c\<lparr>IsMassStoreReset := True\<rparr>, s) }
       else Some (c, s)
     else if bRequest r = MS_REQ_GetMaxLUN then
       if bmRequestType r = REQDIR_DEVICETOHOST OR REQTYPE_CLASS OR REQREC_INTERFACE
       then do {
         (_, s) \<leftarrow> wait_for (Endpoint_IsINReady m) (Endpoint_ClearSETUP m s);
         (_, s) \<leftarrow> Endpoint_ClearStatusStage m (Endpoint_ClearIN m (Endpoint_Write_8 m (TotalLUNs c - 1) s));
         Some (c, s) }
       else Some (c, s)
     else Some (c, s))"

definition zero_status :: MS_CommandStatusWrapper where
  "zero_status = \<lparr>CSW_Signature = 0, CSW_Tag = 0, DataTransferResidue = 0, Status = 0\<rparr>"

definition MS_Device_ConfigureEndpoints ::
    "'w mcu \<Rightarrow> USB_ClassInfo_MS_Device \<Rightarrow> ('c, 'w) dev \<Rightarrow> (bool \<times> USB_ClassInfo_MS_Device \<times> ('c, 'w) dev) option" where
  "MS_Device_ConfigureEndpoints m c s = do {
     let c = c\<lparr>CommandBlock := replicate 31 0, CommandStatus := zero_status, IsMassStoreReset := False\<rparr>;
     let c = c\<lparr>DataINEndpoint := (DataINEndpoint c)\<lparr>Type := EP_TYPE_BULK\<rparr>,
               DataOUTEndpoint := (DataOUTEndpoint c)\<lparr>Type := EP_TYPE_BULK\<rparr>\<rparr>;
     (ok, s) \<leftarrow> Endpoint_ConfigureEndpointTable m [DataINEndpoint c] s;
     if \<not> ok then Some (False, c, s)
     else do {
       (ok, s) \<leftarrow> Endpoint_ConfigureEndpointTable m [DataOUTEndpoint c] s;
       Some (ok, c, s) } }"

type_synonym ('c, 'w) ms_irq = "USB_ClassInfo_MS_Device \<Rightarrow> ('c, 'w) dev \<Rightarrow> (USB_ClassInfo_MS_Device \<times> ('c, 'w) dev) option"

text \<open>
  A transfer that is continued as long as it is incomplete. The loop carries the interface, the bytes processed so far and the
  buffer; the result says whether it was not given up because of a reset.
\<close>

definition ms_transfer_body ::
    "(u8 list \<Rightarrow> u16 \<Rightarrow> u16 option \<Rightarrow> ('c, 'w) dev \<Rightarrow> ((u8 \<times> u16 option \<times> u8 list) \<times> ('c, 'w) dev) option) \<Rightarrow> ('c, 'w) ms_irq \<Rightarrow> u16 \<Rightarrow>
     USB_ClassInfo_MS_Device \<times> u16 option \<times> u8 list \<Rightarrow> ('c, 'w) dev \<Rightarrow>
     ((USB_ClassInfo_MS_Device \<times> u16 option \<times> u8 list + bool \<times> USB_ClassInfo_MS_Device \<times> u8 list) \<times> ('c, 'w) dev) option" where
  "ms_transfer_body stream irq Length l s = (case l of (c, BytesProcessed, buf) \<Rightarrow> do {
     ((e, BytesProcessed, buf), s) \<leftarrow> stream buf Length BytesProcessed s;
     if e \<noteq> ENDPOINT_RWSTREAM_IncompleteTransfer then Some (Inr (True, c, buf), s)
     else do {
       (c, s) \<leftarrow> irq c s;
       if IsMassStoreReset c then Some (Inr (False, c, buf), s) else Some (Inl (c, BytesProcessed, buf), s) } })"

definition ms_transfer where
  "ms_transfer stream irq Length c buf s = floop (ms_transfer_body stream irq Length) (c, Some 0, buf) s"

definition MS_Device_ReadInCommandBlock ::
    "'w mcu \<Rightarrow> ('c, 'w) ms_irq \<Rightarrow> USB_ClassInfo_MS_Device \<Rightarrow> ('c, 'w) dev \<Rightarrow> (bool \<times> USB_ClassInfo_MS_Device \<times> ('c, 'w) dev) option" where
  "MS_Device_ReadInCommandBlock m irq c s = do {
     let s = Endpoint_SelectEndpoint m (Address (DataOUTEndpoint c)) s;
     ((ok, c, buf), s) \<leftarrow> ms_transfer (Endpoint_Read_Stream_LE m) irq 15 c (take 15 (CommandBlock c)) s;
     let c = c\<lparr>CommandBlock := buf @ drop 15 (CommandBlock c)\<rparr>;
     if \<not> ok then Some (False, c, s)
     else if CBW_Signature c \<noteq> MS_CBW_SIGNATURE \<or> TotalLUNs c \<le> LUN c \<or> Flags c AND 0x1F \<noteq> 0 \<or>
             SCSICommandLength c = 0 \<or> 16 < SCSICommandLength c then
       let s = Endpoint_StallTransaction m s;
           s = Endpoint_StallTransaction m (Endpoint_SelectEndpoint m (Address (DataINEndpoint c)) s)
       in Some (False, c, s)
     else do {
       ((ok, c, buf), s) \<leftarrow> ms_transfer (Endpoint_Read_Stream_LE m) irq (ucast (SCSICommandLength c)) c (SCSICommandData c) s;
       let c = c\<lparr>CommandBlock := take 15 (CommandBlock c) @ buf\<rparr>;
       if \<not> ok then Some (False, c, s) else Some (True, c, Endpoint_ClearOUT m s) } }"

text \<open>Waiting until the host clears a stall.\<close>

definition unstalled :: "'w mcu \<Rightarrow> ('c, 'w) ms_irq \<Rightarrow> USB_ClassInfo_MS_Device \<Rightarrow> ('c, 'w) dev \<Rightarrow>
    ((bool \<times> USB_ClassInfo_MS_Device) \<times> ('c, 'w) dev) option" where
  "unstalled m irq = floop (\<lambda>c s. let (stalled, s) = Endpoint_IsStalled m s in
     if \<not> stalled then Some (Inr (True, c), s)
     else do {
       (c, s) \<leftarrow> irq c s;
       Some (if IsMassStoreReset c then Inr (False, c) else Inl c, s) })"

definition MS_Device_ReturnCommandStatus ::
    "'w mcu \<Rightarrow> ('c, 'w) ms_irq \<Rightarrow> USB_ClassInfo_MS_Device \<Rightarrow> ('c, 'w) dev \<Rightarrow> (USB_ClassInfo_MS_Device \<times> ('c, 'w) dev) option" where
  "MS_Device_ReturnCommandStatus m irq c s = do {
     ((ok, c), s) \<leftarrow> unstalled m irq c (Endpoint_SelectEndpoint m (Address (DataOUTEndpoint c)) s);
     if \<not> ok then Some (c, s)
     else do {
       ((ok, c), s) \<leftarrow> unstalled m irq c (Endpoint_SelectEndpoint m (Address (DataINEndpoint c)) s);
       if \<not> ok then Some (c, s)
       else do {
         ((ok, c, _), s) \<leftarrow> ms_transfer (Endpoint_Write_Stream_LE m) irq 13 c (status_bytes (CommandStatus c)) s;
         if \<not> ok then Some (c, s) else Some (c, Endpoint_ClearIN m s) } } }"

text \<open>A command that was received: it is carried out and its status returned.\<close>

definition ms_command :: "'w mcu \<Rightarrow> ('c, 'w) ms_irq \<Rightarrow>
    (USB_ClassInfo_MS_Device \<Rightarrow> ('c, 'w) dev \<Rightarrow> (bool \<times> USB_ClassInfo_MS_Device \<times> ('c, 'w) dev) option) \<Rightarrow>
    USB_ClassInfo_MS_Device \<Rightarrow> ('c, 'w) dev \<Rightarrow> (USB_ClassInfo_MS_Device \<times> ('c, 'w) dev) option" where
  "ms_command m irq callback c s = do {
     let s = (if Flags c AND MS_COMMAND_DIR_DATA_IN \<noteq> 0 then Endpoint_SelectEndpoint m (Address (DataINEndpoint c)) s else s);
     (SCSICommandResult, c, s) \<leftarrow> callback c s;
     let c = c\<lparr>CommandStatus := \<lparr>CSW_Signature = MS_CSW_SIGNATURE, CSW_Tag = CBW_Tag c, DataTransferResidue = DataTransferLength c,
               Status = if SCSICommandResult then MS_SCSI_COMMAND_Pass else MS_SCSI_COMMAND_Fail\<rparr>\<rparr>;
     let s = (if \<not> SCSICommandResult \<and> DataTransferResidue (CommandStatus c) \<noteq> 0 then Endpoint_StallTransaction m s else s);
     MS_Device_ReturnCommandStatus m irq c s }"

definition ms_reset :: "'w mcu \<Rightarrow> USB_ClassInfo_MS_Device \<Rightarrow> ('c, 'w) dev \<Rightarrow> USB_ClassInfo_MS_Device \<times> ('c, 'w) dev" where
  "ms_reset m c s =
    (let s = Endpoint_ResetEndpoint m (Address (DataOUTEndpoint c)) s;
         s = Endpoint_ResetEndpoint m (Address (DataINEndpoint c)) s;
         s = Endpoint_SelectEndpoint m (Address (DataOUTEndpoint c)) s;
         s = Endpoint_ResetDataToggle m (Endpoint_ClearStall m s);
         s = Endpoint_SelectEndpoint m (Address (DataINEndpoint c)) s;
         s = Endpoint_ResetDataToggle m (Endpoint_ClearStall m s)
     in (c\<lparr>IsMassStoreReset := False\<rparr>, s))"

definition MS_Device_USBTask :: "'w mcu \<Rightarrow> ('c, 'w) ms_irq \<Rightarrow>
    (USB_ClassInfo_MS_Device \<Rightarrow> ('c, 'w) dev \<Rightarrow> (bool \<times> USB_ClassInfo_MS_Device \<times> ('c, 'w) dev) option) \<Rightarrow>
    USB_ClassInfo_MS_Device \<Rightarrow> ('c, 'w) dev \<Rightarrow> (USB_ClassInfo_MS_Device \<times> ('c, 'w) dev) option" where
  "MS_Device_USBTask m irq callback c s = (let (st, s) = getr m USB_DeviceState s in
     if st \<noteq> DEVICE_STATE_Configured then Some (c, s)
     else do {
       let (out, s) = Endpoint_IsOUTReceived m (Endpoint_SelectEndpoint m (Address (DataOUTEndpoint c)) s);
       (c, s) \<leftarrow> (if \<not> out then Some (c, s)
         else do {
           (ok, c, s) \<leftarrow> MS_Device_ReadInCommandBlock m irq c s;
           if ok then ms_command m irq callback c s else Some (c, s) });
       Some (if IsMassStoreReset c then ms_reset m c s else (c, s)) })"

subsection \<open>The main program\<close>



text \<open>The condition of the main loop counts the iterations since the last command, once the volume is ejected.\<close>

definition ms_continues :: "'f ms_boot \<Rightarrow> bool \<times> 'f ms_boot" where
  "ms_continues b = (if RunBootloader b then (True, b)
     else (TicksSinceLastCommand b < 0xFF, b\<lparr>TicksSinceLastCommand := TicksSinceLastCommand b + 1\<rparr>))"

definition ms_main_body :: "'w mcu \<Rightarrow> ('f ms_boot, 'w) events \<Rightarrow> ('f ms_boot, 'w) ms_irq \<Rightarrow> ('f, 'w) scsi \<Rightarrow>
    USB_ClassInfo_MS_Device \<Rightarrow> ('f, 'w) ms_dev \<Rightarrow> ((USB_ClassInfo_MS_Device + USB_ClassInfo_MS_Device) \<times> ('f, 'w) ms_dev) option" where
  "ms_main_body m ev irq callback c s = (let (go, b) = ms_continues (app s); s = s\<lparr>app := b\<rparr> in
     if \<not> go then Some (Inr c, s)
     else do {
       (c, s) \<leftarrow> MS_Device_USBTask m irq callback c s;
       s \<leftarrow> USB_USBTask m ev s;
       Some (Inl c, s) })"

subsection \<open>What the transfers leave alone\<close>

lemma app_access [simp]:
  "app (snd (getr m r s)) = app s" "app (setr m r v s) = app s" "app (modr m r f s) = app s" "app (snd (testr m r b s)) = app s"
  "app (snd (USB_Device_GetFrameNumber m s)) = app s"
  by (simp_all add: getr_def setr_def modr_def testr_def USB_Device_GetFrameNumber_def split_beta)

lemma app_endpoint [simp]:
  "app (Endpoint_SelectEndpoint m v s) = app s" "app (Endpoint_ClearIN m s) = app s" "app (Endpoint_ClearOUT m s) = app s"
  "app (Endpoint_Write_8 m v s) = app s" "app (snd (Endpoint_Read_8 m s)) = app s"
  "app (snd (Endpoint_IsReadWriteAllowed m s)) = app s" "app (snd (Endpoint_IsINReady m s)) = app s"
  "app (snd (Endpoint_IsOUTReceived m s)) = app s" "app (snd (Endpoint_IsStalled m s)) = app s"
  "app (snd (Endpoint_GetEndpointDirection m s)) = app s"
  "app (Endpoint_Write_32_LE m w s) = app s" "app (Endpoint_Write_32_BE m w s) = app s"
  by (simp_all add: Endpoint_SelectEndpoint_def Endpoint_ClearIN_def Endpoint_ClearOUT_def Endpoint_Write_8_def Endpoint_Read_8_def
    Endpoint_IsReadWriteAllowed_def Endpoint_IsINReady_def Endpoint_IsOUTReceived_def Endpoint_IsStalled_def
    Endpoint_GetEndpointDirection_def Endpoint_Write_32_LE_def Endpoint_Write_32_BE_def split_beta Let_def)

lemma app_poll [simp]: "app (snd (ready_poll m s)) = app s"
  by (simp add: ready_poll_def split_beta)










subsection \<open>Properties\<close>



















end
