(* ===== verification/Bootloader_HEX.thy ===== *)
theory Bootloader_HEX
  imports Flash_Memory
begin

text \<open>
  The boot loader that is printed to, \<open>Bootloaders/Printer\<close>: it receives an Intel HEX file as a stream of characters and
  programs the flash, a page of words at a time.
\<close>

subsection \<open>The parser\<close>

datatype HEX_Parser_States = HEX_PARSE_STATE_WAIT_LINE | HEX_PARSE_STATE_BYTE_COUNT | HEX_PARSE_STATE_ADDRESS_HIGH
  | HEX_PARSE_STATE_ADDRESS_LOW | HEX_PARSE_STATE_RECORD_TYPE | HEX_PARSE_STATE_READ_DATA | HEX_PARSE_STATE_CHECKSUM

definition HEX_RECORD_TYPE_Data :: u8 where [simp]: "HEX_RECORD_TYPE_Data = 0"
definition HEX_RECORD_TYPE_EndOfFile :: u8 where [simp]: "HEX_RECORD_TYPE_EndOfFile = 1"
definition HEX_RECORD_TYPE_ExtendedSegmentAddress :: u8 where [simp]: "HEX_RECORD_TYPE_ExtendedSegmentAddress = 2"
definition HEX_RECORD_TYPE_ExtendedLinearAddress :: u8 where [simp]: "HEX_RECORD_TYPE_ExtendedLinearAddress = 4"

record 'f hex_boot =
  ParserState :: HEX_Parser_States
  PrevData :: u8
  Data :: u8
  ReadMSB :: bool
  RecordType :: u8
  DataRem :: u8
  Checksum :: u8
  PageStartAddress :: u32
  CurrBaseAddress :: u32
  CurrAddress :: u32
  PageDirty :: bool
  RunBootloader :: bool
  flash :: 'f

text \<open>\<open>char\<close> is unsigned in this build.\<close>

definition HexToDecimal :: "u8 \<Rightarrow> int" where
  "HexToDecimal Byte =
    (if 65 \<le> Byte \<and> Byte \<le> 70 then 10 + (uint Byte - 65)
     else if 48 \<le> Byte \<and> Byte \<le> 57 then uint Byte - 48
     else - 1)"

definition FlushPageIfRequired :: "'f spm \<Rightarrow> 'f hex_boot \<Rightarrow> 'f hex_boot" where
  "FlushPageIfRequired m s =
    (if \<not> PageDirty s then s
     else let NewPageStartAddress = CurrAddress s AND NOT (of_nat SPM_PAGESIZE - 1) in
       if PageStartAddress s \<noteq> NewPageStartAddress
       then s\<lparr>flash := boot_page_write m (PageStartAddress s) (flash s), PageStartAddress := NewPageStartAddress,
              PageDirty := False\<rparr>
       else s)"

text \<open>The word that is complete in a record of the given type.\<close>

definition program_word :: "'f spm \<Rightarrow> u16 \<Rightarrow> 'f hex_boot \<Rightarrow> 'f hex_boot" where
  "program_word m NewDataWord s =
    (if RecordType s = HEX_RECORD_TYPE_Data then
       let s = (if \<not> PageDirty s
                then s\<lparr>flash := boot_page_erase m (PageStartAddress s) (flash s), PageDirty := True\<rparr> else s);
           s = s\<lparr>flash := boot_page_fill m (CurrAddress s) NewDataWord (flash s), CurrAddress := CurrAddress s + 2\<rparr>
       in FlushPageIfRequired m s
     else if RecordType s = HEX_RECORD_TYPE_ExtendedSegmentAddress
     then s\<lparr>CurrBaseAddress := push_bit 4 (ucast NewDataWord)\<rparr>
     else if RecordType s = HEX_RECORD_TYPE_ExtendedLinearAddress
     then s\<lparr>CurrBaseAddress := push_bit 16 (ucast NewDataWord)\<rparr>
     else s)"

definition read_data :: "'f spm \<Rightarrow> 'f hex_boot \<Rightarrow> 'f hex_boot" where
  "read_data m s =
    (let s = s\<lparr>DataRem := DataRem s - 1\<rparr> in
     if CurrAddress s \<ge> BOOT_START_ADDR
     then s\<lparr>ParserState := HEX_PARSE_STATE_WAIT_LINE, PageDirty := False\<rparr>
     else if DataRem s AND 0x01 \<noteq> 0 then s\<lparr>PrevData := Data s\<rparr>
     else let NewDataWord = push_bit 8 (ucast (Data s)) OR ucast (PrevData s);
              s = program_word m NewDataWord s
       in if DataRem s = 0 then s\<lparr>ParserState := HEX_PARSE_STATE_CHECKSUM\<rparr> else s)"

text \<open>What follows when both digits of a byte are read.\<close>

definition process_byte :: "'f spm \<Rightarrow> 'f hex_boot \<Rightarrow> 'f hex_boot" where
  "process_byte m s =
    (let s = (if ParserState s \<noteq> HEX_PARSE_STATE_CHECKSUM then s\<lparr>Checksum := Checksum s + Data s\<rparr> else s) in
     case ParserState s of
       HEX_PARSE_STATE_BYTE_COUNT \<Rightarrow> s\<lparr>DataRem := Data s, ParserState := HEX_PARSE_STATE_ADDRESS_HIGH\<rparr>
     | HEX_PARSE_STATE_ADDRESS_HIGH \<Rightarrow>
         s\<lparr>CurrAddress := CurrAddress s + ucast (push_bit 8 (ucast (Data s)) :: u16),
           ParserState := HEX_PARSE_STATE_ADDRESS_LOW\<rparr>
     | HEX_PARSE_STATE_ADDRESS_LOW \<Rightarrow>
         s\<lparr>CurrAddress := CurrAddress s + ucast (Data s), ParserState := HEX_PARSE_STATE_RECORD_TYPE\<rparr>
     | HEX_PARSE_STATE_RECORD_TYPE \<Rightarrow>
         s\<lparr>RecordType := Data s, ParserState :=
             if DataRem s \<noteq> 0 then HEX_PARSE_STATE_READ_DATA else HEX_PARSE_STATE_CHECKSUM\<rparr>
     | HEX_PARSE_STATE_READ_DATA \<Rightarrow> read_data m s
     | HEX_PARSE_STATE_CHECKSUM \<Rightarrow>
         if Data s \<noteq> (NOT (Checksum s) + 1) AND 0xFF then s
         else let s = FlushPageIfRequired m s in
           if RecordType s = HEX_RECORD_TYPE_EndOfFile then s\<lparr>RunBootloader := False\<rparr> else s
     | HEX_PARSE_STATE_WAIT_LINE \<Rightarrow> s\<lparr>ParserState := HEX_PARSE_STATE_WAIT_LINE\<rparr>)"

definition ParseIntelHEXByte :: "'f spm \<Rightarrow> u8 \<Rightarrow> 'f hex_boot \<Rightarrow> 'f hex_boot" where
  "ParseIntelHEXByte m ReadCharacter s =
    (if ParserState s = HEX_PARSE_STATE_WAIT_LINE \<or> ReadCharacter = 58 then
       let s = s\<lparr>Checksum := 0, CurrAddress := CurrBaseAddress s, ReadMSB := False\<rparr>
       in if ReadCharacter = 58 then s\<lparr>ParserState := HEX_PARSE_STATE_BYTE_COUNT\<rparr> else s
     else let ReadCharacterDec = HexToDecimal ReadCharacter in
     if ReadCharacterDec < 0 then s
     else let s = s\<lparr>Data := push_bit 4 (Data s) OR word_of_int ReadCharacterDec, ReadMSB := \<not> ReadMSB s\<rparr> in
     if ReadMSB s then s else process_byte m s)"

text \<open>The inner loop of \<open>main\<close>: the characters received are fed to the parser.\<close>

fun feed_parser :: "'f spm \<Rightarrow> u8 list \<Rightarrow> 'f hex_boot \<Rightarrow> 'f hex_boot" where
  "feed_parser m [] s = s"
| "feed_parser m (c # cs) s = feed_parser m cs (ParseIntelHEXByte m c s)"

text \<open>The variables at power-on.\<close>

definition hex_start :: "'f \<Rightarrow> 'f hex_boot" where
  "hex_start f = \<lparr>ParserState = HEX_PARSE_STATE_WAIT_LINE, PrevData = 0, Data = 0, ReadMSB = False, RecordType = 0,
     DataRem = 0, Checksum = 0, PageStartAddress = 0, CurrBaseAddress = 0, CurrAddress = 0, PageDirty = False,
     RunBootloader = True, flash = f\<rparr>"

subsection \<open>HEX files\<close>

definition digit_char :: "u8 \<Rightarrow> u8" where
  "digit_char d = (if d < 10 then 48 + d else 55 + d)"

definition hex_byte :: "u8 \<Rightarrow> u8 list" where
  "hex_byte b = [digit_char (drop_bit 4 b), digit_char (b AND 15)]"

text \<open>A record: the bytes of its fields, then their checksum, then the end of the line.\<close>

definition record_bytes :: "u16 \<Rightarrow> u8 \<Rightarrow> u8 list \<Rightarrow> u8 list" where
  "record_bytes addr typ ds = [of_nat (length ds), ucast (drop_bit 8 addr), ucast addr, typ] @ ds"

definition hex_line :: "u16 \<Rightarrow> u8 \<Rightarrow> u8 list \<Rightarrow> u8 list" where
  "hex_line addr typ ds = (let bs = record_bytes addr typ ds in
     58 # concat (map hex_byte (bs @ [- sum_list bs])) @ [13, 10])"

text \<open>The file of an image that is split into chunks, loaded from address \<open>n\<close> on, and the record that ends a file.\<close>

fun image_lines :: "nat \<Rightarrow> u8 list list \<Rightarrow> u8 list" where
  "image_lines n [] = []"
| "image_lines n (ds # dss) = hex_line (of_nat n) HEX_RECORD_TYPE_Data ds @ image_lines (n + length ds) dss"

definition eof_line :: "u8 list" where
  "eof_line = hex_line 0 HEX_RECORD_TYPE_EndOfFile []"

lemma feed_append: "feed_parser m (xs @ ys) s = feed_parser m ys (feed_parser m xs s)"
  by (induction xs arbitrary: s) simp_all

lemma digit_chars: "list_all (\<lambda>n. HexToDecimal (digit_char (of_nat n)) = int n \<and> digit_char (of_nat n) \<noteq> 58) [0..<16]"
  by code_simp

lemma digit_char_decimal:
  assumes "d < 16"
  shows "HexToDecimal (digit_char d) = uint d" and "digit_char d \<noteq> 58"
proof -
  from assms have "unat d \<in> set [0..<16]" by (simp add: word_less_nat_alt)
  from bspec [OF digit_chars [unfolded list_all_iff] this]
  have "HexToDecimal (digit_char (of_nat (unat d))) = int (unat d) \<and> digit_char (of_nat (unat d)) \<noteq> 58" .
  then show "HexToDecimal (digit_char d) = uint d" "digit_char d \<noteq> 58" by simp_all
qed

lemma byte_nibbles:
  fixes b :: u8
  shows "drop_bit 4 b < 16" and "b AND 15 < 16" and "push_bit 4 (drop_bit 4 b) OR b AND 15 = b"
proof -
  have "unat (drop_bit 4 b) = unat b div 2 ^ 4" by (simp add: drop_bit_eq_div unat_div_distrib)
  moreover have "unat b < 256" using unsigned_less [of b] by simp
  ultimately show "drop_bit 4 b < 16" by (simp add: word_less_nat_alt)
  have "b AND 15 = take_bit 4 b" by (simp add: take_bit_eq_mask mask_eq_exp_minus_1)
  then have "unat (b AND 15) = unat b mod 16" by (simp add: take_bit_eq_mod unat_mod_distrib)
  then show "b AND 15 < 16" by (simp add: word_less_nat_alt)
  have "(15 :: u8) = mask 4" by (simp add: mask_eq_exp_minus_1)
  then show "push_bit 4 (drop_bit 4 b) OR b AND 15 = b"
    by (auto simp: bit_eq_iff bit_simps)
qed

lemma feed_hex_byte:
  assumes "\<not> ReadMSB s" and "ParserState s \<noteq> HEX_PARSE_STATE_WAIT_LINE"
  shows "feed_parser m (hex_byte b) s = process_byte m (s\<lparr>Data := b\<rparr>)"
proof -
  note d = digit_char_decimal [OF byte_nibbles(1) [of b]] digit_char_decimal [OF byte_nibbles(2) [of b]]
  from assms show ?thesis
    by (cases s) (simp add: hex_byte_def ParseIntelHEXByte_def d byte_nibbles(3) Let_def)
qed

lemma header_read:
  assumes "length ds < 256"
  shows "feed_parser m (58 # concat (map hex_byte [of_nat (length ds), ah, al, typ])) s =
    s\<lparr>ParserState := if ds \<noteq> [] then HEX_PARSE_STATE_READ_DATA else HEX_PARSE_STATE_CHECKSUM, Data := typ, ReadMSB := False,
      RecordType := typ, DataRem := of_nat (length ds), Checksum := of_nat (length ds) + ah + al + typ,
      CurrAddress := CurrBaseAddress s + ucast (push_bit 8 (ucast ah) :: u16) + ucast al\<rparr>"
proof -
  have "(of_nat (length ds) :: u8) = 0 \<longleftrightarrow> ds = []"
    using assms by (cases "ds = []") (auto simp: word_of_nat_eq_0_iff dest: dvd_imp_le)
  then show ?thesis
    by (cases s) (simp add: feed_append feed_hex_byte process_byte_def Let_def ParseIntelHEXByte_def)
qed

subsection \<open>Programming an image\<close>

lemma and_not_255: "x AND NOT 255 = x div 256 * 256" for x :: u32
proof -
  have "x AND NOT (mask 8) = push_bit 8 (drop_bit 8 x)"
    by (rule bit_word_eqI) (auto simp: bit_simps)
  then show ?thesis by (simp add: mask_eq_exp_minus_1 push_bit_eq_mult drop_bit_eq_div)
qed

lemma page_start:
  assumes "n < 2 ^ 32"
  shows "(of_nat n :: u32) AND NOT (of_nat SPM_PAGESIZE - 1) = of_nat (page_of n * SPM_PAGESIZE)"
proof -
  from assms have "unat (of_nat n :: u32) = n" by (simp add: unat_of_nat)
  then have "(of_nat n :: u32) div 256 = of_nat (n div 256)" by (simp add: word_arith_nat_div)
  then show ?thesis by (simp add: SPM_PAGESIZE_def page_of_def and_not_255 [simplified])
qed

lemma word_parity: "of_nat k AND (1 :: u8) = of_bool (odd k)"
proof -
  have "odd (of_nat k :: u8) = odd k" unfolding bit_0 [symmetric] by (simp add: bit_simps del: bit_0)
  then show ?thesis by (simp add: and_one_eq mod_2_eq_odd)
qed

lemma address_bytes:
  fixes a :: u16
  shows "ucast (push_bit 8 (ucast (ucast (drop_bit 8 a) :: u8)) :: u16) + ucast (ucast a :: u8) = (ucast a :: u32)"
  by (subst disjunctive_add; (rule bit_word_eqI)?; auto simp: bit_simps not_less dest: bit_imp_le_length)

lemma ucast_length: "n < 65536 \<Longrightarrow> (ucast (of_nat n :: u16) :: u32) = of_nat n"
  by (simp add: word_unat_eq_iff unat_of_nat unsigned_ucast_eq take_bit_nat_eq_self)

lemma below_boot: "n < 65536 \<Longrightarrow> \<not> BOOT_START_ADDR \<le> of_nat n"
  by (simp add: BOOT_START_ADDR_def not_le word_less_nat_alt unat_of_nat)

lemma checksum_match: "(NOT c + 1) AND 0xFF = - c" for c :: u8
  using erased_and [of "- c"] by (simp add: not_eq_complement and.commute)

text \<open>The checksum and the end of the line.\<close>

lemma line_end:
  assumes "ParserState s = HEX_PARSE_STATE_CHECKSUM" and "\<not> ReadMSB s"
  shows "feed_parser m (hex_byte (- Checksum s) @ [13, 10]) s =
    (let u = FlushPageIfRequired m (s\<lparr>Data := - Checksum s\<rparr>) in
     if RecordType s = HEX_RECORD_TYPE_EndOfFile then u\<lparr>RunBootloader := False\<rparr> else u)"
proof -
  have "HexToDecimal 13 = - 1" "HexToDecimal 10 = - 1" by code_simp+
  then show ?thesis using assms checksum_match [of "Checksum s"]
    by (auto simp add: feed_append feed_hex_byte process_byte_def Let_def ParseIntelHEXByte_def FlushPageIfRequired_def)
qed

text \<open>A record of two bytes below the boot section.\<close>

lemma program_word_keeps [simp]:
  "DataRem (program_word m w s) = DataRem s" "ReadMSB (program_word m w s) = ReadMSB s"
  "Checksum (program_word m w s) = Checksum s" "RecordType (program_word m w s) = RecordType s"
  "ParserState (program_word m w s) = ParserState s" "RunBootloader (program_word m w s) = RunBootloader s"
  by (simp_all add: program_word_def FlushPageIfRequired_def Let_def)

lemma two_byte_line:
  fixes x y :: u8
  assumes "CurrBaseAddress s + ucast addr < BOOT_START_ADDR" and "typ \<noteq> HEX_RECORD_TYPE_EndOfFile"
  defines "c \<equiv> sum_list (record_bytes addr typ [x, y])"
  shows "feed_parser m (hex_line addr typ [x, y]) s =
    FlushPageIfRequired m ((program_word m (push_bit 8 (ucast y) OR ucast x)
      (s\<lparr>ParserState := HEX_PARSE_STATE_READ_DATA, PrevData := x, Data := y, ReadMSB := False, RecordType := typ, DataRem := 0,
         Checksum := c, CurrAddress := CurrBaseAddress s + ucast addr\<rparr>))\<lparr>ParserState := HEX_PARSE_STATE_CHECKSUM, Data := - c\<rparr>)"
proof -
  let ?h = "[of_nat (length [x, y]), ucast (drop_bit 8 addr), ucast addr, typ :: u8]"
  let ?u = "s\<lparr>ParserState := HEX_PARSE_STATE_READ_DATA, Data := typ, ReadMSB := False,
      RecordType := typ, DataRem := 2, Checksum := sum_list ?h, CurrAddress := CurrBaseAddress s + ucast addr\<rparr>"
  let ?v = "program_word m (push_bit 8 (ucast y) OR ucast x)
      (s\<lparr>ParserState := HEX_PARSE_STATE_READ_DATA, PrevData := x, Data := y, ReadMSB := False, RecordType := typ, DataRem := 0,
         Checksum := c, CurrAddress := CurrBaseAddress s + ucast addr\<rparr>)"
  have h: "feed_parser m (58 # concat (map hex_byte ?h)) s = ?u"
    by (subst header_read) (simp_all add: add.assoc address_bytes)
  have 1: "feed_parser m (hex_byte x) ?u = ?u\<lparr>PrevData := x, Data := x, DataRem := 1, Checksum := sum_list ?h + x\<rparr>"
    using assms(1) by (simp add: feed_hex_byte process_byte_def read_data_def Let_def)
  have 2: "feed_parser m (hex_byte y) (?u\<lparr>PrevData := x, Data := x, DataRem := 1, Checksum := sum_list ?h + x\<rparr>) =
      ?v\<lparr>ParserState := HEX_PARSE_STATE_CHECKSUM\<rparr>"
    using assms(1)
    by (cases s) (simp add: feed_hex_byte process_byte_def read_data_def Let_def c_def record_bytes_def add.assoc not_le)
  have l: "hex_line addr typ [x, y] =
      (58 # concat (map hex_byte ?h)) @ hex_byte x @ hex_byte y @ hex_byte (- c) @ [13, 10]"
    by (simp add: hex_line_def record_bytes_def c_def)
  obtain w where w: "w = ?v\<lparr>ParserState := HEX_PARSE_STATE_CHECKSUM\<rparr>" by blast
  then have "Checksum w = c" "ParserState w = HEX_PARSE_STATE_CHECKSUM" "\<not> ReadMSB w" "RecordType w = typ" by simp_all
  with line_end [of w m] assms(2) have "feed_parser m (hex_byte (- c) @ [13, 10]) w = FlushPageIfRequired m (w\<lparr>Data := - c\<rparr>)"
    by (simp add: Let_def)
  then show ?thesis unfolding l feed_append [of _ "58 # _"] h unfolding feed_append 1 2 w by simp
qed

context flash_memory
begin

text \<open>The bytes \<open>bs\<close> have been loaded from address 0 on, into a flash that held \<open>c0\<close>.\<close>

definition loaded :: "(nat \<Rightarrow> u8) \<Rightarrow> u8 list \<Rightarrow> 'f hex_boot \<Rightarrow> bool" where
  "loaded c0 bs s \<longleftrightarrow> burning c0 0 bs (flash s) \<and> CurrBaseAddress s = 0 \<and>
     PageStartAddress s = of_nat (page_of (length bs) * SPM_PAGESIZE) \<and>
     (PageDirty s \<longleftrightarrow> length bs mod SPM_PAGESIZE \<noteq> 0)"

lemma program_word_loaded:
  fixes lo hi :: u8
  assumes l: "loaded c0 bs s" and a: "CurrAddress s = of_nat (length bs)" and n: "length bs < 2 ^ 20" and t: "RecordType s = 0"
  defines "s' \<equiv> program_word spm (push_bit 8 (ucast hi) OR ucast lo) s"
  shows "loaded c0 (bs @ [lo, hi]) s'" and "CurrAddress s' = of_nat (length bs + 2)"
proof -
  let ?p = "length bs" and ?q = "page_of (length bs)" and ?r = "length bs mod SPM_PAGESIZE" and ?bs = "bs @ [lo, hi]"
  define f where "f = boot_page_fill spm (of_nat (0 + length bs)) (push_bit 8 (ucast hi) OR ucast lo)
    (if ?r = 0 then boot_page_erase spm (PageStartAddress s) (flash s) else flash s)"
  have b: "burning c0 0 bs (flash s)" and d: "PageDirty s \<longleftrightarrow> ?r \<noteq> 0" and c: "CurrBaseAddress s = 0"
    and ps: "PageStartAddress s = of_nat (?q * SPM_PAGESIZE)"
    using l by (simp_all add: loaded_def)
  then have ev: "even ?p" by (simp add: burning_def)
  have "page_of (unat (PageStartAddress s)) = page_of (0 + ?p)" using page_address [OF n] by (simp only: ps add_0)
  with b n have f: "burning c0 0 ?bs (if ?r = 254 then boot_page_write spm (PageStartAddress s) f else f)"
    unfolding f_def by (intro burn_word) simp_all
  define t where "t = s\<lparr>flash := f, PageDirty := True, CurrAddress := of_nat ?p + 2\<rparr>"
  have s': "s' = FlushPageIfRequired spm t"
    unfolding s'_def program_word_def t_def f_def using a \<open>RecordType s = 0\<close> d by (cases s) (auto simp: Let_def)
  then show "CurrAddress s' = of_nat (?p + 2)" by (simp add: FlushPageIfRequired_def t_def Let_def)
  from n have "(of_nat (?p + 2) :: u32) AND NOT (of_nat SPM_PAGESIZE - 1) = of_nat (page_of (?p + 2) * SPM_PAGESIZE)"
    by (intro page_start) simp
  then have new: "of_nat ?p + 2 AND NOT (of_nat SPM_PAGESIZE - 1 :: u32) = of_nat (page_of (?p + 2) * SPM_PAGESIZE)"
    by (simp only: of_nat_add of_nat_numeral)
  have len: "length ?bs = ?p + 2" by simp
  show "loaded c0 ?bs s'"
  proof (cases "?r = 254")
    case False
    note q = page_step(1,2) [OF ev False]
    have "s' = t" unfolding s' using new [unfolded q] by (simp add: FlushPageIfRequired_def t_def Let_def ps)
    then show ?thesis using f False unfolding loaded_def len q by (simp add: t_def c ps)
  next
    case True
    note q = page_step(3,4) [OF ev True]
    have "of_nat (?q * SPM_PAGESIZE) \<noteq> (of_nat (Suc ?q * SPM_PAGESIZE) :: u32)" by (simp add: SPM_PAGESIZE_def)
    then have "s' = t\<lparr>flash := boot_page_write spm (PageStartAddress s) f, PageStartAddress := of_nat (Suc ?q * SPM_PAGESIZE),
        PageDirty := False\<rparr>"
      unfolding s' using new [unfolded q] by (simp add: FlushPageIfRequired_def t_def Let_def ps)
    then show ?thesis using f True unfolding loaded_def len q by (simp add: t_def c)
  qed
qed

text \<open>The parser inside a data record that continues the bytes \<open>bs\<close>, with \<open>k\<close> bytes to come.\<close>

definition in_record :: "(nat \<Rightarrow> u8) \<Rightarrow> u8 list \<Rightarrow> nat \<Rightarrow> bool \<Rightarrow> u8 \<Rightarrow> 'f hex_boot \<Rightarrow> bool" where
  "in_record c0 bs k run c s \<longleftrightarrow> loaded c0 bs s \<and> CurrAddress s = of_nat (length bs) \<and> RecordType s = 0 \<and>
     ParserState s = (if k = 0 then HEX_PARSE_STATE_CHECKSUM else HEX_PARSE_STATE_READ_DATA) \<and>
     DataRem s = of_nat k \<and> \<not> ReadMSB s \<and> RunBootloader s = run \<and> Checksum s = c"

lemma pair_read:
  assumes s: "in_record c0 bs (k + 2) run c s" and k: "even k" "k + 2 < 256" and n: "length bs < 65536"
  shows "in_record c0 (bs @ [lo, hi]) k run (c + lo + hi) (feed_parser spm (hex_byte lo @ hex_byte hi) s)"
proof -
  let ?s1 = "s\<lparr>Data := lo, Checksum := c + lo, DataRem := 1 + of_nat k, PrevData := lo\<rparr>"
  let ?s2 = "?s1\<lparr>Data := hi, Checksum := c + lo + hi, DataRem := of_nat k\<rparr>"
  let ?t = "program_word spm (push_bit 8 (ucast hi) OR ucast lo) ?s2"
  have l: "loaded c0 bs ?s2" "CurrAddress ?s2 = of_nat (length bs)" "length bs < 2 ^ 20" "RecordType ?s2 = 0"
    using s n by (simp_all add: in_record_def loaded_def)
  note t = program_word_loaded [OF l, where lo = lo and hi = hi]
  have [simp]: "CurrAddress s = of_nat (length bs)" "ParserState s = HEX_PARSE_STATE_READ_DATA" "\<not> ReadMSB s" "Checksum s = c"
    "DataRem s = of_nat k + 2"
    using s by (simp_all add: in_record_def)
  have odd: "1 + of_nat k AND (1 :: u8) = 1" using word_parity [of "1 + k"] k(1) by simp
  have even: "of_nat k AND (1 :: u8) = 0" using word_parity [of k] k(1) by simp
  have 1: "feed_parser spm (hex_byte lo) s = ?s1"
    by (simp add: feed_hex_byte process_byte_def read_data_def Let_def below_boot [OF n] odd)
  have 2: "feed_parser spm (hex_byte hi) ?s1 =
      (if k = 0 then ?t\<lparr>ParserState := HEX_PARSE_STATE_CHECKSUM\<rparr> else ?t)"
  proof -
    have "k < 256" using k by simp
    then have "(of_nat k :: u8) = 0 \<longleftrightarrow> k = 0" by (auto simp: word_of_nat_eq_0_iff dest: dvd_imp_le)
    then show ?thesis using t
      by (simp add: feed_hex_byte process_byte_def read_data_def Let_def below_boot [OF n] even)
  qed
  obtain u where u: "u = ?t" by blast
  have "RunBootloader s = run" "RecordType s = 0" using s by (simp_all add: in_record_def)
  then have "loaded c0 (bs @ [lo, hi]) u" "CurrAddress u = of_nat (length bs) + 2" "RecordType u = 0" "DataRem u = of_nat k"
    "ParserState u = HEX_PARSE_STATE_READ_DATA" "\<not> ReadMSB u" "RunBootloader u = run" "Checksum u = c + lo + hi"
    using t by (simp_all add: u)
  then have "in_record c0 (bs @ [lo, hi]) k run (c + lo + hi) (if k = 0 then u\<lparr>ParserState := HEX_PARSE_STATE_CHECKSUM\<rparr> else u)"
    by (simp add: in_record_def loaded_def)
  then show ?thesis unfolding feed_append 1 2 u .
qed

lemma data_read:
  assumes "in_record c0 bs (length ds) run c s" and "even (length ds)" and "length ds < 256" and "length bs + length ds \<le> 65536"
  shows "in_record c0 (bs @ ds) 0 run (c + sum_list ds) (feed_parser spm (concat (map hex_byte ds)) s)"
  using assms
proof (induction ds arbitrary: bs s c rule: induct_list012)
  case 1
  then show ?case by simp
next
  case (2 x)
  then show ?case by simp
next
  case (3 lo hi ds)
  have "in_record c0 (bs @ [lo, hi]) (length ds) run (c + lo + hi) (feed_parser spm (hex_byte lo @ hex_byte hi) s)"
    by (rule pair_read) (use 3 in simp_all)
  from "3.IH"(1) [OF this] 3 show ?case by (simp add: feed_append add.assoc)
qed

text \<open>A data record that continues the bytes loaded so far, and the record that ends the file.\<close>

lemma data_line:
  assumes l: "loaded c0 bs s" and ds: "ds \<noteq> []" "even (length ds)" "length ds < 256" "length bs + length ds \<le> 65536"
  defines "t \<equiv> feed_parser spm (hex_line (of_nat (length bs)) 0 ds) s"
  shows "loaded c0 (bs @ ds) t" and "RunBootloader t = RunBootloader s"
proof -
  let ?a = "of_nat (length bs) :: u16"
  let ?h = "[of_nat (length ds), ucast (drop_bit 8 ?a), ucast ?a, 0 :: u8]"
  let ?c = "sum_list (record_bytes ?a 0 ds)"
  have a: "ucast (push_bit 8 (ucast (ucast (drop_bit 8 ?a) :: u8)) :: u16) + ucast (ucast ?a :: u8) = (of_nat (length bs) :: u32)"
  proof -
    have "length bs < 65536" using ds by (cases ds) simp_all
    then show ?thesis unfolding address_bytes by (rule ucast_length)
  qed
  have "in_record c0 bs (length ds) (RunBootloader s) (sum_list ?h) (feed_parser spm (58 # concat (map hex_byte ?h)) s)"
    using l ds by (subst header_read) (simp_all add: in_record_def loaded_def a)
  from data_read [OF this ds(2-4)]
  have r: "in_record c0 (bs @ ds) 0 (RunBootloader s) ?c (feed_parser spm (58 # concat (map hex_byte (record_bytes ?a 0 ds))) s)"
    (is "in_record _ _ _ _ _ ?u")
    by (simp add: feed_append record_bytes_def add.assoc)
  have "t = feed_parser spm (hex_byte (- ?c) @ [13, 10]) ?u"
    by (simp add: t_def hex_line_def feed_append Let_def)
  then have "t = FlushPageIfRequired spm (?u\<lparr>Data := - ?c\<rparr>)"
    using r line_end [of ?u spm] by (simp add: in_record_def Let_def)
  moreover have "FlushPageIfRequired spm (?u\<lparr>Data := - ?c\<rparr>) = ?u\<lparr>Data := - ?c\<rparr>"
    using r ds page_start [of "length (bs @ ds)"] by (simp add: in_record_def loaded_def FlushPageIfRequired_def Let_def)
  ultimately show "loaded c0 (bs @ ds) t" "RunBootloader t = RunBootloader s"
    using r by (simp_all add: in_record_def loaded_def)
qed

lemma image_read:
  assumes "loaded c0 bs s" and "list_all (\<lambda>ds. ds \<noteq> [] \<and> even (length ds) \<and> length ds < 256) dss"
    and "length bs + length (concat dss) \<le> 65536"
  shows "loaded c0 (bs @ concat dss) (feed_parser spm (image_lines (length bs) dss) s)"
  using assms
proof (induction dss arbitrary: bs s)
  case Nil
  then show ?case by simp
next
  case (Cons ds dss)
  have "loaded c0 (bs @ ds) (feed_parser spm (hex_line (of_nat (length bs)) 0 ds) s)"
    by (rule data_line) (use Cons.prems in simp_all)
  from Cons.IH [OF this] Cons.prems show ?case by (simp add: feed_append)
qed

lemma eof_read:
  assumes l: "loaded c0 bs s" and n: "length bs < 2 ^ 20"
  defines "t \<equiv> feed_parser spm eof_line s"
  shows "RunBootloader t = False"
    and "flash t = (if PageDirty s \<and> page_of (length bs) \<noteq> 0 then boot_page_write spm (PageStartAddress s) (flash s) else flash s)"
proof -
  let ?u = "feed_parser spm (58 # concat (map hex_byte [0, 0, 0, 1])) s"
  have u: "?u = s\<lparr>ParserState := HEX_PARSE_STATE_CHECKSUM, Data := 1, ReadMSB := False, RecordType := 1, DataRem := 0,
      Checksum := 1, CurrAddress := 0\<rparr>"
    using header_read [of "[] :: u8 list" spm 0 0 1 s] l by (simp add: loaded_def)
  have e: "eof_line = (58 # concat (map hex_byte [0, 0, 0, 1])) @ hex_byte (- 1) @ [13, 10]"
    by (simp add: eof_line_def hex_line_def record_bytes_def)
  have "t = feed_parser spm (hex_byte (- 1) @ [13, 10]) ?u" unfolding t_def e by (rule feed_append)
  also have "\<dots> = (FlushPageIfRequired spm (?u\<lparr>Data := - 1\<rparr>))\<lparr>RunBootloader := False\<rparr>"
    using line_end [of ?u spm] unfolding u by (simp add: Let_def)
  finally have t: "t = (FlushPageIfRequired spm (?u\<lparr>Data := - 1\<rparr>))\<lparr>RunBootloader := False\<rparr>" .
  then show "RunBootloader t = False" by simp
  have "page_of (length bs) = 0 \<longleftrightarrow> PageStartAddress s = 0"
    using page_address [OF n] l by (auto simp: loaded_def page_of_def)
  then show "flash t = (if PageDirty s \<and> page_of (length bs) \<noteq> 0 then boot_page_write spm (PageStartAddress s) (flash s) else flash s)"
    unfolding t u by (simp add: FlushPageIfRequired_def Let_def)
qed

lemma eof_cells:
  assumes l: "loaded c0 bs s" and n: "length bs < 2 ^ 20"
  defines "t \<equiv> feed_parser spm eof_line s"
  shows "SPM_PAGESIZE \<le> length bs \<Longrightarrow> cell (flash t) i =
      (if i < length bs then bs ! i else if page_of i = page_of (length bs) \<and> length bs mod SPM_PAGESIZE \<noteq> 0 then 0xFF else c0 i)"
    and "length bs < SPM_PAGESIZE \<Longrightarrow> bs \<noteq> [] \<Longrightarrow> page_of i = 0 \<Longrightarrow> cell (flash t) i = 0xFF"
proof -
  let ?p = "length bs" and ?q = "page_of (length bs)" and ?r = "length bs mod SPM_PAGESIZE"
  note t = eof_read(2) [OF l n, folded t_def]
  have d: "PageDirty s \<longleftrightarrow> ?r \<noteq> 0" and b: "burning c0 0 bs (flash s)" and ps: "PageStartAddress s = of_nat (?q * SPM_PAGESIZE)"
    using l by (simp_all add: loaded_def)
  show "cell (flash t) i = 0xFF" if "?p < SPM_PAGESIZE" "bs \<noteq> []" "page_of i = 0"
    using that b unfolding t by (simp add: d page_of_def burning_def)
  have pa: "page_of (unat (PageStartAddress s)) = page_of (0 + ?p)" using page_address [OF n] by (simp only: ps add_0)
  show "cell (flash t) i = (if i < ?p then bs ! i else if page_of i = ?q \<and> ?r \<noteq> 0 then 0xFF else c0 i)" if "SPM_PAGESIZE \<le> ?p"
  proof -
    have "?q \<noteq> 0" using that by (simp add: page_of_def SPM_PAGESIZE_def div_eq_0_iff)
    with burned(1) [OF b, of i] burned_partly [OF b _ pa, of i] show ?thesis unfolding t d by simp
  qed
qed

end

text \<open>
  A parser whose base address is past the boot section: nothing is erased or filled any more, and the page that was being
  filled is written at most once.
\<close>

fun refused_address :: "HEX_Parser_States \<Rightarrow> u32 \<Rightarrow> bool" where
  "refused_address HEX_PARSE_STATE_BYTE_COUNT a = (a = 0x01000000)"
| "refused_address HEX_PARSE_STATE_ADDRESS_HIGH a = (a = 0x01000000)"
| "refused_address HEX_PARSE_STATE_ADDRESS_LOW a = (0x01000000 \<le> a \<and> a \<le> 0x0100FF00)"
| "refused_address HEX_PARSE_STATE_RECORD_TYPE a = (0x01000000 \<le> a)"
| "refused_address HEX_PARSE_STATE_READ_DATA a = (0x01000000 \<le> a)"
| "refused_address _ a = True"

definition refusing :: "'f spm \<Rightarrow> u32 \<Rightarrow> 'f \<Rightarrow> 'f hex_boot \<Rightarrow> bool" where
  "refusing m p f s \<longleftrightarrow> CurrBaseAddress s = 0x01000000 \<and> refused_address (ParserState s) (CurrAddress s) \<and>
     (flash s = f \<and> PageStartAddress s = p \<or> flash s = boot_page_write m p f \<and> \<not> PageDirty s)"

lemma address_high_range:
  fixes d :: u8
  shows "0x01000000 \<le> 0x01000000 + (ucast (push_bit 8 (ucast d) :: u16) :: u32)"
    and "0x01000000 + (ucast (push_bit 8 (ucast d) :: u16) :: u32) \<le> 0x0100FF00"
proof -
  have d: "unat d < 256" using unsigned_less [of d] by simp
  then have "unat (ucast (push_bit 8 (ucast d) :: u16) :: u32) = unat d * 256"
    by (simp add: push_bit_eq_mult unsigned_ucast_eq unat_word_ariths take_bit_nat_eq_self unsigned_take_bit_eq)
  then show "0x01000000 \<le> 0x01000000 + (ucast (push_bit 8 (ucast d) :: u16) :: u32)"
    "0x01000000 + (ucast (push_bit 8 (ucast d) :: u16) :: u32) \<le> 0x0100FF00"
    using d by (simp_all add: word_le_nat_alt unat_word_ariths)
qed

lemma address_low_range:
  assumes "0x01000000 \<le> (a :: u32)" and "a \<le> 0x0100FF00"
  shows "0x01000000 \<le> a + ucast (d :: u8)"
proof -
  have "unat d < 256" using unsigned_less [of d] by simp
  then have "unat (ucast d :: u32) < 256" by (simp add: unsigned_ucast_eq take_bit_nat_eq_self)
  with assms show ?thesis by (simp add: word_le_nat_alt unat_word_ariths)
qed

lemma flush_keeps [simp]:
  "CurrBaseAddress (FlushPageIfRequired m s) = CurrBaseAddress s" "CurrAddress (FlushPageIfRequired m s) = CurrAddress s"
  "ParserState (FlushPageIfRequired m s) = ParserState s" "RecordType (FlushPageIfRequired m s) = RecordType s"
  by (simp_all add: FlushPageIfRequired_def Let_def)

lemma refusing_flush: "refusing m p f s \<Longrightarrow> refusing m p f (FlushPageIfRequired m s)"
  by (auto simp: refusing_def) (auto simp: FlushPageIfRequired_def Let_def split: if_splits)

lemma refusing_data:
  assumes "refusing m p f s" and "ParserState s = HEX_PARSE_STATE_READ_DATA"
  shows "refusing m p f (read_data m s)"
proof -
  have "(BOOT_START_ADDR :: u32) \<le> 0x01000000" by (simp add: BOOT_START_ADDR_def)
  also have "\<dots> \<le> CurrAddress s" using assms by (simp add: refusing_def)
  finally show ?thesis using assms by (auto simp: read_data_def refusing_def Let_def)
qed

lemma refusing_byte: "refusing m p f s \<Longrightarrow> refusing m p f (process_byte m s)"
proof (cases "ParserState s")
  case HEX_PARSE_STATE_CHECKSUM
  moreover assume "refusing m p f s"
  ultimately show ?thesis using refusing_flush [of m p f s]
    by (simp add: process_byte_def Let_def) (simp add: refusing_def)
next
  case HEX_PARSE_STATE_READ_DATA
  moreover assume "refusing m p f s"
  ultimately have "refusing m p f (s\<lparr>Checksum := Checksum s + Data s\<rparr>)" by (simp add: refusing_def)
  from refusing_data [OF this] HEX_PARSE_STATE_READ_DATA show ?thesis by (simp add: process_byte_def Let_def)
qed (auto simp: refusing_def process_byte_def Let_def address_high_range address_low_range)

lemma refusing_parse: "refusing m p f s \<Longrightarrow> refusing m p f (ParseIntelHEXByte m c s)"
proof -
  assume r: "refusing m p f s"
  then have "refusing m p f (s\<lparr>Data := d, ReadMSB := b\<rparr>)" for d b by (simp add: refusing_def)
  note u = this refusing_byte [OF this]
  show ?thesis
  proof (cases "ParserState s = HEX_PARSE_STATE_WAIT_LINE \<or> c = 58")
    case True
    with r show ?thesis by (auto simp: ParseIntelHEXByte_def refusing_def Let_def)
  next
    case False
    with r u show ?thesis by (simp add: ParseIntelHEXByte_def Let_def)
  qed
qed

lemma refusing_feed: "refusing m p f s \<Longrightarrow> refusing m p f (feed_parser m cs s)"
  by (induction cs arbitrary: s) (simp_all add: refusing_parse)

subsection \<open>Properties\<close>






text \<open>
  C36: no image reaches the upper half of the flash. The record that selects the second 64 KB, with data 00 01, sets the base
  address to 16 MB, since its two bytes are combined like those of a data word, the first as the low byte. Every
  address is past the boot section then, and whatever characters follow, other base addresses included, are refused: the flash is
  as it was, but for the page in the buffer, which may be written once.
\<close>
theorem hex_second_bank_refused:
  assumes "CurrBaseAddress s < BOOT_START_ADDR"
  shows "CurrBaseAddress (feed_parser m (hex_line 0 HEX_RECORD_TYPE_ExtendedLinearAddress [0, 1]) s) = 0x01000000 \<and>
    flash (feed_parser m (hex_line 0 HEX_RECORD_TYPE_ExtendedLinearAddress [0, 1] @ cs) s) \<in>
      {flash s, boot_page_write m (PageStartAddress s) (flash s)}"
proof -
  let ?t = "feed_parser m (hex_line 0 HEX_RECORD_TYPE_ExtendedLinearAddress [0, 1]) s"
  have "refusing m (PageStartAddress s) (flash s) ?t"
    by (subst two_byte_line; (rule refusing_flush)?) (use assms in \<open>simp_all add: refusing_def program_word_def\<close>)
  from this refusing_feed [OF this, of cs] show ?thesis by (auto simp: refusing_def feed_append)
qed

theorem hex_second_bank_refused_witness:
  "CurrBaseAddress (feed_parser sim_spm (hex_line 0 HEX_RECORD_TYPE_ExtendedLinearAddress [0, 1])
     (hex_start sim_memory)) = 0x01000000"
  using hex_second_bank_refused [of "hex_start sim_memory" sim_spm "[]"]
  by (simp add: hex_start_def BOOT_START_ADDR_def)

text \<open>
  C35: the boot loader can be made to overwrite itself. After a record that ends just below the boot section, the page to
  erase next is the first page of the boot section; the next word, at any address below, erases it, and is written there.
\<close>
theorem hex_erases_bootloader:
  assumes "flash_memory spm cell slot"
  shows "cell (flash (feed_parser spm (hex_line 0 HEX_RECORD_TYPE_ExtendedSegmentAddress [0, 0x10] @
      hex_line 0xDFFE HEX_RECORD_TYPE_Data [a, b] @ hex_line 0xDFFC HEX_RECORD_TYPE_Data [c, d]) (hex_start f)))
      (unat BOOT_START_ADDR + 0xFC) = c"
proof -
  let ?l1 = "hex_line 0 HEX_RECORD_TYPE_ExtendedSegmentAddress [0, 0x10]" and ?l2 = "hex_line 0xDFFE HEX_RECORD_TYPE_Data [a, b]"
    and ?l3 = "hex_line 0xDFFC HEX_RECORD_TYPE_Data [c, d]"
  define s where "s = feed_parser spm ?l1 (hex_start f)"
  define t where "t = feed_parser spm ?l2 s"
  have s: "CurrBaseAddress s = 0x10000" "PageStartAddress s = 0" "\<not> PageDirty s"
    unfolding s_def by (subst two_byte_line; simp add: hex_start_def BOOT_START_ADDR_def program_word_def FlushPageIfRequired_def)+
  have t: "CurrBaseAddress t = 0x10000" "PageStartAddress t = BOOT_START_ADDR" "\<not> PageDirty t"
    "flash t = boot_page_write spm 0 (boot_page_fill spm 0x1DFFE (push_bit 8 (ucast b) OR ucast a) (boot_page_erase spm 0 (flash s)))"
    unfolding t_def by (subst two_byte_line;
      simp add: s BOOT_START_ADDR_def program_word_def FlushPageIfRequired_def Let_def SPM_PAGESIZE_def)+
  define w :: u16 where "w = push_bit 8 (ucast d) OR ucast c"
  have "flash (feed_parser spm ?l3 t) =
      boot_page_write spm BOOT_START_ADDR (boot_page_fill spm 0x1DFFC w (boot_page_erase spm BOOT_START_ADDR (flash t)))"
    by (subst two_byte_line;
      simp add: t(1-3) w_def BOOT_START_ADDR_def program_word_def FlushPageIfRequired_def Let_def SPM_PAGESIZE_def)
  moreover have "slot (boot_page_fill spm 0x1DFFC w (boot_page_erase spm BOOT_START_ADDR (flash t))) =
      Map.empty(unat (0x1DFFC :: u32) mod SPM_PAGESIZE div 2 \<mapsto> w)"
    by (simp add: flash_memory.slot_fill [OF assms] flash_memory.slot_erase [OF assms] t(4) flash_memory.slot_write [OF assms])
  moreover have "ucast w = c" unfolding w_def by (rule bit_word_eqI) (auto simp: bit_simps)
  ultimately show ?thesis unfolding feed_append s_def [symmetric] t_def [symmetric]
    by (simp add: flash_memory.cell_write [OF assms] flash_memory.cell_fill [OF assms]
      flash_memory.cell_erase [OF assms] BOOT_START_ADDR_def SPM_PAGESIZE_def page_of_def slot_byte_def erased_and)
qed

theorem hex_erases_bootloader_witness:
  "cells (flash (feed_parser sim_spm (hex_line 0 HEX_RECORD_TYPE_ExtendedSegmentAddress [0, 0x10] @
      hex_line 0xDFFE HEX_RECORD_TYPE_Data [0xAA, 0xBB] @ hex_line 0xDFFC HEX_RECORD_TYPE_Data [0xCC, 0xDD])
      (hex_start sim_memory))) (unat BOOT_START_ADDR + 0xFC) = 0xCC"
  by (rule hex_erases_bootloader [OF sim_flash.flash_memory_axioms])

end
