(* ===== verification/Bootloader_HID.thy ===== *)
theory Bootloader_HID
  imports Flash_Memory USB_Device
begin

text \<open>
  The HID boot loader, \<open>BootloaderHID.c\<close>: a report the host writes to it holds the address of a page of flash and the bytes to
  program there, or the command to start the application. The report arrives in the data stage of a control transfer; what the
  handler relies on in that stage is the interface \<open>out_stage\<close>.
\<close>

definition HID_REQ_SetReport :: u8 where [simp]: "HID_REQ_SetReport = 0x09"
definition COMMAND_STARTAPPLICATION :: u16 where [simp]: "COMMAND_STARTAPPLICATION = 0xFFFF"
definition CONTROL_REQTYPE_TYPE :: u8 where [simp]: "CONTROL_REQTYPE_TYPE = 0x60"
definition HID_IN_EPADDR :: u8 where [simp]: "HID_IN_EPADDR = ENDPOINT_DIR_IN OR 1"
definition HID_IN_EPSIZE :: u16 where [simp]: "HID_IN_EPSIZE = 64"

record 'f hid_boot =
  RunBootloader :: bool
  flash :: 'f

type_synonym ('f, 'w) hid_dev = "('f hid_boot, 'w) dev"

definition on_flash :: "('f \<Rightarrow> 'f) \<Rightarrow> ('f, 'w) hid_dev \<Rightarrow> ('f, 'w) hid_dev" where
  "on_flash g s = s\<lparr>app := (app s)\<lparr>flash := g (flash (app s))\<rparr>\<rparr>"

text \<open>
  A controller with more than 64 KB of flash (\<open>far\<close>) has 32-bit addresses and sends their upper bits, the others have 16-bit addresses.
\<close>

definition page_address_of :: "bool \<Rightarrow> u16 \<Rightarrow> u32" where
  "page_address_of far v = (if far then push_bit 8 (ucast v) else ucast v)"

definition is_start_command :: "bool \<Rightarrow> u32 \<Rightarrow> bool" where
  "is_start_command far PageAddress \<longleftrightarrow>
     (if far then ucast (drop_bit 8 PageAddress) else ucast PageAddress) = COMMAND_STARTAPPLICATION"

definition word_address :: "bool \<Rightarrow> u32 \<Rightarrow> u8 \<Rightarrow> u32" where
  "word_address far PageAddress PageWord =
     (let off = push_bit 1 (ucast PageWord :: u16) in
      if far then PageAddress + ucast off else ucast (ucast PageAddress + off :: u16))"

definition next_packet :: "'w mcu \<Rightarrow> ('c, 'w) dev \<Rightarrow> ('c, 'w) dev option" where
  "next_packet m s = (let (n, s) = Endpoint_BytesInEndpoint m s in
     if n = 0 then do { (_, s) \<leftarrow> wait_for (Endpoint_IsOUTReceived m) (Endpoint_ClearOUT m s); Some s } else Some s)"

fun page_words :: "'w mcu \<Rightarrow> 'f spm \<Rightarrow> bool \<Rightarrow> u32 \<Rightarrow> nat list \<Rightarrow> ('f, 'w) hid_dev \<Rightarrow> ('f, 'w) hid_dev option" where
  "page_words m p far PageAddress [] s = Some s"
| "page_words m p far PageAddress (PageWord # ws) s = do {
     s \<leftarrow> next_packet m s;
     let (v, s) = Endpoint_Read_16_LE m s in
     page_words m p far PageAddress ws (on_flash (boot_page_fill p (word_address far PageAddress (of_nat PageWord)) v) s) }"

definition write_page :: "'w mcu \<Rightarrow> 'f spm \<Rightarrow> bool \<Rightarrow> u32 \<Rightarrow> ('f, 'w) hid_dev \<Rightarrow> ('f, 'w) hid_dev option" where
  "write_page m p far PageAddress s = do {
     s \<leftarrow> page_words m p far PageAddress [0..<SPM_PAGESIZE div 2] (on_flash (boot_page_erase p PageAddress) s);
     Some (on_flash (boot_rww_enable p) (on_flash (boot_page_write p PageAddress) s)) }"

definition HID_ControlRequest :: "'w mcu \<Rightarrow> 'f spm \<Rightarrow> bool \<Rightarrow> ('f, 'w) hid_dev \<Rightarrow> ('f, 'w) hid_dev option" where
  "HID_ControlRequest m p far s = (let r = USB_ControlRequest s in
     if bmRequestType r AND (CONTROL_REQTYPE_TYPE OR CONTROL_REQTYPE_RECIPIENT) \<noteq> REQTYPE_CLASS OR REQREC_INTERFACE then Some s
     else if bRequest r = HID_REQ_SetReport then do {
       (_, s) \<leftarrow> wait_for (Endpoint_IsOUTReceived m) (Endpoint_ClearSETUP m s);
       let (v, s) = Endpoint_Read_16_LE m s;
       let PageAddress = page_address_of far v;
       s \<leftarrow> (if is_start_command far PageAddress then Some (s\<lparr>app := (app s)\<lparr>RunBootloader := False\<rparr>\<rparr>)
             else write_page m p far PageAddress s);
       (_, s) \<leftarrow> Endpoint_ClearStatusStage m (Endpoint_ClearOUT m s);
       Some s }
     else Some s)"

definition HID_ConfigurationChanged :: "'w mcu \<Rightarrow> ('f, 'w) hid_dev \<Rightarrow> ('f, 'w) hid_dev option" where
  "HID_ConfigurationChanged m s = do {
     (_, s) \<leftarrow> Endpoint_ConfigureEndpoint m HID_IN_EPADDR EP_TYPE_INTERRUPT HID_IN_EPSIZE 1 s;
     Some s }"

definition hid_main_body :: "'w mcu \<Rightarrow> ('f hid_boot, 'w) events \<Rightarrow> unit \<Rightarrow> ('f, 'w) hid_dev \<Rightarrow> ((unit + unit) \<times> ('f, 'w) hid_dev) option" where
  "hid_main_body m ev _ s = (if RunBootloader (app s) then do { s \<leftarrow> USB_USBTask m ev s; Some (Inl (), s) } else Some (Inr (), s))"

subsection \<open>The data stage of a report\<close>

text \<open>
  The packets of the data stage that have not been acknowledged, whether the first of them has arrived, and a bound on how often the interrupt flags
  are read before the next packet arrives, and before the bank for the status stage is found free. A read of the data register takes
  a byte from the packet, clearing the flag of a packet that has arrived acknowledges it.
\<close>

locale out_stage =
  fixes m :: "'w mcu" and packets :: "'w \<Rightarrow> u8 list list" and arrived :: "'w \<Rightarrow> bool" and patience :: "'w \<Rightarrow> nat"
  assumes rd_packets: "r \<noteq> UEDATX \<Longrightarrow> packets (snd (mcu_rd m r w)) = packets w"
    and rd_arrived: "arrived w \<Longrightarrow> arrived (snd (mcu_rd m r w))"
    and rd_flag: "flag (fst (mcu_rd m UEINTX w)) RXOUTI \<longleftrightarrow> arrived (snd (mcu_rd m UEINTX w))"
    and rd_progress: "packets w \<noteq> [] \<Longrightarrow> flag (fst (mcu_rd m UEINTX w)) RXOUTI \<or> patience (snd (mcu_rd m UEINTX w)) < patience w"
      "flag (fst (mcu_rd m UEINTX w)) TXINI \<or> patience (snd (mcu_rd m UEINTX w)) < patience w"
      "patience (snd (mcu_rd m USB_DeviceState w)) \<le> patience w"
    and rd_count: "arrived w \<Longrightarrow> fst (mcu_rd m UEBCLX w) = of_nat (length (hd (packets w)))" "arrived w \<Longrightarrow> fst (mcu_rd m UEBCHX w) = 0"
    and rd_data: "arrived w \<Longrightarrow> packets w = (b # bs) # ps \<Longrightarrow> fst (mcu_rd m UEDATX w) = b \<and> packets (snd (mcu_rd m UEDATX w)) = bs # ps"
    and wr_keep: "flag v RXOUTI \<or> \<not> arrived w \<Longrightarrow> packets (mcu_wr m UEINTX v w) = packets w"
    and wr_ack: "\<not> flag v RXOUTI \<Longrightarrow> arrived w \<Longrightarrow> packets (mcu_wr m UEINTX v w) = tl (packets w)"
begin

definition staged :: "u8 list list \<Rightarrow> 'c \<Rightarrow> USB_Request_Header \<Rightarrow> ('c, 'w) dev \<Rightarrow> bool" where
  "staged ps a r s \<longleftrightarrow> packets (world s) = ps \<and> app s = a \<and> USB_ControlRequest s = r"

lemma wait_packet:
  assumes "staged ps a r s" and "ps \<noteq> []"
  shows "\<exists>s'. wait_for (Endpoint_IsOUTReceived m) s = Some ((), s') \<and> staged ps a r s' \<and> arrived (world s')"
proof -
  have "\<exists>x s'. floop (\<lambda>_ s. let (b, s) = Endpoint_IsOUTReceived m s in Some (if b then Inr () else Inl (), s)) () s = Some (x, s') \<and>
      (staged ps a r s' \<and> arrived (world s'))"
  proof (rule floop_total [where I = "\<lambda>_. staged ps a r" and R = "measure (\<lambda>(_, s). patience (world s))"])
    fix l :: unit and s :: "('a, 'w) dev" assume "staged ps a r s"
    then show "\<exists>x s'. (let (b, s) = Endpoint_IsOUTReceived m s in Some (if b then Inr () else Inl (), s)) = Some (x, s') \<and>
        (case x of Inl l' \<Rightarrow> staged ps a r s' \<and> ((l', s'), l, s) \<in> measure (\<lambda>(_, s). patience (world s))
         | Inr x \<Rightarrow> staged ps a r s' \<and> arrived (world s'))"
      using rd_packets [of UEINTX "world s"] rd_progress(1) [of "world s"] rd_flag [of "world s"] assms(2)
      by (auto simp: Endpoint_IsOUTReceived_def testr_def getr_def staged_def split_beta Let_def)
  qed (use assms in simp_all)
  then show ?thesis by (simp add: wait_for_def)
qed

lemma ack_packet: "staged (p # ps) a r s \<Longrightarrow> arrived (world s) \<Longrightarrow> staged ps a r (Endpoint_ClearOUT m s)"
  using rd_packets [of UEINTX "world s"] rd_arrived [of "world s" UEINTX]
    wr_ack [of "fst (mcu_rd m UEINTX (world s)) AND NOT (bitm RXOUTI OR bitm FIFOCON)" "snd (mcu_rd m UEINTX (world s))"]
  by (simp add: Endpoint_ClearOUT_def modr_def getr_def setr_def staged_def split_beta Let_def bit_numbers)

lemma clear_setup: "staged ps a r s \<Longrightarrow> staged ps a r (Endpoint_ClearSETUP m s)"
  using rd_packets [of UEINTX "world s"] rd_flag [of "world s"]
    wr_keep [of "clr_flag RXSTPI (fst (mcu_rd m UEINTX (world s)))" "snd (mcu_rd m UEINTX (world s))"]
  by (auto simp: Endpoint_ClearSETUP_def modr_def getr_def setr_def staged_def split_beta Let_def bit_numbers)

lemma read_word:
  assumes "staged ((lo # hi # bs) # ps) a r s" and "arrived (world s)"
  shows "\<exists>s'. Endpoint_Read_16_LE m s = (word16 [lo, hi], s') \<and> staged (bs # ps) a r s' \<and> arrived (world s')"
proof -
  let ?w = "snd (mcu_rd m UEDATX (world s))"
  have "arrived ?w" using assms(2) by (rule rd_arrived)
  with rd_data [of "world s" lo "hi # bs" ps] rd_data [of ?w hi bs ps] rd_arrived [of ?w UEDATX] assms show ?thesis
    by (auto simp: Endpoint_Read_16_LE_def getr_def staged_def split_beta Let_def)
qed

lemma count_packet:
  assumes "staged (p # ps) a r s" and "arrived (world s)" and "length p < 256"
  shows "\<exists>s'. Endpoint_BytesInEndpoint m s = (of_nat (length p), s') \<and> staged (p # ps) a r s' \<and> arrived (world s')"
proof -
  let ?w = "snd (mcu_rd m UEBCHX (world s))"
  have "arrived ?w" "packets ?w = p # ps" using assms by (simp_all add: rd_arrived rd_packets staged_def)
  moreover have "(ucast (of_nat (length p) :: u8) :: u16) = of_nat (length p)" using assms(3)
    by (simp add: unsigned_of_nat take_bit_nat_eq_self)
  ultimately show ?thesis using assms(1,2) rd_count [of "world s"] rd_count(1) [of ?w] rd_packets [of UEBCLX ?w] rd_arrived [of ?w UEBCLX]
    rd_packets [of UEBCLX "world s"] rd_arrived [of "world s" UEBCLX]
    by (auto simp: Endpoint_BytesInEndpoint_def getr_def staged_def split_beta Let_def)
qed

lemma status_stage:
  assumes "staged ps a r s" and "\<not> flag (bmRequestType r) 7"
  shows "\<exists>s'. Endpoint_ClearStatusStage m s = Some ((), s') \<and> app s' = a"
proof -
  let ?b = "\<lambda>_ s. let (b, s) = Endpoint_IsINReady m s in if b then Some (Inr True, s) else let (st, s) = getr m USB_DeviceState s in
    Some (if st = DEVICE_STATE_Unattached then Inr False else Inl (), s)"
  have "\<exists>x s'. floop ?b () s = Some (x, s') \<and> app s' = a"
  proof (rule floop_total [where I = "\<lambda>_. staged ps a r" and R = "measure (\<lambda>(_, s). patience (world s))"])
    fix l :: unit and s :: "('a, 'w) dev" assume "staged ps a r s"
    then show "\<exists>x s'. ?b l s = Some (x, s') \<and>
        (case x of Inl l' \<Rightarrow> staged ps a r s' \<and> ((l', s'), l, s) \<in> measure (\<lambda>(_, s). patience (world s)) | Inr x \<Rightarrow> app s' = a)"
      using rd_packets [of UEINTX "world s"] rd_progress(2) [of "world s"] rd_packets [of USB_DeviceState "snd (mcu_rd m UEINTX (world s))"]
        rd_progress(3) [of "snd (mcu_rd m UEINTX (world s))"]
      by (auto simp: Endpoint_IsINReady_def testr_def getr_def staged_def split_beta Let_def)
  qed (use assms in simp_all)
  then obtain x s' where "wait_attached m (Endpoint_IsINReady m) s = Some (x, s')" "app s' = a" by (auto simp: wait_attached_def)
  moreover have "app (Endpoint_ClearIN m t) = app t" for t :: "('a, 'w) dev"
    by (simp add: Endpoint_ClearIN_def modr_def getr_def setr_def split_beta Let_def)
  moreover have "USB_ControlRequest s = r" using assms(1) by (simp add: staged_def)
  ultimately show ?thesis using assms(2) by (simp add: Endpoint_ClearStatusStage_def)
qed

end

subsection \<open>Programming one page\<close>

lemma word16_pair: "word16 [lo, hi] = push_bit 8 (ucast hi) OR ucast lo"
  by (simp add: word16_def or.commute)

fun words_of :: "u8 list \<Rightarrow> u16 list" where
  "words_of (lo # hi # bs) = word16 [lo, hi] # words_of bs"
| "words_of bs = []"

context storage
begin

text \<open>The page at \<open>A\<close> of a flash that held \<open>c0\<close> is erased, and the bytes \<open>bs\<close> wait in the page buffer.\<close>

definition filling :: "(nat \<Rightarrow> u8) \<Rightarrow> nat \<Rightarrow> u8 list \<Rightarrow> 'a \<Rightarrow> bool" where
  "filling c0 A bs f \<longleftrightarrow> even (length bs) \<and> A mod SPM_PAGESIZE = 0 \<and>
     (\<forall>i. cell f i = (if page_of i = page_of A then 0xFF else c0 i)) \<and>
     slot f = (\<lambda>k. if 2 * k < length bs then Some (word_at bs (2 * k)) else None)"

lemma filling_start:
  "slot f = Map.empty \<Longrightarrow> page_of (unat a) = page_of A \<Longrightarrow> A mod SPM_PAGESIZE = 0 \<Longrightarrow> filling (cell f) A [] (boot_page_erase spm a f)"
  by (simp add: filling_def cell_erase slot_erase)

lemma filling_word:
  fixes lo hi :: u8
  assumes f: "filling c0 A bs f" and l: "length bs < SPM_PAGESIZE" and a: "unat a mod SPM_PAGESIZE = length bs"
  shows "filling c0 A (bs @ [lo, hi]) (boot_page_fill spm a (word16 [lo, hi]) f)"
proof -
  have ev: "even (length bs)" using f by (simp add: filling_def)
  then have "slot f (unat a mod SPM_PAGESIZE div 2) = None" using f by (simp add: filling_def a)
  note s = slot_fill [OF this, of "word16 [lo, hi]", unfolded a]
  have "word_at bs (2 * k) = word_at (bs @ [lo, hi]) (2 * k)" if "2 * k < length bs" for k
    using that even_above [OF ev that] by (simp add: word_at_def nth_append)
  moreover have "word16 [lo, hi] = word_at (bs @ [lo, hi]) (2 * (length bs div 2))"
    using ev by (simp add: word_at_def nth_append word16_pair)
  moreover have "slot f k = (if 2 * k < length bs then Some (word_at bs (2 * k)) else None)" for k using f by (simp add: filling_def)
  ultimately have "slot (boot_page_fill spm a (word16 [lo, hi]) f) =
      (\<lambda>k. if 2 * k < length bs + 2 then Some (word_at (bs @ [lo, hi]) (2 * k)) else None)"
    unfolding s by (auto simp: fun_eq_iff even_next [OF ev] simp del: add_2_eq_Suc')
  with f show ?thesis by (simp add: filling_def cell_fill)
qed

lemma filling_end:
  assumes "filling c0 A bs f" and "length bs = SPM_PAGESIZE" and "page_of (unat a) = page_of A"
  shows "cell (boot_rww_enable spm (boot_page_write spm a f)) i = (if page_of i = page_of A then bs ! (i - A) else c0 i)"
    and "slot (boot_rww_enable spm (boot_page_write spm a f)) = Map.empty"
proof -
  have "slot_byte (slot f) (i mod SPM_PAGESIZE) = bs ! (0 + i mod SPM_PAGESIZE)"
    by (rule slot_byte_word [where n = SPM_PAGESIZE]) (use assms in \<open>simp_all add: filling_def SPM_PAGESIZE_def\<close>)
  moreover have "i - A = i mod SPM_PAGESIZE" if "page_of i = page_of A"
    using page_offset [of A i 0] that assms(1) by (simp add: filling_def)
  ultimately show "cell (boot_rww_enable spm (boot_page_write spm a f)) i = (if page_of i = page_of A then bs ! (i - A) else c0 i)"
    using assms by (simp add: cell_rww cell_write filling_def erased_and)
  show "slot (boot_rww_enable spm (boot_page_write spm a f)) = Map.empty" by (simp add: slot_rww slot_write)
qed

lemma filling_words:
  assumes "filling c0 A bs f" and "length bs + 2 * length ws = SPM_PAGESIZE" and "length cs = 2 * length ws"
    and "\<And>i. i < length ws \<Longrightarrow> unat (adr (ws ! i)) mod SPM_PAGESIZE = length bs + 2 * i"
  shows "filling c0 A (bs @ cs) (fold (\<lambda>(w, v). boot_page_fill spm (adr w) v) (zip ws (words_of cs)) f)"
  using assms
proof (induction ws arbitrary: bs cs f)
  case (Cons w ws)
  then obtain lo hi cs' where cs: "cs = lo # hi # cs'" by (cases cs rule: words_of.cases) auto
  have l: "length bs < SPM_PAGESIZE" using Cons.prems(2) by simp
  have "unat (adr w) mod SPM_PAGESIZE = length bs" using Cons.prems(4) [of 0] by simp
  note fw = filling_word [OF Cons.prems(1) l this, of lo hi]
  have a: "unat (adr (ws ! i)) mod SPM_PAGESIZE = length (bs @ [lo, hi]) + 2 * i" if "i < length ws" for i
    using Cons.prems(4) [of "Suc i"] that by simp
  have "filling c0 A ((bs @ [lo, hi]) @ cs') (fold (\<lambda>(w, v). boot_page_fill spm (adr w) v) (zip ws (words_of cs'))
      (boot_page_fill spm (adr w) (word16 [lo, hi]) f))"
    by (rule Cons.IH [OF fw _ _ a]) (use Cons.prems(2,3) cs in simp_all)
  then show ?case by (simp add: cs)
qed simp

lemma cell_words: "cell (fold (\<lambda>(w, v). boot_page_fill spm (adr w) v) wvs f) = cell f"
  by (induction wvs arbitrary: f) (auto simp: cell_fill)

end

subsection \<open>A report\<close>

text \<open>Packets of an even, positive number of bytes below 256.\<close>

definition word_packets :: "u8 list list \<Rightarrow> bool" where
  "word_packets ps \<longleftrightarrow> list_all (\<lambda>p. p \<noteq> [] \<and> even (length p) \<and> length p < 256) ps"

lemma far_address:
  assumes "k < 0xFFFF"
  shows "unat (page_address_of True (of_nat k)) = k * SPM_PAGESIZE" and "\<not> is_start_command True (page_address_of True (of_nat k))"
    and "w < 128 \<Longrightarrow> unat (word_address True (page_address_of True (of_nat k)) (of_nat w)) mod SPM_PAGESIZE = 2 * w"
proof -
  let ?a = "page_address_of True (of_nat k)"
  have "(ucast (of_nat k :: u16) :: u32) = of_nat k" using assms by (simp add: unsigned_of_nat take_bit_nat_eq_self)
  then have a: "?a = of_nat (k * 256)" by (simp add: page_address_of_def push_bit_eq_mult mult.commute)
  from assms have "k * 256 < 2 ^ 32" by simp
  then have u: "unat ?a = k * 256" unfolding a by (subst unat_of_nat) simp
  then show "unat ?a = k * SPM_PAGESIZE" by (simp add: SPM_PAGESIZE_def)
  have "unat (drop_bit 8 ?a) = k" by (simp add: drop_bit_eq_div unat_div_distrib u)
  then have "drop_bit 8 ?a = of_nat k" using assms by (simp add: word_unat_eq_iff unat_of_nat)
  moreover have "(ucast (of_nat k :: u32) :: u16) = of_nat k" using assms by (simp add: unsigned_of_nat take_bit_nat_eq_self)
  moreover have "(of_nat k :: u16) \<noteq> 0xFFFF" using assms by (simp add: word_unat_eq_iff unat_of_nat)
  ultimately show "\<not> is_start_command True ?a" by (simp add: is_start_command_def)
  show "unat (word_address True ?a (of_nat w)) mod SPM_PAGESIZE = 2 * w" if "w < 128"
  proof -
    have "(ucast (of_nat w :: u8) :: u16) = of_nat w" using that by (simp add: unsigned_of_nat take_bit_nat_eq_self)
    then have "push_bit 1 (ucast (of_nat w :: u8) :: u16) = of_nat (2 * w)" by (simp add: push_bit_eq_mult mult.commute)
    moreover have "(ucast (of_nat (2 * w) :: u16) :: u32) = of_nat (2 * w)" unfolding unsigned_of_nat using that
      by (subst take_bit_nat_eq_self) simp_all
    ultimately have "(ucast (push_bit 1 (ucast (of_nat w :: u8) :: u16)) :: u32) = of_nat (2 * w)" by metis
    then have "word_address True ?a (of_nat w) = of_nat (k * 256 + 2 * w)" by (simp add: word_address_def a)
    moreover have "unat (of_nat (k * 256 + 2 * w) :: u32) = k * 256 + 2 * w" by (subst unat_of_nat) (use assms that in simp)
    ultimately show ?thesis using that by (simp add: SPM_PAGESIZE_def)
  qed
qed

locale page_writer = storage + out_stage
begin

lemma next_packet_ready:
  assumes "staged (p # ps) a r s" "arrived (world s)" "even (length p)" "length p < 256" "word_packets ps" "p = [] \<longrightarrow> ps \<noteq> []"
  shows "\<exists>lo hi q qs s'. next_packet m s = Some s' \<and> staged ((lo # hi # q) # qs) a r s' \<and> arrived (world s') \<and>
    p @ concat ps = lo # hi # q @ concat qs \<and> even (length q) \<and> length q < 256 \<and> word_packets qs"
proof -
  obtain s1 where c: "Endpoint_BytesInEndpoint m s = (of_nat (length p), s1)" "staged (p # ps) a r s1" "arrived (world s1)"
    using count_packet [OF assms(1,2,4)] by blast
  have two: "\<exists>lo hi q. p = lo # hi # q \<and> even (length q)" if "p \<noteq> []" "even (length p)" for p :: "u8 list"
  proof (cases p)
    case (Cons lo t)
    with that obtain hi q where "t = hi # q" by (cases t) auto
    with Cons that show ?thesis by auto
  qed (use that in simp)
  show ?thesis
  proof (cases "p = []")
    case True
    with assms(6) obtain p' ps' where ps: "ps = p' # ps'" by (cases ps) auto
    with assms(5) have p': "p' \<noteq> []" "even (length p')" "length p' < 256" "word_packets ps'" by (simp_all add: word_packets_def)
    from wait_packet [OF ack_packet [OF c(2,3), unfolded ps]] obtain s' where
      "wait_for (Endpoint_IsOUTReceived m) (Endpoint_ClearOUT m s1) = Some ((), s')" "staged (p' # ps') a r s'" "arrived (world s')" by blast
    with two [OF p'(1,2)] p' c(1) True ps show ?thesis by (fastforce simp: next_packet_def)
  next
    case False
    then have "(of_nat (length p) :: u16) \<noteq> 0" using assms(4) by (simp add: word_unat_eq_iff unat_of_nat)
    with two [OF False assms(3)] c assms(4,5) show ?thesis by (fastforce simp: next_packet_def)
  qed
qed
lemma page_words_run:
  assumes "staged (p # ps) \<lparr>RunBootloader = b, flash = f\<rparr> r s" "arrived (world s)" "even (length p)" "length p < 256" "word_packets ps"
    and "p @ concat ps = cs" "length cs = 2 * length ws"
  shows "\<exists>s'. page_words m spm far a ws s = Some s' \<and> arrived (world s') \<and>
    staged [[]] \<lparr>RunBootloader = b, flash = fold (\<lambda>(w, v). boot_page_fill spm (word_address far a (of_nat w)) v) (zip ws (words_of cs)) f\<rparr> r s'"
  using assms
proof (induction ws arbitrary: p ps f s cs)
  case Nil
  then have "p = []" "ps = []" by (simp, cases ps) (simp_all add: word_packets_def)
  with Nil show ?case by simp
next
  case (Cons w ws)
  have "p = [] \<longrightarrow> ps \<noteq> []" using Cons.prems(6,7) by auto
  from next_packet_ready [OF Cons.prems(1-5) this] obtain lo hi q qs s1 where n: "next_packet m s = Some s1"
    "staged ((lo # hi # q) # qs) \<lparr>RunBootloader = b, flash = f\<rparr> r s1" "arrived (world s1)"
    "p @ concat ps = lo # hi # q @ concat qs" "even (length q)" "length q < 256" "word_packets qs" by blast
  from read_word [OF n(2,3)] obtain s2 where r: "Endpoint_Read_16_LE m s1 = (word16 [lo, hi], s2)"
    "staged (q # qs) \<lparr>RunBootloader = b, flash = f\<rparr> r s2" "arrived (world s2)" by blast
  let ?fill = "boot_page_fill spm (word_address far a (of_nat w)) (word16 [lo, hi])"
  have st: "staged (q # qs) \<lparr>RunBootloader = b, flash = ?fill f\<rparr> r (on_flash ?fill s2)" "arrived (world (on_flash ?fill s2))"
    using r by (simp_all add: staged_def on_flash_def)
  have cs: "cs = lo # hi # q @ concat qs" using n(4) Cons.prems(6) by simp
  from Cons.IH [OF st n(5-7) refl] Cons.prems(7) show ?case by (simp add: n(1) r(1) cs)
qed

lemma report_read:
  assumes "staged ps a r s" "word_packets ps" "concat ps = lo # hi # ds" "bmRequestType r = 0x21" "bRequest r = 9"
  shows "\<exists>p qs s'. staged (p # qs) a r s' \<and> arrived (world s') \<and> even (length p) \<and> length p < 256 \<and> word_packets qs \<and> p @ concat qs = ds \<and>
    HID_ControlRequest m spm far s = do {
      s \<leftarrow> (if is_start_command far (page_address_of far (word16 [lo, hi])) then Some (s'\<lparr>app := (app s')\<lparr>RunBootloader := False\<rparr>\<rparr>)
            else write_page m spm far (page_address_of far (word16 [lo, hi])) s');
      (_, s) \<leftarrow> Endpoint_ClearStatusStage m (Endpoint_ClearOUT m s);
      Some s }"
proof -
  from assms(2,3) obtain p qs where ps: "ps = p # qs" "p \<noteq> []" "even (length p)" "length p < 256" "word_packets qs"
    by (cases ps) (auto simp: word_packets_def)
  from ps(2,3) assms(3) ps(1) obtain q where p: "p = lo # hi # q" by (cases p rule: words_of.cases) auto
  from wait_packet [OF clear_setup [OF assms(1)]] ps(1) obtain s1 where
    w: "wait_for (Endpoint_IsOUTReceived m) (Endpoint_ClearSETUP m s) = Some ((), s1)" "staged ps a r s1" "arrived (world s1)" by blast
  from read_word [OF w(2) [unfolded ps(1) p] w(3)] obtain s2 where
    "Endpoint_Read_16_LE m s1 = (word16 [lo, hi], s2)" "staged (q # qs) a r s2" "arrived (world s2)" by blast
  moreover have "USB_ControlRequest s = r" using assms(1) by (simp add: staged_def)
  ultimately show ?thesis using assms(3-5) ps w(1) p
    by (intro exI [of _ q] exI [of _ qs] exI [of _ s2]) (simp add: HID_ControlRequest_def)
qed

lemma report_writes:
  fixes far :: bool and lo hi :: u8
  assumes "staged ps \<lparr>RunBootloader = b, flash = f\<rparr> r s" "word_packets ps" "concat ps = lo # hi # ds" "bmRequestType r = 0x21" "bRequest r = 9"
    and "length ds = SPM_PAGESIZE"
  defines "a \<equiv> page_address_of far (word16 [lo, hi])"
  assumes "\<not> is_start_command far a"
  shows "\<exists>s'. HID_ControlRequest m spm far s = Some s' \<and>
    app s' = \<lparr>RunBootloader = b, flash = boot_rww_enable spm (boot_page_write spm a
      (fold (\<lambda>(w, v). boot_page_fill spm (word_address far a (of_nat w)) v) (zip [0..<SPM_PAGESIZE div 2] (words_of ds)) (boot_page_erase spm a f)))\<rparr>"
proof -
  from report_read [OF assms(1-5), of far] obtain p qs s1 where
    r: "staged (p # qs) \<lparr>RunBootloader = b, flash = f\<rparr> r s1" "arrived (world s1)" "even (length p)" "length p < 256" "word_packets qs" "p @ concat qs = ds"
    "HID_ControlRequest m spm far s = do { s \<leftarrow> write_page m spm far a s1; (_, s) \<leftarrow> Endpoint_ClearStatusStage m (Endpoint_ClearOUT m s); Some s }"
    using assms(8) unfolding a_def by auto
  have st: "staged (p # qs) \<lparr>RunBootloader = b, flash = boot_page_erase spm a f\<rparr> r (on_flash (boot_page_erase spm a) s1)"
    "arrived (world (on_flash (boot_page_erase spm a) s1))"
    using r(1,2) by (simp_all add: staged_def on_flash_def)
  have l: "length ds = 2 * length [0..<SPM_PAGESIZE div 2]" using assms(6) by (simp add: SPM_PAGESIZE_def)
  let ?f = "fold (\<lambda>(w, v). boot_page_fill spm (word_address far a (of_nat w)) v) (zip [0..<SPM_PAGESIZE div 2] (words_of ds)) (boot_page_erase spm a f)"
  let ?g = "boot_rww_enable spm (boot_page_write spm a ?f)"
  from page_words_run [OF st r(3-6) l, of far a] obtain s2 where
    p: "page_words m spm far a [0..<SPM_PAGESIZE div 2] (on_flash (boot_page_erase spm a) s1) = Some s2"
    "arrived (world s2)" "staged [[]] \<lparr>RunBootloader = b, flash = ?f\<rparr> r s2" by blast
  let ?s = "on_flash (boot_rww_enable spm) (on_flash (boot_page_write spm a) s2)"
  have "staged [[]] \<lparr>RunBootloader = b, flash = ?g\<rparr> r ?s" "arrived (world ?s)" using p(2,3) by (simp_all add: staged_def on_flash_def)
  then have "staged [] \<lparr>RunBootloader = b, flash = ?g\<rparr> r (Endpoint_ClearOUT m ?s)" by (rule ack_packet)
  from status_stage [OF this] obtain s3 where "Endpoint_ClearStatusStage m (Endpoint_ClearOUT m ?s) = Some ((), s3)"
    "app s3 = \<lparr>RunBootloader = b, flash = ?g\<rparr>" using assms(4) by (auto simp: flag_def bitm_def)
  then show ?thesis by (simp add: r(7) write_page_def p(1))
qed
text \<open>A controller with 32-bit addresses programs page \<open>k\<close>, or leaves the boot loader.\<close>

lemma report_page:
  assumes "staged ps \<lparr>RunBootloader = b, flash = f\<rparr> r s" "word_packets ps" "concat ps = bytes16 (of_nat k) @ ds" "bmRequestType r = 0x21" "bRequest r = 9"
    and "length ds = SPM_PAGESIZE" "k < 0xFFFF" "slot f = Map.empty"
  shows "\<exists>s' f'. HID_ControlRequest m spm True s = Some s' \<and> app s' = \<lparr>RunBootloader = b, flash = f'\<rparr> \<and> slot f' = Map.empty \<and>
    (\<forall>i. cell f' i = (if page_of i = k then ds ! (i - k * SPM_PAGESIZE) else cell f i))"
proof -
  let ?a = "page_address_of True (of_nat k)" and ?A = "k * SPM_PAGESIZE"
  have w: "word16 [ucast (of_nat k :: u16), ucast (drop_bit 8 (of_nat k :: u16))] = of_nat k"
    using word16_bytes16 [of "of_nat k"] by (simp add: bytes16_def)
  note far = far_address [OF assms(7)]
  have c: "concat ps = ucast (of_nat k :: u16) # ucast (drop_bit 8 (of_nat k :: u16)) # ds" using assms(3) by (simp add: bytes16_def)
  have A: "page_of ?A = k" "?A mod SPM_PAGESIZE = 0" by (simp_all add: page_of_def SPM_PAGESIZE_def)
  let ?f = "fold (\<lambda>(w, v). boot_page_fill spm (word_address True ?a (of_nat w)) v) (zip [0..<SPM_PAGESIZE div 2] (words_of ds)) (boot_page_erase spm ?a f)"
  let ?g = "boot_rww_enable spm (boot_page_write spm ?a ?f)"
  from report_writes [OF assms(1,2) c assms(4-6), where far = True, unfolded w, OF far(2)] obtain s' where
    s': "HID_ControlRequest m spm True s = Some s'" "app s' = \<lparr>RunBootloader = b, flash = ?g\<rparr>" by blast
  have st: "filling (cell f) ?A [] (boot_page_erase spm ?a f)" by (rule filling_start [OF assms(8)]) (simp_all add: far(1))
  have "filling (cell f) ?A ([] @ ds) ?f"
    by (rule filling_words [OF st, where adr = "\<lambda>w. word_address True ?a (of_nat w)"]) (use assms(6) far(3) in \<open>simp_all add: SPM_PAGESIZE_def\<close>)
  then have "filling (cell f) ?A ds ?f" by simp
  note e = filling_end [OF this assms(6), of ?a]
  from s' e show ?thesis by (intro exI [of _ s'] exI [of _ ?g]) (simp add: far(1) A)
qed

lemma report_start:
  assumes "staged ps \<lparr>RunBootloader = b, flash = f\<rparr> r s" "word_packets ps" "concat ps = 0xFF # 0xFF # ds" "bmRequestType r = 0x21" "bRequest r = 9"
    and "length ds = SPM_PAGESIZE"
  shows "\<exists>s'. HID_ControlRequest m spm far s = Some s' \<and> app s' = \<lparr>RunBootloader = False, flash = f\<rparr>"
proof -
  have c: "is_start_command far (page_address_of far (word16 [0xFF, 0xFF]))"
    by (cases far) (simp_all add: is_start_command_def page_address_of_def word16_def)
  from report_read [OF assms(1-5), of far] obtain p qs s1 where
    r: "staged (p # qs) \<lparr>RunBootloader = b, flash = f\<rparr> r s1" "arrived (world s1)" "word_packets qs" "p @ concat qs = ds"
    "HID_ControlRequest m spm far s = do { s \<leftarrow> Some (s1\<lparr>app := (app s1)\<lparr>RunBootloader := False\<rparr>\<rparr>);
      (_, s) \<leftarrow> Endpoint_ClearStatusStage m (Endpoint_ClearOUT m s); Some s }"
    using c by auto
  let ?s = "s1\<lparr>app := (app s1)\<lparr>RunBootloader := False\<rparr>\<rparr>"
  have "staged (p # qs) \<lparr>RunBootloader = False, flash = f\<rparr> r ?s" "arrived (world ?s)" using r(1,2) by (simp_all add: staged_def)
  then have "staged qs \<lparr>RunBootloader = False, flash = f\<rparr> r (Endpoint_ClearOUT m ?s)" by (rule ack_packet)
  from status_stage [OF this] assms(4) show ?thesis unfolding r(5) by (auto simp: flag_def bitm_def)
qed

text \<open>With 16-bit addresses, and an address below 256, only the first page changes.\<close>

lemma report_near:
  assumes "staged ps \<lparr>RunBootloader = b, flash = f\<rparr> r s" "word_packets ps" "concat ps = lo # 0 # ds" "bmRequestType r = 0x21" "bRequest r = 9"
    and "length ds = SPM_PAGESIZE"
  shows "\<exists>s' f'. HID_ControlRequest m spm False s = Some s' \<and> app s' = \<lparr>RunBootloader = b, flash = f'\<rparr> \<and> (\<forall>i. page_of i \<noteq> 0 \<longrightarrow> cell f' i = cell f i)"
proof -
  have n: "(ucast (ucast lo :: u16) :: u32) = ucast lo" "(ucast (ucast lo :: u32) :: u16) = ucast lo"
    by (rule bit_word_eqI; auto simp: bit_simps dest: bit_imp_le_length)+
  then have v: "page_address_of False (word16 [lo, 0]) = ucast lo" by (simp add: page_address_of_def word16_def)
  have l: "unat lo < 256" by (rule order_less_le_trans [OF unsigned_less]) simp
  then have u: "unat (ucast lo :: u32) < 256" by (simp add: unsigned_ucast_eq take_bit_nat_eq_self)
  then have p: "page_of (unat (ucast lo :: u32)) = 0" by (simp add: page_of_def SPM_PAGESIZE_def)
  have "unat (ucast lo :: u16) < 256" using l by (simp add: unsigned_ucast_eq take_bit_nat_eq_self)
  then have "(ucast (ucast lo :: u32) :: u16) \<noteq> 0xFFFF" unfolding n by auto
  then have "\<not> is_start_command False (ucast lo)" by (simp add: is_start_command_def)
  from report_writes [OF assms(1-6), where far = False, unfolded v, OF this] p show ?thesis
    by (auto simp: cell_rww cell_write cell_words cell_erase)
qed

end

subsection \<open>A data stage that does so\<close>

text \<open>The packets of a report, and the number of polls until the next one arrives.\<close>

type_synonym stage_sim = "u8 list list \<times> nat"

definition stage_arrived :: "stage_sim \<Rightarrow> bool" where
  "stage_arrived w \<longleftrightarrow> fst w \<noteq> [] \<and> snd w = 0"

definition stage_rd :: "reg \<Rightarrow> stage_sim \<Rightarrow> u8 \<times> stage_sim" where
  "stage_rd r w = (case r of
     UEINTX \<Rightarrow> let w = (fst w, snd w - 1) in ((if stage_arrived w then bitm RXOUTI else 0) OR bitm TXINI, w)
   | UEDATX \<Rightarrow> (if stage_arrived w \<and> hd (fst w) \<noteq> [] then (hd (hd (fst w)), tl (hd (fst w)) # tl (fst w), 0) else (0, w))
   | UEBCLX \<Rightarrow> (if stage_arrived w then of_nat (length (hd (fst w))) else 0, w)
   | _ \<Rightarrow> (0, w))"

definition stage_wr :: "reg \<Rightarrow> u8 \<Rightarrow> stage_sim \<Rightarrow> stage_sim" where
  "stage_wr r v w = (if r = UEINTX \<and> \<not> flag v RXOUTI \<and> stage_arrived w then (tl (fst w), 2) else w)"

definition stage_mcu :: "stage_sim mcu" where
  "stage_mcu = \<lparr>mcu_rd = stage_rd, mcu_wr = stage_wr, mcu_frame = \<lambda>w. (0, w), mcu_signature = \<lambda>_. 0, mcu_wdt_disable = \<lambda>w. w,
     mcu_clock_prescale = \<lambda>_ w. w, series = Series7, USB_Options = 0, USB_PLL_PSC = 0, limited_connect = False\<rparr>"

interpretation sim_writer: page_writer sim_spm cells slots sim_eep ecells "\<lambda>f. \<not> busy f" stage_mcu fst stage_arrived snd
proof unfold_locales
  show "flag (fst (mcu_rd stage_mcu UEINTX w)) RXOUTI \<longleftrightarrow> stage_arrived (snd (mcu_rd stage_mcu UEINTX w))" for w
    by (simp add: stage_mcu_def stage_rd_def Let_def bit_numbers)
qed (auto simp: stage_mcu_def stage_rd_def stage_wr_def stage_arrived_def Let_def bit_numbers split: reg.splits)

end
