(* ===== verification/HID_Loader.thy ===== *)
theory HID_Loader
  imports Bootloader_HEX Bootloader_HID
begin

text \<open>
  The host program that loads a HEX file into the HID boot loader, \<open>hid_bootloader_cli.c\<close>: its reader for HEX files, its options and
  its main program. \<open>None\<close> is undefined behaviour, an access outside an array or the value of an uninitialised variable, or a loop that never ends.
\<close>

subsection \<open>The C library\<close>

definition isspace :: "u8 \<Rightarrow> bool" where
  "isspace c \<longleftrightarrow> c = 32 \<or> 9 \<le> c \<and> c \<le> 13"

definition xdigit :: "u8 \<Rightarrow> int option" where
  "xdigit c = (if 48 \<le> c \<and> c \<le> 57 then Some (uint c - 48)
     else if 65 \<le> c \<and> c \<le> 70 then Some (uint c - 55)
     else if 97 \<le> c \<and> c \<le> 102 then Some (uint c - 87) else None)"

fun xdigits :: "int \<Rightarrow> u8 list \<Rightarrow> int" where
  "xdigits n [] = n"
| "xdigits n (c # cs) = (case xdigit c of None \<Rightarrow> n | Some d \<Rightarrow> xdigits (16 * n + d) cs)"

text \<open>
  \<open>sscanf\<close> with a single conversion \<open>%<w>x\<close>: white space is skipped, then at most \<open>w\<close> characters form a number with an optional
  sign and an optional prefix \<open>0x\<close>.
\<close>

datatype scan = Scan_EOF | Scan_Fail | Scanned int

definition scan_digits :: "u8 list \<Rightarrow> int option" where
  "scan_digits cs = (let ds = (if take 1 cs = [48] \<and> (take 1 (drop 1 cs) = [120] \<or> take 1 (drop 1 cs) = [88]) then drop 2 cs else cs) in
     if ds = [] \<or> xdigit (hd ds) = None then None else Some (xdigits 0 ds))"

definition sscanf_x :: "nat \<Rightarrow> u8 list \<Rightarrow> scan" where
  "sscanf_x w s = (let t = take w (dropWhile isspace s) in
     if t = [] then Scan_EOF
     else case scan_digits (if hd t = 45 \<or> hd t = 43 then tl t else t) of
       None \<Rightarrow> Scan_Fail
     | Some v \<Rightarrow> Scanned (if hd t = 45 then - v else v))"

text \<open>\<open>fgets\<close> reads up to \<open>n\<close> characters, to the end of a line at most.\<close>

fun fgets :: "nat \<Rightarrow> u8 list \<Rightarrow> u8 list \<times> u8 list" where
  "fgets 0 xs = ([], xs)"
| "fgets (Suc n) [] = ([], [])"
| "fgets (Suc n) (x # xs) = (if x = 10 then ([x], xs) else let (l, r) = fgets n xs in (x # l, r))"

lemma fgets_rest: "length (snd (fgets n xs)) \<le> length xs" "xs \<noteq> [] \<Longrightarrow> 0 < n \<Longrightarrow> length (snd (fgets n xs)) < length xs"
proof -
  show le: "length (snd (fgets n xs)) \<le> length xs" for n xs by (induction n xs rule: fgets.induct) (auto simp: split_beta)
  show "xs \<noteq> [] \<Longrightarrow> 0 < n \<Longrightarrow> length (snd (fgets n xs)) < length xs"
    by (cases n; cases xs) (auto simp: split_beta le_imp_less_Suc le)
qed

subsection \<open>Reading a HEX file\<close>

definition MAX_MEMORY_SIZE :: nat where "MAX_MEMORY_SIZE = 0x10000"

text \<open>The two arrays are functions; \<open>store\<close> checks the index.\<close>

record loader =
  firmware_image :: "nat \<Rightarrow> u8"
  firmware_mask :: "nat \<Rightarrow> bool"
  end_record_seen :: bool
  byte_count :: int
  extended_addr :: u32

definition store :: "u32 \<Rightarrow> u8 \<Rightarrow> loader \<Rightarrow> loader option" where
  "store i v st = (if unat i < MAX_MEMORY_SIZE
     then Some (st\<lparr>firmware_image := (firmware_image st)(unat i := v), firmware_mask := (firmware_mask st)(unat i := True)\<rparr>) else None)"

text \<open>
  The loop over the data bytes of a record. It ends with the sum (\<open>Inr\<close>) or makes the function return 0 (\<open>Inl\<close>).
\<close>

function line_data :: "u8 list \<Rightarrow> int \<Rightarrow> int \<Rightarrow> nat \<Rightarrow> int \<Rightarrow> loader \<Rightarrow> ((unit + int) \<times> loader) option" where
  "line_data line addr len num csum st =
    (if int num = len then Some (Inr csum, st)
     else if length line < 9 + 2 * num then None
     else case sscanf_x 2 (drop (9 + 2 * num) line) of
       Scanned i \<Rightarrow> do {
         st \<leftarrow> store (of_int addr + extended_addr st + of_nat num) (of_int i) st;
         if num + 1 \<ge> 256 then Some (Inl (), st) else line_data line addr len (num + 1) (csum + (i AND 255)) st }
     | _ \<Rightarrow> Some (Inl (), st))"
  by pat_completeness auto
termination by (relation "measure (\<lambda>(_, _, _, num, _). 256 - num)") auto

declare line_data.simps [simp del]

definition checksum_ok :: "int \<Rightarrow> int \<Rightarrow> bool" where
  "checksum_ok csum cksum \<longleftrightarrow> ((csum AND 255) + (cksum AND 255)) AND 255 = 0"

text \<open>A record that sets the upper bits of the addresses; \<open>k\<close> is the shift of its kind.\<close>

definition line_extended :: "u8 list \<Rightarrow> nat \<Rightarrow> int \<Rightarrow> loader \<Rightarrow> (bool \<times> loader) option" where
  "line_extended line k csum st = (case sscanf_x 4 (drop 9 line) of
     Scan_EOF \<Rightarrow> None
   | Scan_Fail \<Rightarrow> Some (True, st)
   | Scanned i \<Rightarrow> (let csum = csum + (drop_bit 8 i AND 255) + (i AND 255) in case sscanf_x 2 (drop 13 line) of
       Scan_EOF \<Rightarrow> None
     | Scan_Fail \<Rightarrow> Some (True, st)
     | Scanned cksum \<Rightarrow> if checksum_ok csum cksum then Some (True, st\<lparr>extended_addr := of_int (push_bit k i)\<rparr>) else Some (True, st)))"

definition line_record :: "u8 list \<Rightarrow> int \<Rightarrow> int \<Rightarrow> int \<Rightarrow> loader \<Rightarrow> (bool \<times> loader) option" where
  "line_record line len addr code st =
    (if of_nat MAX_MEMORY_SIZE \<le> of_int addr + extended_addr st + of_int len then Some (False, st)
     else let csum = (len AND 255) + (drop_bit 8 addr AND 255) + (addr AND 255) + (code AND 255) in
     if code \<noteq> 0 then
       if code = 1 then Some (True, st\<lparr>end_record_seen := True\<rparr>)
       else if code = 2 \<and> len = 2 then line_extended line 4 csum st
       else if code = 4 \<and> len = 2 then line_extended line 16 csum st
       else Some (True, st)
     else do {
       (r, st) \<leftarrow> line_data line addr len 0 csum (st\<lparr>byte_count := byte_count st + len\<rparr>);
       case r of Inl _ \<Rightarrow> Some (False, st)
       | Inr csum \<Rightarrow> (case sscanf_x 2 (drop (nat (9 + 2 * len)) line) of
           Scan_EOF \<Rightarrow> None
         | Scan_Fail \<Rightarrow> Some (False, st)
         | Scanned cksum \<Rightarrow> Some (checksum_ok csum cksum, st)) })"

definition parse_hex_line :: "u8 list \<Rightarrow> loader \<Rightarrow> (bool \<times> loader) option" where
  "parse_hex_line line st =
    (if take 1 line \<noteq> [58] then Some (False, st)
     else if length line < 11 then Some (False, st)
     else case sscanf_x 2 (drop 1 line) of
       Scan_EOF \<Rightarrow> None
     | Scan_Fail \<Rightarrow> Some (False, st)
     | Scanned len \<Rightarrow> if int (length line) < 11 + len * 2 then Some (False, st)
       else case sscanf_x 4 (drop 3 line) of
         Scan_EOF \<Rightarrow> None
       | Scan_Fail \<Rightarrow> Some (False, st)
       | Scanned addr \<Rightarrow> (case sscanf_x 2 (drop 7 line) of
           Scan_EOF \<Rightarrow> None
         | Scan_Fail \<Rightarrow> Some (False, st)
         | Scanned code \<Rightarrow> line_record line len addr code st))"

text \<open>The program never reads its standard input, whose end-of-file indicator it also tests.\<close>

function read_lines :: "u8 list \<Rightarrow> loader \<Rightarrow> (int \<times> loader) option" where
  "read_lines xs st = (if xs = [] then Some (byte_count st, st)
     else let (buf, rest) = fgets 1023 xs; line = takeWhile (\<lambda>c. c \<noteq> 0) buf in do {
       (ok, st) \<leftarrow> (if line = [] then Some (True, st) else parse_hex_line line st);
       if \<not> ok then Some (- 2, st)
       else if end_record_seen st then Some (byte_count st, st)
       else read_lines rest st })"
  by pat_completeness auto
termination by (relation "measure (\<lambda>(xs, _). length xs)") (auto dest: sym [of "(_, _)"] simp: fgets_rest(2) prod_eq_iff)

declare read_lines.simps [simp del]

definition empty_loader :: loader where
  "empty_loader = \<lparr>firmware_image = \<lambda>_. 0xFF, firmware_mask = \<lambda>_. False, end_record_seen = False, byte_count = 0, extended_addr = 0\<rparr>"

definition read_intel_hex :: "u8 list option \<Rightarrow> (int \<times> loader) option" where
  "read_intel_hex file = (case file of None \<Rightarrow> Some (- 1, empty_loader) | Some xs \<Rightarrow> read_lines xs empty_loader)"

definition ihex_bytes_within_range :: "int \<Rightarrow> int \<Rightarrow> loader \<Rightarrow> bool" where
  "ihex_bytes_within_range begin end st \<longleftrightarrow>
     \<not> (begin < 0 \<or> int MAX_MEMORY_SIZE \<le> begin \<or> end < 0 \<or> int MAX_MEMORY_SIZE \<le> end) \<and>
     list_ex (\<lambda>i. firmware_mask st i) [nat begin..<nat (end + 1)]"

definition ihex_get_data :: "int \<Rightarrow> int \<Rightarrow> loader \<Rightarrow> u8 list" where
  "ihex_get_data addr len st =
    (if addr < 0 \<or> len < 0 \<or> int MAX_MEMORY_SIZE \<le> addr + len then replicate (nat len) 255
     else map (\<lambda>i. if firmware_mask st i then firmware_image st i else 255) [nat addr..<nat (addr + len)])"

subsection \<open>The main program\<close>

record options =
  wait_for_device_to_appear :: bool
  hard_reboot_device :: bool
  reboot_after_programming :: bool
  verbose :: bool
  code_size :: int
  block_size :: int
  filename :: "string option"

definition default_options :: options where
  "default_options = \<lparr>wait_for_device_to_appear = False, hard_reboot_device = False, reboot_after_programming = True, verbose = False,
     code_size = 0, block_size = 0, filename = None\<rparr>"

definition strncmp_eq :: "string \<Rightarrow> string \<Rightarrow> bool" where
  "strncmp_eq arg p \<longleftrightarrow> take (length p) arg = p"

text \<open>The sizes of the memory and of a page, by the name of the controller.\<close>

definition mcu_sizes :: "string \<Rightarrow> (int \<times> int) option" where
  "mcu_sizes arg = do {
     arg \<leftarrow> (if strncmp_eq arg ''at90usb'' then Some (drop 7 arg) else if strncmp_eq arg ''atmega'' then Some (drop 6 arg) else None);
     if strncmp_eq arg ''128'' then Some (128 * 1024, 256)
     else if strncmp_eq arg ''64'' then Some (64 * 1024, 256)
     else if strncmp_eq arg ''32'' then Some (32 * 1024, 128)
     else if strncmp_eq arg ''16'' then Some (16 * 1024, 128)
     else if strncmp_eq arg ''8'' then Some (8 * 1024, 128) else None }"

text \<open>\<open>None\<close> is \<open>die\<close>.\<close>

fun parse_options :: "string list \<Rightarrow> options \<Rightarrow> options option" where
  "parse_options [] opt = Some opt"
| "parse_options (arg # args) opt = do {
     opt \<leftarrow> (if take 1 arg = ''-'' then
         if arg = ''-w'' then Some (opt\<lparr>wait_for_device_to_appear := True\<rparr>)
         else if arg = ''-r'' then Some (opt\<lparr>hard_reboot_device := True\<rparr>)
         else if arg = ''-n'' then Some (opt\<lparr>reboot_after_programming := False\<rparr>)
         else if arg = ''-v'' then Some (opt\<lparr>verbose := True\<rparr>)
         else if strncmp_eq arg ''-mmcu='' then
           map_option (\<lambda>(c, b). opt\<lparr>code_size := c, block_size := b\<rparr>) (mcu_sizes (drop 6 arg))
         else Some opt
       else Some (opt\<lparr>filename := Some arg\<rparr>));
     parse_options args opt }"

text \<open>
  What the program uses of the system: the contents of a file, libusb's device and control transfers, and the delay. The world \<open>'w\<close> holds the
  rest. \<open>teensy_open\<close> and \<open>hard_reboot\<close> search the USB devices and are part of it.
\<close>

record 'w host_os =
  os_file :: "string \<Rightarrow> 'w \<Rightarrow> u8 list option"
  os_open :: "'w \<Rightarrow> bool \<times> 'w"
  os_hard_reboot :: "'w \<Rightarrow> bool \<times> 'w"
  os_delay :: "'w \<Rightarrow> 'w"
  usb_control_msg :: "u8 \<Rightarrow> u8 \<Rightarrow> u16 \<Rightarrow> u16 \<Rightarrow> u8 list \<Rightarrow> 'w \<Rightarrow> int \<times> 'w"

text \<open>The device is open when it is called, so the handle is not null.\<close>

definition teensy_write :: "'w host_os \<Rightarrow> u8 list \<Rightarrow> 'w \<Rightarrow> bool \<times> 'w" where
  "teensy_write os buf w = (let (r, w) = usb_control_msg os 0x21 9 0x0200 0 buf w in (\<not> r < 0, w))"

definition address_bytes :: "int \<Rightarrow> int \<Rightarrow> u8 list" where
  "address_bytes csize addr =
    (if csize < 0x10000 then [of_int (addr AND 255), of_int (drop_bit 8 addr AND 255)]
     else [of_int (drop_bit 8 addr AND 255), of_int (drop_bit 16 addr AND 255)])"

definition block_skipped :: "options \<Rightarrow> loader \<Rightarrow> int \<Rightarrow> bool" where
  "block_skipped opt st addr \<longleftrightarrow> 0 < addr \<and> \<not> ihex_bytes_within_range addr (addr + block_size opt - 1) st"

definition block_report :: "options \<Rightarrow> loader \<Rightarrow> int \<Rightarrow> u8 list" where
  "block_report opt st addr = address_bytes (code_size opt) addr @ ihex_get_data addr (block_size opt) st"

text \<open>The loop over the blocks, for the addresses it visits; it returns false when a write fails.\<close>

fun program_blocks :: "'w host_os \<Rightarrow> options \<Rightarrow> loader \<Rightarrow> int list \<Rightarrow> 'w \<Rightarrow> bool \<times> 'w" where
  "program_blocks os opt st [] w = (True, w)"
| "program_blocks os opt st (addr # addrs) w =
    (if block_skipped opt st addr then program_blocks os opt st addrs w
     else let (r, w) = teensy_write os (block_report opt st addr) w in
       if \<not> r then (False, w) else program_blocks os opt st addrs w)"

definition block_addresses :: "options \<Rightarrow> int list" where
  "block_addresses opt = map (\<lambda>k. int k * block_size opt) [0..<nat ((code_size opt + block_size opt - 1) div block_size opt)]"

text \<open>Opening the device: it returns whether the program had to wait for it, or nothing if it gives up.\<close>

definition open_body :: "'w host_os \<Rightarrow> bool \<times> bool \<times> bool \<Rightarrow> 'w \<Rightarrow> (((bool \<times> bool \<times> bool) + bool option) \<times> 'w) option" where
  "open_body os l w = (case l of (wait, hard, waited) \<Rightarrow>
     let (ok, w) = os_open os w in
     if ok then Some (Inr (Some waited), w)
     else let (failed, wait, hard, w) =
         (if hard then let (r, w) = os_hard_reboot os w in (\<not> r, True, False, w) else (False, wait, False, w)) in
     if failed \<or> \<not> wait then Some (Inr None, w)
     else Some (Inl (wait, hard, True), os_delay os w))"

text \<open>The exit code of the program.\<close>

definition loader_main :: "'w host_os \<Rightarrow> string list \<Rightarrow> 'w \<Rightarrow> (int \<times> 'w) option" where
  "loader_main os args w = (case parse_options args default_options of
     None \<Rightarrow> Some (1, w)
   | Some opt \<Rightarrow> (case filename opt of None \<Rightarrow> Some (1, w) | Some name \<Rightarrow>
     if code_size opt = 0 then Some (1, w)
     else do {
       (num, st) \<leftarrow> read_intel_hex (os_file os name w);
       if num < 0 then Some (1, w)
       else do {
         (opened, w) \<leftarrow> floop (open_body os) (wait_for_device_to_appear opt, hard_reboot_device opt, False) w;
         case opened of None \<Rightarrow> Some (1, w)
         | Some waited \<Rightarrow> do {
             (num, st) \<leftarrow> (if waited then read_intel_hex (os_file os name w) else Some (num, st));
             if num < 0 then Some (1, w)
             else let (ok, w) = program_blocks os opt st (block_addresses opt) w in
               if \<not> ok then Some (1, w)
               else let w = (if reboot_after_programming opt
                   then snd (teensy_write os ([0xFF, 0xFF] @ replicate (nat (block_size opt)) 0) w) else w)
               in Some (0, w) } } }))"

subsection \<open>Reading the records of a file\<close>

lemma digit_char_scan_all:
  "list_all (\<lambda>n. let c = digit_char (of_nat n) in xdigit c = Some (int n) \<and> \<not> isspace c \<and> c \<notin> {43, 45, 88, 120} \<and> c \<noteq> 0 \<and> c \<noteq> 10) [0..<16]"
  by code_simp

lemma digit_char_scan:
  assumes "d < 16"
  shows "xdigit (digit_char d) = Some (uint d)" "\<not> isspace (digit_char d)" "digit_char d \<notin> {43, 45, 88, 120}" "digit_char d \<noteq> 0" "digit_char d \<noteq> 10"
proof -
  from assms have "unat d \<in> set [0..<16]" by (simp add: word_less_nat_alt)
  from bspec [OF digit_char_scan_all [unfolded list_all_iff] this]
  show "xdigit (digit_char d) = Some (uint d)" "\<not> isspace (digit_char d)" "digit_char d \<notin> {43, 45, 88, 120}"
    "digit_char d \<noteq> 0" "digit_char d \<noteq> 10" by (simp_all add: Let_def)
qed

lemma uint_byte_nibbles: "uint b = 16 * uint (drop_bit 4 b) + uint (b AND 15)" for b :: u8
proof -
  have "b AND 15 = take_bit 4 b" by (simp add: take_bit_eq_mask mask_eq_exp_minus_1)
  then have "uint (b AND 15) = uint b mod 16" by (simp add: take_bit_eq_mod uint_mod_distrib)
  moreover have "uint (drop_bit 4 b) = uint b div 16" by (simp add: drop_bit_eq_div uint_div_distrib)
  ultimately show ?thesis by simp
qed

lemma scan_hex_byte: "sscanf_x 2 (hex_byte b @ cs) = Scanned (uint b)"
  using digit_char_scan [OF byte_nibbles(1) [of b]] digit_char_scan [OF byte_nibbles(2) [of b]] uint_byte_nibbles [of b]
  by (simp add: sscanf_x_def hex_byte_def scan_digits_def numeral_2_eq_2)

lemma scan_hex_word: "sscanf_x 4 (hex_byte b @ hex_byte c @ cs) = Scanned (256 * uint b + uint c)"
  using digit_char_scan [OF byte_nibbles(1) [of b]] digit_char_scan [OF byte_nibbles(2) [of b]] uint_byte_nibbles [of b]
    digit_char_scan [OF byte_nibbles(1) [of c]] digit_char_scan [OF byte_nibbles(2) [of c]] uint_byte_nibbles [of c]
  by (simp add: sscanf_x_def hex_byte_def scan_digits_def numeral_eq_Suc)

lemma drop_hex_bytes: "k \<le> length bs \<Longrightarrow> drop (Suc (2 * k)) (58 # concat (map hex_byte bs) @ t) = concat (map hex_byte (drop k bs)) @ t"
proof (induction k arbitrary: bs)
  case (Suc k)
  then show ?case by (cases bs) (simp_all add: hex_byte_def)
qed simp

lemma checksum_ok_iff: "checksum_ok x y \<longleftrightarrow> (of_int (x + y) :: u8) = 0"
proof -
  have "z AND 255 = z mod 256" for z :: int
    using take_bit_eq_mask [of 8 z] by (simp add: mask_eq_exp_minus_1 take_bit_eq_mod)
  then have "checksum_ok x y \<longleftrightarrow> (x + y) mod 256 = 0" by (simp add: checksum_ok_def mod_add_eq)
  then show ?thesis unfolding word_of_int_eq_0_iff by (simp add: dvd_eq_mod_eq_0)
qed

text \<open>The first \<open>length bs\<close> bytes of the memory are \<open>bs\<close>, the others were not loaded.\<close>

definition image_of :: "u8 list \<Rightarrow> loader \<Rightarrow> bool" where
  "image_of bs st \<longleftrightarrow> (\<forall>i. firmware_mask st i \<longleftrightarrow> i < length bs) \<and> (\<forall>i < length bs. firmware_image st i = bs ! i) \<and>
     extended_addr st = 0"

lemma image_store:
  assumes "image_of bs st" and "length bs < MAX_MEMORY_SIZE"
  shows "\<exists>st'. store (of_nat (length bs)) b st = Some st' \<and> image_of (bs @ [b]) st' \<and> byte_count st' = byte_count st \<and>
    end_record_seen st' = end_record_seen st"
proof -
  have "unat (of_nat (length bs) :: u32) = length bs" using assms(2) by (subst unat_of_nat) (simp add: MAX_MEMORY_SIZE_def)
  with assms show ?thesis by (auto simp: store_def image_of_def nth_append less_Suc_eq)
qed

lemma line_data_stores:
  assumes "image_of (bs @ take num ds) st" "num \<le> length ds" "length ds < 256" "length bs + length ds < MAX_MEMORY_SIZE"
    and l: "\<And>k. k < length ds \<Longrightarrow> 9 + 2 * k \<le> length line \<and> sscanf_x 2 (drop (9 + 2 * k) line) = Scanned (uint (ds ! k))"
  shows "\<exists>st'. line_data line (int (length bs)) (int (length ds)) num csum st = Some (Inr (csum + sum_list (map uint (drop num ds))), st') \<and>
    image_of (bs @ ds) st' \<and> byte_count st' = byte_count st \<and> end_record_seen st' = end_record_seen st"
  using assms(1,2)
proof (induction "length ds - num" arbitrary: num csum st)
  case 0
  then show ?case by (simp add: line_data.simps)
next
  case (Suc n)
  then have lt: "num < length ds" by simp
  have "length (bs @ take num ds) < MAX_MEMORY_SIZE" using lt assms(4) by simp
  from image_store [OF Suc.prems(1) this, of "ds ! num"] obtain st1 where
    st1: "store (of_nat (length bs + num)) (ds ! num) st = Some st1" "image_of (bs @ take (Suc num) ds) st1" "byte_count st1 = byte_count st"
      "end_record_seen st1 = end_record_seen st"
    using lt by (auto simp: take_Suc_conv_app_nth)
  have e: "extended_addr st = 0" using Suc.prems(1) by (simp add: image_of_def)
  have u: "uint x AND 255 = uint x" for x :: u8
    using take_bit_eq_mask [of 8 "uint x"] bintr_uint [of 8 x] by (simp add: mask_eq_exp_minus_1)
  have "n = length ds - Suc num" using Suc(2) by simp
  from Suc.hyps(1) [OF this st1(2), of "csum + uint (ds ! num)"] lt obtain st' where
    "line_data line (int (length bs)) (int (length ds)) (Suc num) (csum + uint (ds ! num)) st1 =
      Some (Inr (csum + uint (ds ! num) + sum_list (map uint (drop (Suc num) ds))), st')"
    "image_of (bs @ ds) st'" "byte_count st' = byte_count st" "end_record_seen st' = end_record_seen st" using st1(3,4) by auto
  moreover have "drop num ds = ds ! num # drop (Suc num) ds" using lt by (simp add: Cons_nth_drop_Suc)
  ultimately show ?case using lt l [OF lt] st1(1) e assms(3) u [of "ds ! num"]
    by (subst line_data.simps) (simp add: not_less add.assoc)
qed

text \<open>A data record behind the bytes loaded so far, the record that ends the file and one that sets the upper address.\<close>

definition full_line :: "u16 \<Rightarrow> u8 \<Rightarrow> u8 list \<Rightarrow> u8 list" where
  "full_line addr rt ds = record_bytes addr rt ds @ [- sum_list (record_bytes addr rt ds)]"

lemma hex_line_full: "hex_line addr rt ds = 58 # concat (map hex_byte (full_line addr rt ds)) @ [13, 10]"
  by (simp add: hex_line_def full_line_def Let_def)

lemma length_hex_line: "length (hex_line addr rt ds) = 13 + 2 * length ds"
proof -
  have "length (concat (map hex_byte bs)) = 2 * length bs" for bs by (induction bs) (simp_all add: hex_byte_def)
  from this [of "full_line addr rt ds"] show ?thesis unfolding hex_line_full by (simp add: full_line_def record_bytes_def)
qed

lemma hex_line_scan:
  fixes ds :: "u8 list"
  assumes "length ds < 256" and "n < 65536"
  shows "sscanf_x 2 (drop 1 (hex_line (of_nat n) rt ds)) = Scanned (int (length ds))"
    and "sscanf_x 4 (drop 3 (hex_line (of_nat n) rt ds)) = Scanned (int n)"
    and "sscanf_x 2 (drop 7 (hex_line (of_nat n) rt ds)) = Scanned (uint rt)"
    and "k < length ds \<Longrightarrow> sscanf_x 2 (drop (9 + 2 * k) (hex_line (of_nat n) rt ds)) = Scanned (uint (ds ! k))"
    and "sscanf_x 2 (drop (9 + 2 * length ds) (hex_line (of_nat n) rt ds)) = Scanned (uint (- sum_list (record_bytes (of_nat n) rt ds)))"
proof -
  let ?bs = "full_line (of_nat n) rt ds"
  have d: "drop (Suc (2 * k)) (hex_line (of_nat n) rt ds) = concat (map hex_byte (drop k ?bs)) @ [13, 10]" if "k \<le> length ?bs" for k
    unfolding hex_line_full by (rule drop_hex_bytes [OF that])
  have len: "length ?bs = 5 + length ds" by (simp add: full_line_def record_bytes_def)
  have b: "?bs = of_nat (length ds) # ucast (drop_bit 8 (of_nat n :: u16)) # ucast (of_nat n :: u16) # rt # ds @ [- sum_list (record_bytes (of_nat n) rt ds)]"
    by (simp add: full_line_def record_bytes_def)
  have l: "uint (of_nat (length ds) :: u8) = int (length ds)" using assms(1) by (simp add: unsigned_of_nat take_bit_nat_eq_self)
  have "uint (of_nat n :: u16) = int n" using assms(2) by (simp add: unsigned_of_nat take_bit_nat_eq_self)
  then have a: "256 * uint (ucast (drop_bit 8 (of_nat n :: u16)) :: u8) + uint (ucast (of_nat n :: u16) :: u8) = int n" using assms(2)
    by (simp add: unsigned_ucast_eq drop_bit_eq_div take_bit_eq_mod uint_div_distrib)
  have g: "sscanf_x 2 (drop (Suc (2 * k)) (hex_line (of_nat n) rt ds)) = Scanned (uint (?bs ! k))" if "k < length ?bs" for k
    using d [of k] that Cons_nth_drop_Suc [OF that, symmetric] by (simp add: scan_hex_byte)
  show "sscanf_x 2 (drop 1 (hex_line (of_nat n) rt ds)) = Scanned (int (length ds))" using g [of 0] l by (simp add: b)
  show "sscanf_x 4 (drop 3 (hex_line (of_nat n) rt ds)) = Scanned (int n)" using d [of 1] a by (simp add: b scan_hex_word)
  show "sscanf_x 2 (drop 7 (hex_line (of_nat n) rt ds)) = Scanned (uint rt)" using g [of 3] by (simp add: b)
  have e: "Suc (2 * (4 + k)) = 9 + 2 * k" for k by simp
  show "sscanf_x 2 (drop (9 + 2 * k) (hex_line (of_nat n) rt ds)) = Scanned (uint (ds ! k))" if "k < length ds"
    using g [of "4 + k", unfolded e] that by (simp add: len) (simp add: b nth_append)
  show "sscanf_x 2 (drop (9 + 2 * length ds) (hex_line (of_nat n) rt ds)) = Scanned (uint (- sum_list (record_bytes (of_nat n) rt ds)))"
    using g [of "4 + length ds", unfolded e] by (simp add: len) (simp add: b)
qed

lemma parse_hex_record:
  fixes ds :: "u8 list"
  assumes "length ds < 256" and "n < 65536"
  shows "parse_hex_line (hex_line (of_nat n) rt ds) st = line_record (hex_line (of_nat n) rt ds) (int (length ds)) (int n) (uint rt) st"
proof -
  have "take 1 (hex_line (of_nat n) rt ds) = [58]" by (simp add: hex_line_full)
  then show ?thesis using hex_line_scan(1-3) [OF assms, of rt] by (simp add: parse_hex_line_def length_hex_line)
qed

lemma of_int_sum_list: "of_int (sum_list (map uint ds)) = sum_list ds" for ds :: "u8 list"
  by (induction ds) simp_all

lemma header_sum:
  assumes "n < 65536"
  shows "of_int (k AND 255) = (of_int k :: u8)"
    and "of_int (drop_bit 8 (int n)) = (ucast (drop_bit 8 (of_nat n :: u16)) :: u8)" and "of_nat n = (ucast (of_nat n :: u16) :: u8)"
proof -
  show "of_int (k AND 255) = (of_int k :: u8)"
    using take_bit_eq_mask [of 8 k] by (simp add: mask_eq_exp_minus_1 word_of_int_eq_iff flip: take_bit_eq_mask)
  show "of_nat n = (ucast (of_nat n :: u16) :: u8)" using assms by (simp add: unsigned_of_nat take_bit_nat_eq_self)
  have "drop_bit 8 (of_nat n :: u16) = of_nat (n div 256)" using assms by (simp add: word_unat_eq_iff drop_bit_eq_div unat_div_distrib unat_of_nat)
  moreover have "drop_bit 8 (int n) = int (n div 256)" by (simp add: drop_bit_eq_div zdiv_int)
  ultimately show "of_int (drop_bit 8 (int n)) = (ucast (drop_bit 8 (of_nat n :: u16)) :: u8)"
    using assms by (simp add: unsigned_of_nat take_bit_nat_eq_self)
qed

lemma parse_data:
  assumes "image_of bs st" "length ds < 256" "length bs + length ds < MAX_MEMORY_SIZE"
  shows "\<exists>st'. parse_hex_line (hex_line (of_nat (length bs)) 0 ds) st = Some (True, st') \<and> image_of (bs @ ds) st' \<and>
    byte_count st' = byte_count st + int (length ds) \<and> end_record_seen st' = end_record_seen st"
proof -
  let ?n = "length bs" and ?l = "hex_line (of_nat (length bs)) 0 ds" and ?st = "st\<lparr>byte_count := byte_count st + int (length ds)\<rparr>"
  let ?sum = "(int (length ds) AND 255) + (drop_bit 8 (int ?n) AND 255) + (int ?n AND 255)"
  have n: "?n < 65536" using assms(3) by (simp add: MAX_MEMORY_SIZE_def)
  note scan = hex_line_scan [OF assms(2) n, of 0]
  have l: "9 + 2 * k \<le> length ?l \<and> sscanf_x 2 (drop (9 + 2 * k) ?l) = Scanned (uint (ds ! k))" if "k < length ds" for k
    using hex_line_scan(4) [OF assms(2) n that, of 0] that by (simp add: length_hex_line)
  have im: "image_of (bs @ take 0 ds) ?st" using assms(1) by (simp add: image_of_def)
  from line_data_stores [OF im _ assms(2,3) l, of ?sum] obtain st' where
    d: "line_data ?l (int ?n) (int (length ds)) 0 ?sum ?st = Some (Inr (?sum + sum_list (map uint ds)), st')"
    "image_of (bs @ ds) st'" "byte_count st' = byte_count ?st" "end_record_seen st' = end_record_seen st"
    by auto
  have "of_int (?sum + sum_list (map uint ds) + uint (- sum_list (record_bytes (of_nat ?n) 0 ds))) = (0 :: u8)"
    using n by (simp add: record_bytes_def of_int_sum_list header_sum)
  then have ok: "checksum_ok (?sum + sum_list (map uint ds)) (uint (- sum_list (record_bytes (of_nat ?n) 0 ds)))" by (simp add: checksum_ok_iff)
  have r: "\<not> of_nat MAX_MEMORY_SIZE \<le> of_int (int ?n) + extended_addr st + of_int (int (length ds))"
  proof -
    have "unat (of_nat (?n + length ds) :: u32) = ?n + length ds" using assms(3) by (subst unat_of_nat) (simp add: MAX_MEMORY_SIZE_def)
    then show ?thesis using assms(1,3) by (simp add: image_of_def word_le_nat_alt MAX_MEMORY_SIZE_def)
  qed
  have "nat (9 + 2 * int (length ds)) = 9 + 2 * length ds" by simp
  then show ?thesis using d ok r scan(5) by (simp add: parse_hex_record [OF assms(2) n] line_record_def)
qed

lemma parse_eof: "image_of bs st \<Longrightarrow> parse_hex_line eof_line st = Some (True, st\<lparr>end_record_seen := True\<rparr>)"
  using parse_hex_record [of "[]" 0 1 st] by (simp add: eof_line_def line_record_def image_of_def MAX_MEMORY_SIZE_def)

lemma fgets_line: "10 \<notin> set l \<Longrightarrow> length l < n \<Longrightarrow> fgets n (l @ 10 # r) = (l @ [10], r)"
  by (induction l arbitrary: n) (case_tac n; simp)+

lemma hex_line_chars: "10 \<notin> set (butlast (hex_line addr rt ds))" "0 \<notin> set (hex_line addr rt ds)"
  "hex_line addr rt ds = butlast (hex_line addr rt ds) @ [10]"
proof -
  have "set (hex_byte b) \<inter> {0, 10} = {}" for b
    using digit_char_scan(4,5) [OF byte_nibbles(1) [of b]] digit_char_scan(4,5) [OF byte_nibbles(2) [of b]] by (auto simp: hex_byte_def)
  then have c: "set (concat (map hex_byte bs)) \<inter> {0, 10} = {}" for bs by (induction bs) auto
  have b: "butlast (hex_line addr rt ds) = 58 # concat (map hex_byte (full_line addr rt ds)) @ [13]"
    by (simp add: hex_line_full butlast_append)
  from c [of "full_line addr rt ds"] show "10 \<notin> set (butlast (hex_line addr rt ds))" unfolding b by (auto simp del: set_concat)
  from c [of "full_line addr rt ds"] show "0 \<notin> set (hex_line addr rt ds)" unfolding hex_line_full by (auto simp del: set_concat)
  show "hex_line addr rt ds = butlast (hex_line addr rt ds) @ [10]" unfolding b by (simp add: hex_line_full)
qed

lemma read_record:
  assumes "length ds < 256"
  shows "read_lines (hex_line addr rt ds @ cs) st = do {
    (ok, st) \<leftarrow> parse_hex_line (hex_line addr rt ds) st;
    if \<not> ok then Some (- 2, st) else if end_record_seen st then Some (byte_count st, st) else read_lines cs st }"
proof -
  let ?l = "hex_line addr rt ds"
  obtain l where l: "?l = l @ [10]" "10 \<notin> set l" using hex_line_chars(1,3) by blast
  moreover have "length ?l < 1024" using assms by (simp add: length_hex_line)
  ultimately have "length l < 1023" by simp
  with l have f: "fgets 1023 (?l @ cs) = (?l, cs)" by (simp add: fgets_line)
  have t: "takeWhile (\<lambda>c. c \<noteq> 0) ?l = ?l" using hex_line_chars(2) [of addr rt ds] by (auto simp: takeWhile_eq_all_conv)
  have n: "?l \<noteq> []" by (simp add: hex_line_full)
  show ?thesis by (subst read_lines.simps) (simp add: f t n)
qed

lemma read_image:
  assumes "image_of bs st" "\<not> end_record_seen st" "byte_count st = int (length bs)" "list_all (\<lambda>ds. length ds < 256) dss"
    "length bs + length (concat dss) < MAX_MEMORY_SIZE"
  shows "\<exists>st'. read_lines (image_lines (length bs) dss @ eof_line @ cs) st = Some (int (length bs + length (concat dss)), st') \<and>
    image_of (bs @ concat dss) st'"
  using assms
proof (induction dss arbitrary: bs st)
  case Nil
  then show ?case using read_record [of "[]" 0 1 cs st] parse_eof [OF Nil(1)] by (simp add: eof_line_def image_of_def)
next
  case (Cons ds dss)
  from Cons.prems(4,5) have l: "length ds < 256" "length bs + length ds < MAX_MEMORY_SIZE" by simp_all
  from parse_data [OF Cons.prems(1) l] obtain st1 where p: "parse_hex_line (hex_line (of_nat (length bs)) 0 ds) st = Some (True, st1)"
    "image_of (bs @ ds) st1" "byte_count st1 = byte_count st + int (length ds)" "end_record_seen st1 = end_record_seen st" by blast
  from Cons.IH [OF p(2)] Cons.prems p(3,4) show ?case
    by (simp add: read_record [OF l(1)] p(1) add.assoc)
qed

lemma read_file:
  assumes "list_all (\<lambda>ds. length ds < 256) dss" "length (concat dss) < MAX_MEMORY_SIZE"
  shows "\<exists>st. read_intel_hex (Some (image_lines 0 dss @ eof_line)) = Some (int (length (concat dss)), st) \<and> image_of (concat dss) st"
  using read_image [of "[]" empty_loader dss "[]"] assms by (simp add: read_intel_hex_def image_of_def empty_loader_def)

subsection \<open>The blocks that are sent\<close>

text \<open>The byte of page contents at \<open>i\<close> of an image, and the pages that are sent.\<close>

definition padded :: "u8 list \<Rightarrow> nat \<Rightarrow> u8" where
  "padded bs i = (if i < length bs then bs ! i else 0xFF)"

definition page_used :: "u8 list \<Rightarrow> nat \<Rightarrow> bool" where
  "page_used bs k \<longleftrightarrow> k = 0 \<or> k * SPM_PAGESIZE < length bs"

lemma page_used_less: "page_used bs k \<Longrightarrow> length bs \<le> 0xFF00 \<Longrightarrow> k < 255"
  by (auto simp: page_used_def SPM_PAGESIZE_def)

lemma page_used_byte: "i < length bs \<Longrightarrow> page_used bs (page_of i)"
proof -
  assume "i < length bs"
  moreover have "page_of i * SPM_PAGESIZE \<le> i" by (simp add: page_of_def)
  ultimately show ?thesis by (simp add: page_used_def)
qed

lemma block_sent:
  assumes im: "image_of bs st" and len: "length bs \<le> 0xFF00" and opt: "0x10000 \<le> code_size opt" "block_size opt = 256"
  shows "block_skipped opt st (int k * 256) \<longleftrightarrow> \<not> page_used bs k"
    and "page_used bs k \<Longrightarrow> block_report opt st (int k * 256) = bytes16 (of_nat k) @ map (padded bs) [k * SPM_PAGESIZE..<k * SPM_PAGESIZE + SPM_PAGESIZE]"
proof -
  have m: "firmware_mask st i \<longleftrightarrow> i < length bs" for i using im by (simp add: image_of_def)
  have "list_ex (\<lambda>i. i < length bs) [k * 256..<k * 256 + 256] \<longleftrightarrow> k * 256 < length bs" by (auto simp: list_ex_iff)
  moreover have "nat (int k * 256) = k * 256" "nat (int k * 256 + 255 + 1) = k * 256 + 256" by simp_all
  ultimately show "block_skipped opt st (int k * 256) \<longleftrightarrow> \<not> page_used bs k" using len
    by (auto simp: block_skipped_def page_used_def opt m ihex_bytes_within_range_def MAX_MEMORY_SIZE_def SPM_PAGESIZE_def)
  assume u: "page_used bs k"
  note k = page_used_less [OF u len]
  have "drop_bit 8 (int k * 256) = int k" "drop_bit 16 (int k * 256) = 0" using k by (simp_all add: drop_bit_eq_div)
  moreover have "int k AND 255 = int k" using take_bit_eq_mask [of 8 "int k"] k by (simp add: mask_eq_exp_minus_1 take_bit_int_eq_self)
  ultimately have "address_bytes (code_size opt) (int k * 256) = [of_nat k, 0]" using opt by (simp add: address_bytes_def)
  moreover have "bytes16 (of_nat k) = [of_nat k, 0]" using header_sum(2,3) [of k] k by (simp add: bytes16_def drop_bit_eq_div)
  moreover have "ihex_get_data (int k * 256) 256 st = map (padded bs) [k * 256..<k * 256 + 256]"
  proof -
    have "nat (int k * 256) = k * 256" "nat (int k * 256 + 256) = k * 256 + 256" by simp_all
    then show ?thesis using k im by (auto simp: ihex_get_data_def MAX_MEMORY_SIZE_def image_of_def padded_def)
  qed
  ultimately show "block_report opt st (int k * 256) = bytes16 (of_nat k) @ map (padded bs) [k * SPM_PAGESIZE..<k * SPM_PAGESIZE + SPM_PAGESIZE]"
    by (simp add: block_report_def opt SPM_PAGESIZE_def)
qed

subsection \<open>The program and the boot loader together\<close>

text \<open>
  The device as the host program sees it: a control transfer is handled by the boot loader, \<open>deliver\<close> puts the data stage of a report into the
  controller. The device is present when the program looks for it.
\<close>

definition hid_device :: "'w mcu \<Rightarrow> 'f spm \<Rightarrow> bool \<Rightarrow> (u8 list \<Rightarrow> 'w \<Rightarrow> 'w) \<Rightarrow> u8 list \<Rightarrow> ('f, 'w) hid_dev host_os" where
  "hid_device m p far deliver hexf = \<lparr>os_file = \<lambda>_ _. Some hexf, os_open = \<lambda>s. (True, s), os_hard_reboot = \<lambda>s. (False, s), os_delay = \<lambda>s. s,
     usb_control_msg = \<lambda>t q v i buf s.
       case HID_ControlRequest m p far (s\<lparr>USB_ControlRequest := \<lparr>bmRequestType = t, bRequest = q, wValue = v, wIndex = i, wLength = of_nat (length buf)\<rparr>,
           world := deliver buf (world s)\<rparr>) of
         Some s' \<Rightarrow> (int (length buf), s') | None \<Rightarrow> (- 1, s)\<rparr>"

text \<open>The host controller splits a report into packets.\<close>

definition packs_reports :: "('w \<Rightarrow> u8 list list) \<Rightarrow> (u8 list \<Rightarrow> 'w \<Rightarrow> 'w) \<Rightarrow> bool" where
  "packs_reports packets deliver \<longleftrightarrow> (\<forall>buf w. even (length buf) \<longrightarrow> word_packets (packets (deliver buf w)) \<and> concat (packets (deliver buf w)) = buf)"

context page_writer
begin

lemma delivered:
  assumes "packs_reports packets deliver" and "length ds = SPM_PAGESIZE" and "s1 = s\<lparr>USB_ControlRequest := q, world := deliver (lo # hi # ds) (world s)\<rparr>"
  shows "staged (packets (world s1)) (app s) q s1" "word_packets (packets (world s1))" "concat (packets (world s1)) = lo # hi # ds"
  using assms by (simp_all add: staged_def packs_reports_def SPM_PAGESIZE_def)

lemma write_block:
  assumes "packs_reports packets deliver" "length ds = SPM_PAGESIZE" "k < 0xFFFF" "app s = \<lparr>RunBootloader = b, flash = f\<rparr>" "slot f = Map.empty"
  shows "\<exists>s' f'. teensy_write (hid_device m spm True deliver hexf) (bytes16 (of_nat k) @ ds) s = (True, s') \<and>
    app s' = \<lparr>RunBootloader = b, flash = f'\<rparr> \<and> slot f' = Map.empty \<and>
    (\<forall>i. cell f' i = (if page_of i = k then ds ! (i - k * SPM_PAGESIZE) else cell f i))"
proof -
  let ?buf = "bytes16 (of_nat k) @ ds"
  let ?q = "\<lparr>bmRequestType = 0x21, bRequest = 9, wValue = 0x200, wIndex = 0, wLength = of_nat (length ?buf)\<rparr>"
  let ?s = "s\<lparr>USB_ControlRequest := ?q, world := deliver ?buf (world s)\<rparr>"
  have "?s = s\<lparr>USB_ControlRequest := ?q, world := deliver (ucast (of_nat k :: u16) # ucast (drop_bit 8 (of_nat k :: u16)) # ds) (world s)\<rparr>"
    by (simp add: bytes16_def)
  from delivered [OF assms(1,2) this] assms(4)
  have "staged (packets (world ?s)) \<lparr>RunBootloader = b, flash = f\<rparr> ?q ?s" "word_packets (packets (world ?s))" "concat (packets (world ?s)) = ?buf"
    by (simp_all add: bytes16_def)
  from report_page [OF this _ _ assms(2,3,5)] show ?thesis by (auto simp: teensy_write_def hid_device_def)
qed

lemma program_pages:
  assumes "packs_reports packets deliver" "app s = \<lparr>RunBootloader = b, flash = f\<rparr>" "slot f = Map.empty"
    and "image_of bs st" "length bs \<le> 0xFF00" "0x10000 \<le> code_size opt" "block_size opt = 256" "list_all (\<lambda>k. k < 0xFFFF) ks"
  shows "\<exists>s' f'. program_blocks (hid_device m spm True deliver hexf) opt st (map (\<lambda>k. int k * 256) ks) s = (True, s') \<and>
    app s' = \<lparr>RunBootloader = b, flash = f'\<rparr> \<and> (\<forall>i. cell f' i = (if page_of i \<in> set ks \<and> page_used bs (page_of i) then padded bs i else cell f i))"
  using assms(2,3,8)
proof (induction ks arbitrary: s f)
  case (Cons k ks)
  note b = block_sent [OF assms(4-7), of k]
  show ?case
  proof (cases "page_used bs k")
    case True
    let ?ds = "map (padded bs) [k * SPM_PAGESIZE..<k * SPM_PAGESIZE + SPM_PAGESIZE]"
    have "length ?ds = SPM_PAGESIZE" "k < 0xFFFF" using Cons.prems(3) by simp_all
    from write_block [OF assms(1) this Cons.prems(1,2), of hexf] obtain s1 f1 where
      w: "teensy_write (hid_device m spm True deliver hexf) (bytes16 (of_nat k) @ ?ds) s = (True, s1)" "app s1 = \<lparr>RunBootloader = b, flash = f1\<rparr>"
      "slot f1 = Map.empty" "\<And>i. cell f1 i = (if page_of i = k then ?ds ! (i - k * SPM_PAGESIZE) else cell f i)" by blast
    have c: "cell f1 i = (if page_of i = k then padded bs i else cell f i)" for i
    proof (cases "page_of i = k")
      case True
      then have "i = k * SPM_PAGESIZE + i mod SPM_PAGESIZE" by (auto simp: page_of_def)
      moreover have "i mod SPM_PAGESIZE < SPM_PAGESIZE" by (simp add: SPM_PAGESIZE_def)
      ultimately have "?ds ! (i - k * SPM_PAGESIZE) = padded bs i" by (metis add_diff_cancel_left' diff_add_inverse length_upt nth_map nth_upt nat_add_left_cancel_less)
      with True w(4) show ?thesis by simp
    qed (simp add: w(4))
    from Cons.IH [OF w(2,3)] Cons.prems(3) obtain s' f' where
      "program_blocks (hid_device m spm True deliver hexf) opt st (map (\<lambda>k. int k * 256) ks) s1 = (True, s')"
      "app s' = \<lparr>RunBootloader = b, flash = f'\<rparr>"
      "\<And>i. cell f' i = (if page_of i \<in> set ks \<and> page_used bs (page_of i) then padded bs i else cell f1 i)" by auto
    then show ?thesis using w(1) b True by (intro exI [of _ s'] exI [of _ f']) (auto simp: c)
  next
    case False
    with Cons.IH [OF Cons.prems(1,2)] Cons.prems(3) b(1) show ?thesis by auto
  qed
qed simp

lemma write_start:
  assumes "packs_reports packets deliver" "app s = \<lparr>RunBootloader = b, flash = f\<rparr>"
  shows "\<exists>s'. teensy_write (hid_device m spm far deliver hexf) ([0xFF, 0xFF] @ replicate 256 0) s = (True, s') \<and>
    app s' = \<lparr>RunBootloader = False, flash = f\<rparr>"
proof -
  let ?buf = "[0xFF, 0xFF] @ replicate 256 (0 :: u8)"
  let ?q = "\<lparr>bmRequestType = 0x21, bRequest = 9, wValue = 0x200, wIndex = 0, wLength = of_nat (length ?buf)\<rparr>"
  let ?s = "s\<lparr>USB_ControlRequest := ?q, world := deliver ?buf (world s)\<rparr>"
  have l: "length (replicate 256 (0 :: u8)) = SPM_PAGESIZE" by (simp add: SPM_PAGESIZE_def)
  have "?s = s\<lparr>USB_ControlRequest := ?q, world := deliver (0xFF # 0xFF # replicate 256 0) (world s)\<rparr>" by simp
  from delivered [OF assms(1) l this] assms(2)
  have "staged (packets (world ?s)) \<lparr>RunBootloader = b, flash = f\<rparr> ?q ?s" "word_packets (packets (world ?s))"
    "concat (packets (world ?s)) = 0xFF # 0xFF # replicate 256 0" by simp_all
  from report_start [OF this _ _ l, of far] show ?thesis by (auto simp: teensy_write_def hid_device_def)
qed

text \<open>A controller with 16-bit addresses, sent the upper bits of an address.\<close>

lemma write_block_near:
  assumes "packs_reports packets deliver" "length ds = SPM_PAGESIZE" "app s = \<lparr>RunBootloader = b, flash = f\<rparr>"
  shows "\<exists>s' f'. teensy_write (hid_device m spm False deliver hexf) (lo # 0 # ds) s = (True, s') \<and>
    app s' = \<lparr>RunBootloader = b, flash = f'\<rparr> \<and> (\<forall>i. page_of i \<noteq> 0 \<longrightarrow> cell f' i = cell f i)"
proof -
  let ?buf = "lo # 0 # ds"
  let ?q = "\<lparr>bmRequestType = 0x21, bRequest = 9, wValue = 0x200, wIndex = 0, wLength = of_nat (length ?buf)\<rparr>"
  let ?s = "s\<lparr>USB_ControlRequest := ?q, world := deliver ?buf (world s)\<rparr>"
  from delivered [OF assms(1,2) refl, where s = s and q = ?q and lo = lo and hi = 0] assms(3)
  have "staged (packets (world ?s)) \<lparr>RunBootloader = b, flash = f\<rparr> ?q ?s" "word_packets (packets (world ?s))"
    "concat (packets (world ?s)) = lo # 0 # ds" by simp_all
  from report_near [OF this _ _ assms(2)] show ?thesis by (auto simp: teensy_write_def hid_device_def)
qed

lemma program_pages_near:
  assumes "packs_reports packets deliver" "app s = \<lparr>RunBootloader = b, flash = f\<rparr>" "code_size opt = 0x10000" "block_size opt = 256"
    and "list_all (\<lambda>k. k < 256) ks"
  shows "\<exists>s' f'. program_blocks (hid_device m spm False deliver hexf) opt st (map (\<lambda>k. int k * 256) ks) s = (True, s') \<and>
    app s' = \<lparr>RunBootloader = b, flash = f'\<rparr> \<and> (\<forall>i. page_of i \<noteq> 0 \<longrightarrow> cell f' i = cell f i)"
  using assms(2,5)
proof (induction ks arbitrary: s f)
  case (Cons k ks)
  have "drop_bit 16 (int k * 256) = 0" using Cons.prems(2) by (simp add: drop_bit_eq_div)
  then obtain lo where r: "block_report opt st (int k * 256) = lo # 0 # ihex_get_data (int k * 256) 256 st"
    by (simp add: block_report_def address_bytes_def assms(3,4))
  have "length (ihex_get_data (int k * 256) 256 st) = SPM_PAGESIZE" by (simp add: ihex_get_data_def SPM_PAGESIZE_def flip: nat_diff_distrib)
  from write_block_near [OF assms(1) this Cons.prems(1), of hexf lo] obtain s1 f1 where
    w: "teensy_write (hid_device m spm False deliver hexf) (block_report opt st (int k * 256)) s = (True, s1)"
    "app s1 = \<lparr>RunBootloader = b, flash = f1\<rparr>" "\<And>i. page_of i \<noteq> 0 \<Longrightarrow> cell f1 i = cell f i" unfolding r by blast
  from Cons.IH [OF w(2)] Cons.IH [OF Cons.prems(1)] Cons.prems(2) w show ?case by (cases "block_skipped opt st (int k * 256)") auto
qed simp

end

lemma block_addresses_256:
  "block_size opt = 256 \<Longrightarrow> code_size opt = int n * 256 \<Longrightarrow> block_addresses opt = map (\<lambda>k. int k * 256) [0..<n]"
proof -
  have "nat ((int n * 256 + 256 - 1) div 256) = n" by simp
  then show "block_size opt = 256 \<Longrightarrow> code_size opt = int n * 256 \<Longrightarrow> block_addresses opt = map (\<lambda>k. int k * 256) [0..<n]"
    by (simp add: block_addresses_def)
qed

text \<open>The program with the name of a controller and a file, when the device is present.\<close>

lemma loader_main_present:
  assumes "mcu_sizes name = Some (c, 256)" and "c = int n * 256" and "0 < n" and "read_intel_hex (Some hexf) = Some (num, st)" and "0 \<le> num"
    and "fname \<noteq> []" and "hd fname \<noteq> CHR ''-''"
  defines "opt \<equiv> default_options\<lparr>code_size := c, block_size := 256, filename := Some fname\<rparr>"
  assumes "program_blocks (hid_device m p far deliver hexf) opt st (map (\<lambda>k. int k * 256) [0..<n]) s = (True, s1)"
    and "teensy_write (hid_device m p far deliver hexf) ([0xFF, 0xFF] @ replicate 256 0) s1 = (r, s')"
  shows "loader_main (hid_device m p far deliver hexf) [''-mmcu='' @ name, fname] s = Some (0, s')"
proof -
  let ?os = "hid_device m p far deliver hexf"
  have o: "parse_options [''-mmcu='' @ name, fname] default_options = Some opt"
    using assms(1,6,7) by (cases fname) (simp_all add: strncmp_eq_def opt_def default_options_def)
  have "open_body ?os (False, False, False) s = Some (Inr (Some False), s)" by (simp add: open_body_def hid_device_def)
  then have op: "floop (open_body ?os) (False, False, False) s = Some (Some False, s)" by (rule floop_exit)
  have f: "os_file ?os fname s = Some hexf" by (simp add: hid_device_def)
  have b: "block_addresses opt = map (\<lambda>k. int k * 256) [0..<n]" by (rule block_addresses_256) (simp_all add: opt_def assms(2))
  show ?thesis unfolding loader_main_def o using assms(3-5,9,10) op f b by (simp add: opt_def default_options_def assms(2))
qed

text \<open>A host controller that sends packets of 8 bytes to the simulated data stage, and a device waiting for it.\<close>

function packets_of :: "u8 list \<Rightarrow> u8 list list" where
  "packets_of bs = (if bs = [] then [] else take 8 bs # packets_of (drop 8 bs))"
  by pat_completeness auto
termination by (relation "measure length") auto

declare packets_of.simps [simp del]

lemma packets_of_words: "even (length bs) \<Longrightarrow> word_packets (packets_of bs) \<and> concat (packets_of bs) = bs"
proof (induction bs rule: packets_of.induct)
  case (1 bs)
  show ?case
  proof (cases "bs = []")
    case False
    from 1 False have "word_packets (packets_of (drop 8 bs)) \<and> concat (packets_of (drop 8 bs)) = drop 8 bs" by auto
    with 1 False show ?thesis by (subst (1 2) packets_of.simps) (auto simp: word_packets_def min_def)
  qed (simp add: packets_of.simps word_packets_def)
qed

definition sim_deliver :: "u8 list \<Rightarrow> stage_sim \<Rightarrow> stage_sim" where
  "sim_deliver buf w = (packets_of buf, 1)"

lemma sim_packs_reports: "packs_reports fst sim_deliver"
  using packets_of_words by (simp add: packs_reports_def sim_deliver_def)

definition sim_hid :: "(flash_sim, stage_sim) hid_dev" where
  "sim_hid = \<lparr>USB_ControlRequest = request_of (replicate 8 0), USB_Device_ConfigurationNumber = 1, USB_Device_CurrentlySelfPowered = False,
     USB_Device_RemoteWakeupEnabled = False, USB_IsInitialized = True, app = \<lparr>RunBootloader = True, flash = sim_memory\<rparr>, world = ([], 0)\<rparr>"

text \<open>
  C9: the host program and the HID boot loader program the image of a file. For every flash memory and every data stage that follow the data
  sheet, and every image of at most 65280 bytes, split into records of less than 256 bytes addressed one after the other from 0: the program,
  run for the 128 KB controller on the HEX file of the image, exits with 0; the flash then holds the image byte for byte, the rest of its last
  page is erased (as is the first page, whatever the image), every other page is as it was, and the boot loader starts the application.
\<close>
theorem loader_programs_image:
  assumes "page_writer spm cell slot eep ecell readable m packets arrived patience" and "packs_reports packets deliver"
    and "slot (flash (app s)) = Map.empty" and "list_all (\<lambda>ds. length ds < 256) dss" and "length (concat dss) \<le> 0xFF00"
  shows "\<exists>s'. loader_main (hid_device m spm True deliver (image_lines 0 dss @ eof_line)) [''-mmcu=at90usb1287'', ''firmware.hex''] s = Some (0, s') \<and>
    \<not> RunBootloader (app s') \<and>
    (\<forall>i. cell (flash (app s')) i = (if i < length (concat dss) then concat dss ! i
       else if page_used (concat dss) (page_of i) then 0xFF else cell (flash (app s)) i))"
proof -
  let ?bs = "concat dss" and ?f = "image_lines 0 dss @ eof_line" and ?os = "hid_device m spm True deliver (image_lines 0 dss @ eof_line)"
  let ?opt = "default_options\<lparr>code_size := 128 * 1024, block_size := 256, filename := Some ''firmware.hex''\<rparr>"
  from read_file [OF assms(4)] assms(5) obtain st where st: "read_intel_hex (Some ?f) = Some (int (length ?bs), st)" "image_of ?bs st"
    by (auto simp: MAX_MEMORY_SIZE_def)
  have a: "app s = \<lparr>RunBootloader = RunBootloader (app s), flash = flash (app s)\<rparr>" by simp
  have k: "list_all (\<lambda>k. k < 0xFFFF) [0..<512]" by (simp add: list_all_iff)
  have o: "0x10000 \<le> code_size ?opt" "block_size ?opt = 256" by (simp_all add: default_options_def)
  from page_writer.program_pages [OF assms(1,2) a assms(3) st(2) assms(5) o k, of ?f] obtain s1 f1 where
    p: "program_blocks ?os ?opt st (map (\<lambda>k. int k * 256) [0..<512]) s = (True, s1)" "app s1 = \<lparr>RunBootloader = RunBootloader (app s), flash = f1\<rparr>"
    "\<And>i. cell f1 i = (if page_of i \<in> set [0..<512] \<and> page_used ?bs (page_of i) then padded ?bs i else cell (flash (app s)) i)" by blast
  from page_writer.write_start [OF assms(1,2) p(2), of True ?f] obtain s' where
    w: "teensy_write ?os ([0xFF, 0xFF] @ replicate 256 0) s1 = (True, s')" "app s' = \<lparr>RunBootloader = False, flash = f1\<rparr>" by blast
  have "loader_main ?os [''-mmcu='' @ ''at90usb1287'', ''firmware.hex''] s = Some (0, s')"
    by (rule loader_main_present [OF _ _ _ st(1) _ _ _ p(1) w(1)]) (simp_all add: mcu_sizes_def strncmp_eq_def)
  moreover have "cell f1 i = (if i < length ?bs then ?bs ! i else if page_used ?bs (page_of i) then 0xFF else cell (flash (app s)) i)" for i
    using page_used_less [OF _ assms(5), of "page_of i"] page_used_byte [of i ?bs] by (auto simp: p(3) padded_def)
  ultimately show ?thesis using w(2) by simp
qed

theorem loader_programs_image_witness:
  "\<exists>s'. loader_main (hid_device stage_mcu sim_spm True sim_deliver (image_lines 0 [[1, 2, 3]] @ eof_line))
      [''-mmcu=at90usb1287'', ''firmware.hex''] sim_hid = Some (0, s') \<and>
    \<not> RunBootloader (app s') \<and> cells (flash (app s')) 1 = 2 \<and> cells (flash (app s')) 3 = 0xFF \<and> cells (flash (app s')) 256 = 1"
proof -
  have "slots (flash (app sim_hid)) = Map.empty" by (simp add: sim_hid_def)
  from loader_programs_image [OF sim_writer.page_writer_axioms sim_packs_reports this, of "[[1, 2, 3]]"] obtain s' where
    s': "loader_main (hid_device stage_mcu sim_spm True sim_deliver (image_lines 0 [[1, 2, 3]] @ eof_line))
        [''-mmcu=at90usb1287'', ''firmware.hex''] sim_hid = Some (0, s')" "\<not> RunBootloader (app s')"
    "\<And>i. cells (flash (app s')) i = (if i < 3 then [1, 2, 3] ! i else if page_used [1, 2, 3] (page_of i) then 0xFF else cells (flash (app sim_hid)) i)"
    by auto
  have "cells (flash (app s')) 1 = 2" "cells (flash (app s')) 3 = 0xFF" "cells (flash (app s')) 256 = 1"
    by (simp_all add: s'(3) page_used_def page_of_def SPM_PAGESIZE_def) (simp add: sim_hid_def)
  with s' show ?thesis by blast
qed



text \<open>
  C40: a record can make the host program write outside its memory image. The check of the address wraps around: after a record that sets the
  upper address to its largest value, one byte at the last address of that bank passes the check and is stored 4 GB behind the array.
\<close>
theorem loader_out_of_bounds:
  "read_intel_hex (Some (hex_line 0 4 [0xFF, 0xFF] @ hex_line 0xFFFF 0 [b] @ cs)) = None"
proof -
  let ?st = "empty_loader\<lparr>extended_addr := 0xFFFF0000\<rparr>"
  have p1: "parse_hex_line (hex_line 0 4 [0xFF, 0xFF]) empty_loader = Some (True, ?st)"
  proof -
    have "sscanf_x 4 (drop 9 (hex_line 0 4 [0xFF, 0xFF])) = Scanned 65535" "sscanf_x 2 (drop 13 (hex_line 0 4 [0xFF, 0xFF])) = Scanned 252"
      by code_simp+
    then show ?thesis using parse_hex_record [of "[0xFF, 0xFF]" 0 4 empty_loader]
      by (simp add: line_record_def line_extended_def MAX_MEMORY_SIZE_def checksum_ok_def) (simp add: empty_loader_def)
  qed
  have p2: "parse_hex_line (hex_line 0xFFFF 0 [b]) ?st = None"
  proof -
    have "sscanf_x 2 (drop 9 (hex_line 0xFFFF 0 [b])) = Scanned (uint b)" using hex_line_scan(4) [of "[b]" 65535 0 0] by simp
    then have "line_data (hex_line 0xFFFF 0 [b]) 65535 1 0 csum t = None" if "extended_addr t = 0xFFFF0000" for csum t
      using that by (subst line_data.simps) (simp add: length_hex_line store_def MAX_MEMORY_SIZE_def)
    then show ?thesis using parse_hex_record [of "[b]" 65535 0 ?st] by (simp add: line_record_def MAX_MEMORY_SIZE_def)
  qed
  show ?thesis by (simp add: read_intel_hex_def read_record p1 p2) (simp add: empty_loader_def)
qed

end
