(* ===== verification/Spec2Isabelle.thy ===== *)
theory Spec2Isabelle
  imports AMLS_Theorems Daemon_Theorems Utilities_Theorems Utilities_IO RingBuffer HIDParser_Theorems RNG_Descriptors RNG_Theorems Mass_Storage HID_Loader
begin

text \<open>
  \<^bold>\<open>A verification library for a USB hardware random number generator.\<close>

  The repository holds the firmware of a USB noise source (\<open>firmware/RNG\<close>, on the LUFA USB stack in
  \<open>firmware/LUFA\<close>), the host daemon that collects its bits (\<open>software/k7nvh_rng.c\<close>), small
  command line tools (\<open>utilities\<close>), and the boot loaders LUFA brings along to install a firmware. The firmware sends each
  raw bit as a character 0 or 1 over a virtual serial port; the daemon reads 128 characters at a time, debiases blocks of 512 bits with a
  multi-level von Neumann strategy, packs the debiased bits into a buffer of 1024 bytes, and when it
  is full writes the exclusive-or of its two halves to a file or to the kernel's entropy pool.

  \<^bold>\<open>Host side.\<close>
  \<^item> \<open>RNG_Prelude\<close>: C arrays with uninitialised cells, characters of either signedness, bits.
  \<^item> \<open>AMLS\<close>, \<open>AMLS_Uniform\<close>, \<open>AMLS_Theorems\<close>: the debiaser \<open>amls\<close> (daemon and \<open>utilities/amls.c\<close>), its
    specification \<open>debias\<close>, refinement, uniformity of its output, and that it never returns where characters are unsigned.
  \<^item> \<open>Daemon_OS\<close>, \<open>Daemon\<close>: the kernel as a record of functions, the daemon's global variables and its
    functions one by one, every \<open>exit_cleanup\<close> call of the source an exit of the model.
  \<^item> \<open>Whitening\<close>, \<open>Daemon_Env\<close>, \<open>Daemon_Blocks\<close>, \<open>Daemon_Stream\<close>, \<open>Daemon_Run\<close>, \<open>Daemon_Errors\<close>: the
    abstract collector, the interface \<open>daemon_env\<close> the kernel provides, refinement of every step of the
    main loop, the loop invariant, progress, start-up and the error exits.
  \<^item> \<open>Daemon_Sim\<close>, \<open>Daemon_Theorems\<close>: a simulated kernel providing the interface, and the theorems.
  \<^item> \<open>Utilities\<close>, \<open>Utilities_Theorems\<close>, \<open>Utilities_IO\<close>: the command line tools; the filters as functions from
    standard input to standard output, the serial port reader and the pool test on the kernel interface.

  \<^bold>\<open>Firmware and USB stack.\<close> A device is a record \<open>dev\<close> of the library's global variables, the application's variables
  (\<open>app\<close>) and the \<open>world\<close> outside; the hardware is the record \<open>mcu\<close> of functions that read and write registers. Every
  function of the sources is a function on that state.
  \<^item> \<open>LUFA_Common\<close>, \<open>RingBuffer\<close>: byte and bit order helpers and the ring buffer of the library (\<open>Common\<close>, \<open>Drivers/Misc\<close>), which
    refines a bounded queue.
  \<^item> \<open>HIDParser\<close>, \<open>HIDParser_Theorems\<close>: the library's HID report descriptor parser and report access; parsing keeps all indices in range.
  \<^item> \<open>USB_Hardware\<close>, \<open>USB_Registers\<close>, \<open>USB_Endpoint\<close>, \<open>USB_Device\<close>: registers and loops, the inline register functions, endpoint
    configuration and streams, control requests, the controller and its interrupts (\<open>Drivers/USB/Core\<close> and \<open>Core/AVR8\<close>).
  \<^item> \<open>CDC_Device\<close>, \<open>RNG_Firmware\<close>: the virtual serial port class driver, and the firmware itself with its main loop as a step relation in which
    interrupts come between any two stages.
  \<^item> \<open>ConfigDescriptors\<close>, \<open>RNG_Descriptors\<close>: the search in a configuration descriptor, and the firmware's own descriptors against the endpoints
    it configures.
  \<^item> \<open>USB_Bus\<close>, \<open>RNG_Stream\<close>: the interface \<open>usb_bus\<close> of a controller with an arbitrary host; every byte sent is a sample, in order.
  \<^item> \<open>RNG_Delivery\<close>: the interface \<open>prompt_host\<close> of a host that keeps up; then every sample is delivered.
  \<^item> \<open>USB_Clock\<close>: the interface \<open>bus_clock\<close> of time on the bus; every wait for an endpoint ends.
  \<^item> \<open>USB_Sim\<close>, \<open>RNG_Theorems\<close>: a simulated controller and host that provide the three interfaces, and the theorems on the firmware.

  \<^bold>\<open>Boot loaders.\<close>
  \<^item> \<open>Flash_Memory\<close>: the self-programming instructions and the EEPROM as records, their behaviour as the interfaces
    \<open>flash_memory\<close> and \<open>storage\<close>, a memory that provides them.
  \<^item> \<open>Bootloader_HEX\<close>: the printer boot loader's HEX parser (\<open>Bootloaders/Printer\<close>); the image of a file ends up in the flash, and three
    kinds of files for which it does not.
  \<^item> \<open>Virtual_FAT\<close>, \<open>Mass_Storage\<close>: the disk of the mass storage boot loader, its SCSI commands and the mass storage class driver; the two files of
    the disk read back what was written, their cluster chains are right, and only a successful WRITE (10) changes the disk.
  \<^item> \<open>Bootloader_HID\<close>, \<open>HID_Loader\<close>: the HID boot loader over the interface \<open>out_stage\<close> of a control transfer, and the host program that feeds
    it (\<open>Bootloaders/HID/HostLoaderApp\<close>); together they program the image of a file, except on 64 KB controllers.

  \<^bold>\<open>This theory\<close> joins firmware and daemon: what the daemon writes is made of samples of the noise pin.

  \<^bold>\<open>Loops and bounds.\<close> A loop that may run forever is \<open>floop\<close> (or another \<open>partial_function\<close> into \<open>option\<close>): a loop that never ends, and undefined behaviour,
  have the value \<open>None\<close>, so a theorem that gives \<open>Some\<close> includes termination. No function takes fuel except \<open>follow\<close>, a reader
  of FAT12 chains in a statement only, whose 100 steps exceed the 64 clusters of the disk. Machine integers are words of their width. Images are bounded by what
  the formats can address: 64 KB for the HEX parser, 65280 bytes for the host program, whose last page is lost.

  \<^bold>\<open>Parameters.\<close> The kernel (\<open>os\<close>), the registers and the host behind them (\<open>mcu\<close>), the flash (\<open>spm\<close>, \<open>eep\<close>) and libusb (\<open>host_os\<close>) are not
  in the sources. They are arguments; what a theorem relies on are the laws of a locale, and every locale is interpreted on a simulation.

  \<^bold>\<open>Not modelled.\<close> Interrupts inside a stage of the firmware's main loop. LUFA's host mode (pipes, host standard requests, host class drivers), which
  the firmware disables at compile time; the ports to the UC3 and XMEGA families; the other device class drivers (audio, HID, MIDI, printer,
  RNDIS, still image); the board drivers and the peripheral drivers for SPI, TWI, ADC and the serial port; the demos and projects built on LUFA, with the third-party FatFs and uIP
  sources in them; the CDC and DFU boot loaders; the start-up code, LEDs and watchdog of the boot loaders that are modelled; build files, code templates and documentation. The
  random number generator uses none of these parts.
\<close>

subsection \<open>From the noise pin to the output file\<close>

lemma ascii_inject [simp]: "ascii a = ascii b \<longleftrightarrow> a = b"
  by (simp add: ascii_def)

lemma subseq_ascii: "subseq (map ascii xs) (map ascii ys) \<Longrightarrow> subseq xs ys"
proof (induction ys arbitrary: xs)
  case (Cons y ys)
  show ?case
  proof (cases xs)
    case (Cons x xs')
    with Cons.prems have "if x = y then subseq (map ascii xs') (map ascii ys) else subseq (map ascii xs) (map ascii ys)"
      by (simp split: if_splits)
    with Cons.IH Cons show ?thesis by (simp split: if_splits)
  qed simp
next
  case Nil
  then show ?case by (cases xs) simp_all
qed

text \<open>
  C1: from the noise pin to the output file. When the bytes the daemon has taken since its start-up are some of the
  bytes the device has sent, in order, the file holds, appended to what it held, the mixed chunks of the
  debiased blocks of samples the device took, in the order it took them.
\<close>

theorem noise_to_output:
  assumes "daemon_env os written consumed" and "file_output bld" and "signed_char bld"
    and "startup bld os argv (daemon_init, w) = Some (Returns (), d0, w0)"
    and "logFileHandle d0 \<noteq> outFileHandle d0"
    and "(daemon_step bld os argv)\<^sup>*\<^sup>* (d0, w0) (d1, w1)"
    and "usb_bus m sel stream samples" and "iface_ok (app s0)" and "stream 3 (world s0) = []"
    and "(firmware_step m)\<^sup>*\<^sup>* (p0, s0) (p1, s1)"
    and "consumed w1 = consumed w0 @ bytes" and "subseq bytes (stream 3 (world s1))"
  shows "\<exists>bits. subseq bits (samples (world s1)) \<and>
    written (outFileHandle d0) w1 = written (outFileHandle d0) w0 @ mixed_chunks (debiased_blocks bits)"
proof -
  from daemon_gathers [OF assms(1-6)] obtain bits where b: "bytes = map ascii bits"
    and o: "written (outFileHandle d0) w1 = written (outFileHandle d0) w0 @ mixed_chunks (debiased_blocks bits)"
    using assms(11) by auto
  have "usb_bus.faithful stream samples s0" using assms(8,9) by (simp add: usb_bus.faithful_def [OF assms(7)])
  with usb_bus.steps_faithful [OF assms(7,10)] have "subseq (stream 3 (world s1)) (map ascii (samples (world s1)))"
    by (simp add: usb_bus.faithful_def [OF assms(7)])
  from subseq_order.order_trans [OF assms(12) this] b have "subseq bits (samples (world s1))" by (simp add: subseq_ascii)
  with o show ?thesis by blast
qed

theorem noise_to_output_witness:
  "\<exists>d0 w0 d1 w1 s1 bits. startup file_build (sim_os ascii) sim_argv (daemon_init, sim_start sim_bits) = Some (Returns (), d0, w0) \<and>
    main_iteration file_build (sim_os ascii) sim_argv (d0, w0) = Some (Returns (), d1, w1) \<and>
    (firmware_step sim_mcu)\<^sup>*\<^sup>* (Sampling, rng_opened (sim_ready (map ((=) 49) (drop (length (taken w0)) (taken w1))))) (Sampling, s1) \<and>
    subseq bits (sampled (world s1)) \<and>
    sim_written (outFileHandle d0) w1 = sim_written (outFileHandle d0) w0 @ mixed_chunks (debiased_blocks bits)"
proof -
  have build: "file_output file_build" "signed_char file_build" by (simp_all add: file_build_def)
  obtain d0 w0 where st: "startup file_build (sim_os ascii) sim_argv (daemon_init, sim_start sim_bits) =
      Some (Returns (), d0, w0)" and h: "logFileHandle d0 \<noteq> outFileHandle d0"
    using sim_startup [of sim_bits] by fastforce
  have "serving (length sim_argv - 1) d0" using startup_ready [OF st] ready_serving by blast
  from simulated.main_iteration_runs [OF build sim_delivers this] obtain d1 w1 where
    it: "main_iteration file_build (sim_os ascii) sim_argv (d0, w0) = Some (Returns (), d1, w1)" by blast
  then have run: "(daemon_step file_build (sim_os ascii) sim_argv)\<^sup>*\<^sup>* (d0, w0) (d1, w1)"
    by (intro r_into_rtranclp daemon_step.iteration)
  from daemon_gathers [OF sim_env build st h run] obtain bs where t: "taken w1 = taken w0 @ map ascii bs" by blast
  have "map ((=) 49) (drop (length (taken w0)) (taken w1)) = bs" using t by (simp add: comp_def ascii_def)
  moreover obtain s1 where "rng_loop sim_mcu (length bs) (rng_opened (sim_ready bs)) = Some (True, s1)"
    and s1: "sim_stream 3 (world s1) = map ascii bs"
    using sim_delivered by blast
  from loop_steps [OF this(1)] have f: "(firmware_step sim_mcu)\<^sup>*\<^sup>* (Sampling, rng_opened (sim_ready bs)) (Sampling, s1)" .
  moreover have "\<exists>bits. subseq bits (sampled (world s1)) \<and>
    sim_written (outFileHandle d0) w1 = sim_written (outFileHandle d0) w0 @ mixed_chunks (debiased_blocks bits)"
    by (rule noise_to_output [OF sim_env build st h run sim_bus.usb_bus_axioms _ _ f t]) (simp_all add: s1)
  ultimately show ?thesis using st it by blast
qed

end
